(* ===== verification/Prelude.thy ===== *)
theory Prelude
  imports Main "HOL-Library.Word"
begin

text \<open>
  Shared vocabulary of the development: names for the machine types of the firmware, the
  named collections the component theories add their rewrite rules to, and the text layer
  that every response goes through (decimal digits and the truncating write of
  \<^verbatim>\<open>snprintf\<close>).

  Conventions used by every theory.
  \<^item> An unsigned or signed C++ integer is a word of its width; a signed one is read with
    \<^term>\<open>sint\<close>.  A \<^verbatim>\<open>size_t\<close> that only counts bytes of a buffer is a \<^typ>\<open>nat\<close>.
  \<^item> \<^verbatim>\<open>std::expected<T, E>\<close> is the sum type, \<^term>\<open>Inl\<close> the error and
    \<^term>\<open>Inr\<close> the value; \<^verbatim>\<open>std::optional\<close> is the option type.
  \<^item> An \<open>'a outcome\<close> is \<^term>\<open>None\<close> where the C++ has no defined result (an
    out-of-range conversion, a division by zero, a write outside an array).
\<close>

type_synonym u8 = "8 word"
type_synonym u16 = "16 word"
type_synonym u32 = "32 word"
type_synonym u64 = "64 word"
type_synonym i16 = "16 word"
type_synonym i32 = "32 word"
type_synonym byte = "8 word"
type_synonym 'a outcome = "'a option"

named_theorems handler_simps \<open>unfoldings of the command handlers\<close>
named_theorems fp_simps \<open>evaluation of floating-point operations on special values\<close>
named_theorems text_simps \<open>lengths and shapes of formatted text\<close>

subsection \<open>Lists and options\<close>

lemma take_take_min [simp]: "take n (take m xs) = take (min n m) xs"
  by simp

lemma length_take_le: "length (take n xs) \<le> n"
  by simp

lemma map_option_eq_Some_iff:
  "map_option f x = Some y \<longleftrightarrow> (\<exists>z. x = Some z \<and> f z = y)"
  by (cases x) auto

lemma nth_list_update_if:
  "i < length xs \<Longrightarrow> xs[i := v] ! j = (if i = j then v else xs ! j)"
  by (cases "i = j") auto

lemma map_upt_Suc_Cons: "map f [0 ..< Suc n] = f 0 # map (\<lambda>i. f (Suc i)) [0 ..< n]"
  by (induction n) simp_all

lemma unat_word_of_nat: "n < 2 ^ LENGTH('a) \<Longrightarrow> unat (word_of_nat n :: 'a::len word) = n"
  by (simp add: unat_of_nat take_bit_nat_eq_self)

subsection \<open>Decimal text\<close>

text \<open>\<^verbatim>\<open>%u\<close>, \<^verbatim>\<open>%lu\<close>, \<^verbatim>\<open>%llu\<close> and \<^verbatim>\<open>%zu\<close>: the decimal digits of an unsigned value.\<close>

definition digit_char :: "nat \<Rightarrow> char" where
  "digit_char d = ''0123456789'' ! d"

definition char_digit :: "char \<Rightarrow> nat" where
  "char_digit c = of_char c - 48"

definition is_digit :: "char \<Rightarrow> bool" where
  "is_digit c \<longleftrightarrow> 48 \<le> (of_char c :: nat) \<and> (of_char c :: nat) \<le> 57"

fun nat_str :: "nat \<Rightarrow> string" where
  "nat_str n = (if n < 10 then [digit_char n] else nat_str (n div 10) @ [digit_char (n mod 10)])"

declare nat_str.simps [simp del]

text \<open>\<^verbatim>\<open>%d\<close> and \<^verbatim>\<open>%ld\<close>: a minus sign and the digits of the magnitude.\<close>

definition int_str :: "int \<Rightarrow> string" where
  "int_str z = (if z < 0 then CHR ''-'' # nat_str (nat (- z)) else nat_str (nat z))"

text \<open>The value of a run of digits, as the firmware's own scanner accumulates it.\<close>

definition digits_val :: "string \<Rightarrow> nat" where
  "digits_val ds = foldl (\<lambda>v c. v * 10 + char_digit c) 0 ds"

lemma less_10_cases:
  "(d::nat) < 10 \<Longrightarrow> d = 0 \<or> d = 1 \<or> d = 2 \<or> d = 3 \<or> d = 4 \<or> d = 5 \<or> d = 6 \<or> d = 7 \<or> d = 8 \<or> d = 9"
  by arith

lemma of_char_digit_char [simp]: "d < 10 \<Longrightarrow> (of_char (digit_char d) :: nat) = 48 + d"
  by (drule less_10_cases) (auto simp: digit_char_def)

lemma char_digit_digit_char [simp]: "d < 10 \<Longrightarrow> char_digit (digit_char d) = d"
  by (simp add: char_digit_def)

lemma is_digit_digit_char [simp]: "d < 10 \<Longrightarrow> is_digit (digit_char d)"
  by (simp add: is_digit_def)

lemma nat_str_nonempty [simp]: "nat_str n \<noteq> []"
  by (subst nat_str.simps) simp

lemma nat_str_digits: "\<forall>c \<in> set (nat_str n). is_digit c"
proof (induction n rule: nat_str.induct)
  case (1 n)
  show ?case
  proof (cases "n < 10")
    case True
    then show ?thesis by (subst nat_str.simps) simp
  next
    case False
    with "1.IH" show ?thesis by (subst nat_str.simps) auto
  qed
qed

lemma digits_val_snoc [simp]: "digits_val (ds @ [c]) = digits_val ds * 10 + char_digit c"
  by (simp add: digits_val_def)

lemma digits_val_nat_str: "digits_val (nat_str n) = n"
proof (induction n rule: nat_str.induct)
  case (1 n)
  show ?case
  proof (cases "n < 10")
    case True
    then show ?thesis by (subst nat_str.simps) (simp add: digits_val_def)
  next
    case False
    with "1.IH" show ?thesis by (subst nat_str.simps) simp
  qed
qed

lemma length_nat_str_le: "n < 10 ^ k \<Longrightarrow> 0 < k \<Longrightarrow> length (nat_str n) \<le> k"
proof (induction k arbitrary: n)
  case 0
  then show ?case by simp
next
  case (Suc k)
  show ?case
  proof (cases "n < 10")
    case True
    then show ?thesis by (subst nat_str.simps) simp
  next
    case False
    with Suc.prems have "n div 10 < 10 ^ k" by (simp add: less_mult_imp_div_less mult.commute)
    moreover from this False have "0 < k" by (cases k) auto
    ultimately have "length (nat_str (n div 10)) \<le> k" by (rule Suc.IH)
    with False show ?thesis by (subst nat_str.simps) simp
  qed
qed

text \<open>Evaluation at numerals.\<close>

lemma nat_str_eval [text_simps]:
  "nat_str 0 = ''0''" "nat_str (Suc 0) = ''1''" "nat_str 1 = ''1''"
  "nat_str (numeral k) =
     (if numeral k < (10::nat) then [digit_char (numeral k)]
      else nat_str (numeral k div 10) @ [digit_char (numeral k mod 10)])"
  by (subst nat_str.simps; simp add: digit_char_def)+

subsection \<open>The truncating write of snprintf\<close>

text \<open>
  \<^verbatim>\<open>snprintf(buf, cap, ...)\<close> stores at most \<open>cap - 1\<close> characters and a NUL, and returns
  the length the whole text has.  A response buffer is zero-initialised, so it is kept as
  the characters written to its front; the rest of the array is NUL.
\<close>

definition snprintf :: "nat \<Rightarrow> string \<Rightarrow> string \<times> nat" where
  "snprintf cap s = (take (cap - 1) s, length s)"

lemma snprintf_fits [text_simps]: "length s < cap \<Longrightarrow> snprintf cap s = (s, length s)"
  by (simp add: snprintf_def)

lemma snprintf_bounded: "0 < cap \<Longrightarrow> length (fst (snprintf cap s)) < cap"
  by (simp add: snprintf_def)

text \<open>\<^verbatim>\<open>strncpy\<close> of a C string into an array of \<open>cap\<close> bytes whose last byte is then set to NUL.\<close>

definition strncpy_z :: "nat \<Rightarrow> string \<Rightarrow> string" where
  "strncpy_z cap s = take (cap - 1) (takeWhile (\<lambda>c. c \<noteq> CHR 0x00) s)"

end
