(* ===== verification/Floats.thy ===== *)
theory Floats
  imports Complex_Main Prelude
begin

text \<open>
  The floating-point arithmetic of the firmware.  \<^verbatim>\<open>float\<close> and \<^verbatim>\<open>double\<close> are IEEE 754
  binary32 and binary64: a value is a NaN, a signed infinity, or a sign, an integer
  mantissa and an exponent, and every operation computes the exact result and rounds it
  once to the nearest representable value, ties to the even mantissa.  All definitions
  compute with integers, so concrete results evaluate.  NaN payloads are not kept (the
  firmware never looks at them), and fused multiply-add contraction is not modelled.
\<close>

subsection \<open>Formats and values\<close>

datatype fp = FNaN | FInf bool | FFin bool nat int

text \<open>A format is its precision, the exponent of its smallest subnormal, and its largest exponent.\<close>

type_synonym fmt = "nat \<times> int \<times> int"

definition f32 :: fmt where "f32 = (24, - 149, 104)"
definition f64 :: fmt where "f64 = (53, - 1074, 971)"

fun blen :: "nat \<Rightarrow> nat" where
  "blen n = (if n = 0 then 0 else Suc (blen (n div 2)))"

declare blen.simps [simp del]

definition scale_num :: "nat \<Rightarrow> int \<Rightarrow> nat" where
  "scale_num n e = (if e < 0 then n * 2 ^ nat (- e) else n)"

definition scale_den :: "nat \<Rightarrow> int \<Rightarrow> nat" where
  "scale_den d e = (if e < 0 then d else d * 2 ^ nat e)"

text \<open>Rounding a quotient to the nearest integer, ties to even.\<close>

definition rne :: "nat \<Rightarrow> nat \<Rightarrow> nat" where
  "rne a b =
     (let q = a div b; r = a mod b
      in if 2 * r < b then q else if 2 * r > b then Suc q else if even q then q else Suc q)"

definition fp_zero :: "fmt \<Rightarrow> bool \<Rightarrow> fp" where
  "fp_zero F s = FFin s 0 (fst (snd F))"

text \<open>The exponent at which the quotient \<open>n / d\<close> is rounded: its mantissa then has \<open>p\<close> bits.\<close>

definition round_exp :: "fmt \<Rightarrow> nat \<Rightarrow> nat \<Rightarrow> int" where
  "round_exp F n d =
     (case F of (p, emin, emax) \<Rightarrow>
        let e0 = max emin (int (blen n) - int (blen d) - int p)
        in if scale_num n e0 div scale_den d e0 < 2 ^ p then e0 else e0 + 1)"

definition fp_pack :: "fmt \<Rightarrow> bool \<Rightarrow> nat \<Rightarrow> int \<Rightarrow> fp" where
  "fp_pack F s q e =
     (case F of (p, emin, emax) \<Rightarrow>
        if q < 2 ^ p then (if emax < e then FInf s else FFin s q e)
        else (if emax < e + 1 then FInf s else FFin s (2 ^ (p - 1)) (e + 1)))"

definition fp_round :: "fmt \<Rightarrow> bool \<Rightarrow> nat \<Rightarrow> nat \<Rightarrow> fp" where
  "fp_round F s n d =
     (if n = 0 then fp_zero F s
      else let e = round_exp F n d
           in fp_pack F s (rne (scale_num n e) (scale_den d e)) e)"

text \<open>Rounding of \<open>m / d * 2 ^ e\<close>.\<close>

definition fp_round_exp :: "fmt \<Rightarrow> bool \<Rightarrow> nat \<Rightarrow> nat \<Rightarrow> int \<Rightarrow> fp" where
  "fp_round_exp F s m d e =
     (if e < 0 then fp_round F s m (d * 2 ^ nat (- e)) else fp_round F s (m * 2 ^ nat e) d)"

text \<open>A decimal literal such as \<^verbatim>\<open>0.03052f\<close> is the rounding of \<open>3052 / 10 ^ 5\<close>.\<close>

definition f32_lit :: "int \<Rightarrow> nat \<Rightarrow> fp" where
  "f32_lit z k = fp_round f32 (z < 0) (nat \<bar>z\<bar>) (10 ^ k)"

definition f64_lit :: "int \<Rightarrow> nat \<Rightarrow> fp" where
  "f64_lit z k = fp_round f64 (z < 0) (nat \<bar>z\<bar>) (10 ^ k)"

subsection \<open>Classification, order and conversion\<close>

fun is_fin :: "fp \<Rightarrow> bool" where
  "is_fin (FFin s m e) = True"
| "is_fin _ = False"

definition sgn_val :: "bool \<Rightarrow> nat \<Rightarrow> int" where
  "sgn_val s m = (if s then - int m else int m)"

text \<open>The mantissas of two finite values brought to their smaller exponent.\<close>

definition align :: "bool \<Rightarrow> nat \<Rightarrow> int \<Rightarrow> int \<Rightarrow> int" where
  "align s m e e' = sgn_val s m * 2 ^ nat (e - min e e')"

fun f_lt :: "fp \<Rightarrow> fp \<Rightarrow> bool" where
  "f_lt FNaN y = False"
| "f_lt x FNaN = False"
| "f_lt (FInf s) (FInf t) = (s \<and> \<not> t)"
| "f_lt (FInf s) (FFin t m e) = s"
| "f_lt (FFin s m e) (FInf t) = (\<not> t)"
| "f_lt (FFin s m e) (FFin t n e') = (align s m e e' < align t n e' e)"

fun f_eq :: "fp \<Rightarrow> fp \<Rightarrow> bool" where
  "f_eq FNaN y = False"
| "f_eq x FNaN = False"
| "f_eq (FInf s) (FInf t) = (s = t)"
| "f_eq (FInf s) (FFin t m e) = False"
| "f_eq (FFin s m e) (FInf t) = False"
| "f_eq (FFin s m e) (FFin t n e') = (align s m e e' = align t n e' e)"

definition f_le :: "fp \<Rightarrow> fp \<Rightarrow> bool" where
  "f_le x y \<longleftrightarrow> f_lt x y \<or> f_eq x y"

text \<open>\<^verbatim>\<open>static_cast<float>\<close> of an integer, and of a \<^verbatim>\<open>double\<close>.\<close>

definition f_of_int :: "fmt \<Rightarrow> int \<Rightarrow> fp" where
  "f_of_int F z = fp_round F (z < 0) (nat \<bar>z\<bar>) 1"

fun f_cvt :: "fmt \<Rightarrow> fp \<Rightarrow> fp" where
  "f_cvt F FNaN = FNaN"
| "f_cvt F (FInf s) = FInf s"
| "f_cvt F (FFin s m e) = fp_round_exp F s m 1 e"

text \<open>
  The truncation toward zero of a \<^verbatim>\<open>static_cast\<close> to an integer type, and the rounding of
  \<^verbatim>\<open>std::lround\<close> (halves away from zero).  A NaN or an infinity has no integer value, and a
  value outside the target type has no defined result in C++: the range check is the
  \<open>to_range\<close> of the conversions below.
\<close>

fun f_trunc :: "fp \<Rightarrow> int option" where
  "f_trunc (FFin s m e) = Some (sgn_val s (scale_den m e div scale_num 1 e))"
| "f_trunc _ = None"

fun f_lround :: "fp \<Rightarrow> int option" where
  "f_lround (FFin s m e) =
     Some (sgn_val s ((2 * scale_den m e + scale_num 1 e) div (2 * scale_num 1 e)))"
| "f_lround _ = None"

definition to_range :: "int \<Rightarrow> int \<Rightarrow> int option \<Rightarrow> int option" where
  "to_range lo hi z = (case z of None \<Rightarrow> None | Some v \<Rightarrow> if lo \<le> v \<and> v \<le> hi then Some v else None)"

definition f_to_u32 :: "fp \<Rightarrow> u32 outcome" where
  "f_to_u32 x = map_option word_of_int (to_range 0 (2 ^ 32 - 1) (f_trunc x))"

definition f_to_i32 :: "fp \<Rightarrow> i32 outcome" where
  "f_to_i32 x = map_option word_of_int (to_range (- (2 ^ 31)) (2 ^ 31 - 1) (f_trunc x))"

definition f_to_u16 :: "fp \<Rightarrow> u16 outcome" where
  "f_to_u16 x = map_option word_of_int (to_range 0 (2 ^ 16 - 1) (f_trunc x))"

definition f_to_i16 :: "fp \<Rightarrow> i16 outcome" where
  "f_to_i16 x = map_option word_of_int (to_range (- (2 ^ 15)) (2 ^ 15 - 1) (f_trunc x))"

text \<open>\<^verbatim>\<open>long\<close> has 32 bits on the ESP32-S3.\<close>

definition lround_i32 :: "fp \<Rightarrow> i32 outcome" where
  "lround_i32 x = map_option word_of_int (to_range (- (2 ^ 31)) (2 ^ 31 - 1) (f_lround x))"

subsection \<open>Arithmetic\<close>

fun f_neg :: "fp \<Rightarrow> fp" where
  "f_neg FNaN = FNaN"
| "f_neg (FInf s) = FInf (\<not> s)"
| "f_neg (FFin s m e) = FFin (\<not> s) m e"

fun f_abs :: "fp \<Rightarrow> fp" where
  "f_abs FNaN = FNaN"
| "f_abs (FInf s) = FInf False"
| "f_abs (FFin s m e) = FFin False m e"

fun f_add :: "fmt \<Rightarrow> fp \<Rightarrow> fp \<Rightarrow> fp" where
  "f_add F FNaN y = FNaN"
| "f_add F x FNaN = FNaN"
| "f_add F (FInf s) (FInf t) = (if s = t then FInf s else FNaN)"
| "f_add F (FInf s) (FFin t m e) = FInf s"
| "f_add F (FFin s m e) (FInf t) = FInf t"
| "f_add F (FFin s m e) (FFin t n e') =
     (let z = align s m e e' + align t n e' e
      in if z = 0 then fp_zero F (s \<and> t)
         else fp_round_exp F (z < 0) (nat \<bar>z\<bar>) 1 (min e e'))"

definition f_sub :: "fmt \<Rightarrow> fp \<Rightarrow> fp \<Rightarrow> fp" where
  "f_sub F x y = f_add F x (f_neg y)"

fun f_mul :: "fmt \<Rightarrow> fp \<Rightarrow> fp \<Rightarrow> fp" where
  "f_mul F FNaN y = FNaN"
| "f_mul F x FNaN = FNaN"
| "f_mul F (FInf s) (FInf t) = FInf (s \<noteq> t)"
| "f_mul F (FInf s) (FFin t m e) = (if m = 0 then FNaN else FInf (s \<noteq> t))"
| "f_mul F (FFin s m e) (FInf t) = (if m = 0 then FNaN else FInf (s \<noteq> t))"
| "f_mul F (FFin s m e) (FFin t n e') = fp_round_exp F (s \<noteq> t) (m * n) 1 (e + e')"

fun f_div :: "fmt \<Rightarrow> fp \<Rightarrow> fp \<Rightarrow> fp" where
  "f_div F FNaN y = FNaN"
| "f_div F x FNaN = FNaN"
| "f_div F (FInf s) (FInf t) = FNaN"
| "f_div F (FInf s) (FFin t m e) = FInf (s \<noteq> t)"
| "f_div F (FFin s m e) (FInf t) = fp_zero F (s \<noteq> t)"
| "f_div F (FFin s m e) (FFin t n e') =
     (if n = 0 then (if m = 0 then FNaN else FInf (s \<noteq> t))
      else fp_round_exp F (s \<noteq> t) m n (e - e'))"

text \<open>\<^verbatim>\<open>std::fmod\<close> is exact: the remainder of the magnitudes, with the sign of the dividend.\<close>

fun f_fmod :: "fmt \<Rightarrow> fp \<Rightarrow> fp \<Rightarrow> fp" where
  "f_fmod F FNaN y = FNaN"
| "f_fmod F x FNaN = FNaN"
| "f_fmod F (FInf s) y = FNaN"
| "f_fmod F (FFin s m e) (FInf t) = FFin s m e"
| "f_fmod F (FFin s m e) (FFin t n e') =
     (if n = 0 then FNaN
      else fp_round_exp F s (nat (align False m e e' mod align False n e' e)) 1 (min e e'))"

subsection \<open>The bit pattern of a float\<close>

fun f32_bits :: "fp \<Rightarrow> u32" where
  "f32_bits FNaN = 0x7FC00000"
| "f32_bits (FInf s) = (if s then 0xFF800000 else 0x7F800000)"
| "f32_bits (FFin s m e) =
     word_of_nat ((if s then 2 ^ 31 else 0) +
       (if m < 2 ^ 23 then m else nat (e + 150) * 2 ^ 23 + (m - 2 ^ 23)))"

definition f32_of_bits :: "u32 \<Rightarrow> fp" where
  "f32_of_bits w =
     (let n = unat w; s = (2 ^ 31 \<le> n); ex = (n div 2 ^ 23) mod 256; fr = n mod 2 ^ 23
      in if ex = 255 then (if fr = 0 then FInf s else FNaN)
         else if ex = 0 then FFin s fr (- 149)
         else FFin s (2 ^ 23 + fr) (int ex - 150))"

subsection \<open>Text of a double\<close>

text \<open>\<^verbatim>\<open>%.Nf\<close>: the exact value rounded to \<open>N\<close> decimals, ties to even.\<close>

definition pad_zero :: "nat \<Rightarrow> string \<Rightarrow> string" where
  "pad_zero k s = replicate (k - length s) (CHR ''0'') @ s"

fun fmt_fixed :: "nat \<Rightarrow> fp \<Rightarrow> string" where
  "fmt_fixed k FNaN = ''nan''"
| "fmt_fixed k (FInf s) = (if s then ''-inf'' else ''inf'')"
| "fmt_fixed k (FFin s m e) =
     (let t = rne (scale_den (m * 10 ^ k) e) (scale_num 1 e)
      in (if s then ''-'' else '''') @ nat_str (t div 10 ^ k)
         @ (if k = 0 then '''' else CHR ''.'' # pad_zero k (nat_str (t mod 10 ^ k))))"

subsection \<open>Evaluation at numerals\<close>

lemma blen_eval [fp_simps]:
  "blen 0 = 0" "blen (Suc 0) = 1" "blen 1 = 1"
  "blen (numeral (Num.Bit0 k)) = Suc (blen (numeral k))"
  "blen (numeral (Num.Bit1 k)) = Suc (blen (numeral k))"
  by (subst blen.simps; simp add: blen.simps [of 0])+

lemmas [fp_simps] =
  f32_def f64_def f32_lit_def f64_lit_def f_of_int_def fp_round_def round_exp_def scale_num_def
  scale_den_def rne_def fp_pack_def fp_zero_def fp_round_exp_def align_def sgn_val_def
  lround_i32_def f_to_u32_def f_to_i32_def f_to_u16_def f_to_i16_def to_range_def pad_zero_def
  f_le_def f_sub_def Let_def

subsection \<open>The value of a finite number, and the order\<close>

fun fval :: "fp \<Rightarrow> real" where
  "fval (FFin s m e) = of_int (sgn_val s m) * 2 powi e"
| "fval _ = 0"

lemma align_fval:
  "real_of_int (align s m e e') * 2 powi (min e e') = real_of_int (sgn_val s m) * 2 powi e"
proof -
  have "(2::real) powi e = 2 powi (e - min e e') * 2 powi (min e e')"
    by (simp add: power_int_add [symmetric])
  moreover have "(2::real) powi (e - min e e') = 2 ^ nat (e - min e e')"
    by (simp add: power_int_def)
  ultimately show ?thesis by (simp add: align_def)
qed

lemma align_less_iff:
  "align s m e e' < align t n e' e \<longleftrightarrow> fval (FFin s m e) < fval (FFin t n e')"
proof -
  have "fval (FFin s m e) < fval (FFin t n e') \<longleftrightarrow>
      real_of_int (align s m e e') * 2 powi (min e e')
        < real_of_int (align t n e' e) * 2 powi (min e e')"
    using align_fval [of s m e e'] align_fval [of t n e' e] by (simp add: min.commute)
  then show ?thesis by simp
qed

lemma align_eq_iff:
  "align s m e e' = align t n e' e \<longleftrightarrow> fval (FFin s m e) = fval (FFin t n e')"
  using align_less_iff [of s m e e' t n] align_less_iff [of t n e' e s m] by linarith

lemma f_lt_fin: "is_fin x \<Longrightarrow> is_fin y \<Longrightarrow> f_lt x y \<longleftrightarrow> fval x < fval y"
  by (cases x; cases y) (simp_all add: align_less_iff del: fval.simps)

lemma f_eq_fin: "is_fin x \<Longrightarrow> is_fin y \<Longrightarrow> f_eq x y \<longleftrightarrow> fval x = fval y"
  by (cases x; cases y) (simp_all add: align_eq_iff del: fval.simps)

lemma f_le_fin: "is_fin x \<Longrightarrow> is_fin y \<Longrightarrow> f_le x y \<longleftrightarrow> fval x \<le> fval y"
  by (auto simp: f_le_def f_lt_fin f_eq_fin)

lemma f_lt_irrefl [simp]: "\<not> f_lt x x"
  by (cases x) auto

lemma f_lt_asym: "f_lt x y \<Longrightarrow> \<not> f_lt y x"
  by (cases x; cases y) (auto simp: min.commute)

lemma f_lt_not_nan: "f_lt x y \<Longrightarrow> x \<noteq> FNaN \<and> y \<noteq> FNaN"
  by (cases x; cases y) auto

lemma f_not_lt_le: "x \<noteq> FNaN \<Longrightarrow> y \<noteq> FNaN \<Longrightarrow> \<not> f_lt x y \<Longrightarrow> f_le y x"
  by (cases x; cases y) (auto simp: f_le_def min.commute)

subsection \<open>Rounding a quotient\<close>

lemma rne_exact [simp]: "0 < b \<Longrightarrow> rne (k * b) b = k"
  by (simp add: rne_def)

lemma rne_le: "0 < b \<Longrightarrow> a \<le> k * b \<Longrightarrow> rne a b \<le> k"
proof -
  assume b: "0 < b" and a: "a \<le> k * b"
  show "rne a b \<le> k"
  proof (cases "a div b = k")
    case True
    then have "k * b + a mod b = a" by (metis div_mult_mod_eq)
    with a have "a mod b = 0" by simp
    with True b show ?thesis by (simp add: rne_def)
  next
    case False
    from a b have "a div b \<le> k" by (metis div_le_mono nonzero_mult_div_cancel_right not_gr0)
    with False have "Suc (a div b) \<le> k" by simp
    then show ?thesis by (simp add: rne_def Let_def)
  qed
qed

lemma rne_ge_div: "a div b \<le> rne a b"
  by (simp add: rne_def Let_def)

lemma rne_ge: "0 < b \<Longrightarrow> k * b \<le> a \<Longrightarrow> k \<le> rne a b"
  using rne_ge_div [of a b] by (metis div_le_mono div_mult_self_is_m le_trans)

subsection \<open>The bit pattern determines the value\<close>

text \<open>A canonical value of a format: full precision, or the smallest exponent.\<close>

fun fp_ok :: "fmt \<Rightarrow> fp \<Rightarrow> bool" where
  "fp_ok F (FFin s m e) =
     (case F of (p, emin, emax) \<Rightarrow>
        m < 2 ^ p \<and> emin \<le> e \<and> e \<le> emax \<and> (2 ^ (p - 1) \<le> m \<or> e = emin))"
| "fp_ok F _ = True"

lemma blen_bounds: "0 < n \<Longrightarrow> 2 ^ (blen n - 1) \<le> n \<and> n < 2 ^ blen n"
proof (induction n rule: blen.induct)
  case (1 n)
  show ?case
  proof (cases "n = 1")
    case True
    then show ?thesis by (simp add: blen_eval)
  next
    case False
    with "1.prems" have n2: "0 < n div 2" by arith
    with "1.IH" "1.prems" have ih: "2 ^ (blen (n div 2) - 1) \<le> n div 2 \<and> n div 2 < 2 ^ blen (n div 2)"
      by simp
    have "blen (n div 2) \<noteq> 0" using n2 by (subst blen.simps) simp
    then obtain k where k: "blen (n div 2) = Suc k" by (cases "blen (n div 2)") auto
    have "blen n = Suc (Suc k)" using "1.prems" k by (subst blen.simps) simp
    with ih k show ?thesis by auto
  qed
qed

lemma scale_ratio:
  "0 < d \<Longrightarrow> real (scale_num n e) / real (scale_den d e) = real n / real d * 2 powi (- e)"
  by (auto simp: scale_num_def scale_den_def power_int_def power_one_over)

lemma scale_den_pos [simp]: "0 < d \<Longrightarrow> 0 < scale_den d e"
  by (simp add: scale_den_def)

lemma powi_add2: "(2::real) powi a * 2 powi b = 2 powi (a + b)"
  by (simp add: power_int_add)

lemma real_blen_bounds:
  assumes "0 < n"
  shows "2 powi (int (blen n) - 1) \<le> real n" and "real n < 2 powi (int (blen n))"
proof -
  from assms obtain k where k: "blen n = Suc k" by (auto simp: blen.simps [of n])
  with blen_bounds [OF assms] have "2 ^ k \<le> n" and "n < 2 ^ Suc k" by simp_all
  then have "real (2 ^ k) \<le> real n" and "real n < real (2 ^ Suc k)"
    by (simp_all only: of_nat_le_iff of_nat_less_iff)
  moreover have "int (blen n) - 1 = int k" and "int (blen n) = int (Suc k)" using k by simp_all
  ultimately show "2 powi (int (blen n) - 1) \<le> real n" and "real n < 2 powi (int (blen n))"
    by (simp_all only: power_int_of_nat of_nat_power of_nat_numeral)
qed

lemma ratio_blen_bounds:
  assumes "0 < n" and "0 < d"
  shows "(2::real) powi (int (blen n) - int (blen d) - 1) < real n / real d"
    and "real n / real d < 2 powi (int (blen n) - int (blen d) + 1)"
proof -
  note n = real_blen_bounds [OF assms(1)] and d = real_blen_bounds [OF assms(2)]
  have pos: "0 < real d" "0 < real n" using assms by simp_all
  have "2 powi (int (blen n) - int (blen d) - 1) * real d
      < 2 powi (int (blen n) - int (blen d) - 1) * 2 powi (int (blen d))"
    using d(2) by (simp del: power_int_of_nat)
  also have "\<dots> = 2 powi (int (blen n) - 1)"
    by (simp add: powi_add2 del: power_int_of_nat)
  finally show "(2::real) powi (int (blen n) - int (blen d) - 1) < real n / real d"
    using n(1) pos by (simp add: field_simps)
  have "real n < 2 powi (int (blen n) - int (blen d) + 1) * 2 powi (int (blen d) - 1)"
    using n(2) by (simp add: powi_add2 del: power_int_of_nat)
  also have "\<dots> \<le> 2 powi (int (blen n) - int (blen d) + 1) * real d"
    using d(1) by simp
  finally show "real n / real d < 2 powi (int (blen n) - int (blen d) + 1)"
    using pos by (simp add: field_simps)
qed

text \<open>The exponent chosen for rounding leaves a mantissa of at most \<open>p\<close> bits, and of exactly
  \<open>p\<close> bits unless it is the smallest exponent of the format.\<close>

lemma round_exp_ge: "F = (p, emin, emax) \<Longrightarrow> emin \<le> round_exp F n d"
  by (auto simp: round_exp_def Let_def le_max_iff_disj)

lemma powi_pos [simp]: "0 < (2::real) powi a"
  by simp

lemma scale_div_less_iff:
  assumes "0 < d"
  shows "scale_num n e div scale_den d e < 2 ^ p \<longleftrightarrow> real n / real d < 2 powi (int p + e)"
proof -
  have D: "0 < scale_den d e" using assms by simp
  have "scale_num n e div scale_den d e < 2 ^ p \<longleftrightarrow> scale_num n e < 2 ^ p * scale_den d e"
    using D by (simp add: div_less_iff_less_mult)
  also have "\<dots> \<longleftrightarrow> real (scale_num n e) < real (2 ^ p * scale_den d e)"
    by (simp only: of_nat_less_iff)
  also have "\<dots> \<longleftrightarrow> real (scale_num n e) / real (scale_den d e) < 2 ^ p"
    using D by (simp add: pos_divide_less_eq)
  also have "\<dots> \<longleftrightarrow> real n / real d * 2 powi (- e) < 2 powi (int p)"
    using assms by (simp add: scale_ratio)
  also have "\<dots> \<longleftrightarrow> real n / real d < 2 powi (int p) * 2 powi e"
    by (simp only: power_int_minus divide_inverse [symmetric] pos_divide_less_eq powi_pos)
  finally show ?thesis by (simp add: powi_add2 del: power_int_of_nat)
qed

lemma round_exp_bounds:
  assumes F: "F = (p, emin, emax)" and "0 < n" and d: "0 < d"
  defines "e \<equiv> round_exp F n d"
  shows "real n / real d < 2 powi (int p + e)"
    and "e = emin \<or> 2 powi (int p - 1 + e) \<le> real n / real d"
proof -
  define k where "k = int (blen n) - int (blen d)"
  define e0 where "e0 = max emin (k - int p)"
  note x = ratio_blen_bounds [OF assms(2) d, folded k_def]
  have e: "e = (if real n / real d < 2 powi (int p + e0) then e0 else e0 + 1)"
    by (simp add: e_def F round_exp_def Let_def scale_div_less_iff [OF d] e0_def k_def)
  have up: "real n / real d < 2 powi (int p + (e0 + 1))"
  proof -
    have "(2::real) powi (k + 1) \<le> 2 powi (int p + (e0 + 1))"
      by (rule power_int_increasing) (simp_all add: e0_def)
    with x(2) show ?thesis by linarith
  qed
  then show "real n / real d < 2 powi (int p + e)" by (simp add: e)
  show "e = emin \<or> 2 powi (int p - 1 + e) \<le> real n / real d"
  proof (cases "real n / real d < 2 powi (int p + e0)")
    case True
    then have "e = e0" by (simp add: e)
    moreover have "e0 = emin \<or> e0 = k - int p" by (auto simp: e0_def)
    ultimately show ?thesis using x(1) by (auto simp: algebra_simps)
  next
    case False
    then show ?thesis by (simp add: e algebra_simps)
  qed
qed

text \<open>Every rounded value is canonical.\<close>

lemma fp_round_ok:
  assumes F: "F = (p, emin, emax)" "emin \<le> emax" "0 < p" and d: "0 < d"
  shows "fp_ok F (fp_round F s n d)"
proof (cases "n = 0")
  case True
  then show ?thesis using F by (simp add: fp_round_def fp_zero_def)
next
  case False
  define e where "e = round_exp F n d"
  define q where "q = rne (scale_num n e) (scale_den d e)"
  note b = round_exp_bounds [OF F(1) _ d, of n, folded e_def]
  have D: "0 < scale_den d e" using d by simp
  have q: "q \<le> 2 ^ p"
  proof -
    have "scale_num n e div scale_den d e < 2 ^ p"
      using b(1) False d by (simp add: scale_div_less_iff)
    then have "scale_num n e \<le> 2 ^ p * scale_den d e"
      using D by (simp add: div_less_iff_less_mult)
    with D show ?thesis unfolding q_def by (rule rne_le)
  qed
  have q': "e = emin \<or> 2 ^ (p - 1) \<le> q"
  proof -
    have "2 ^ (p - 1) \<le> scale_num n e div scale_den d e" if "e \<noteq> emin"
    proof -
      have "\<not> real n / real d < 2 powi (int (p - 1) + e)"
        using b(2) False that F(3) by (simp add: of_nat_diff)
      then show ?thesis using scale_div_less_iff [OF d, of n e "p - 1"] by simp
    qed
    then show ?thesis using rne_ge_div order_trans unfolding q_def by blast
  qed
  have e: "emin \<le> e" unfolding e_def by (rule round_exp_ge [OF F(1)])
  have "2 ^ (p - 1) < (2::nat) ^ p" using F(3) by simp
  moreover have "fp_round F s n d = fp_pack F s q e"
    using False by (simp add: fp_round_def Let_def e_def q_def)
  ultimately show ?thesis using q q' e F(1,2) by (auto simp: fp_pack_def)
qed

lemma fp_round_exp_ok:
  "F = (p, emin, emax) \<Longrightarrow> emin \<le> emax \<Longrightarrow> 0 < p \<Longrightarrow> 0 < d \<Longrightarrow> fp_ok F (fp_round_exp F s m d e)"
  by (simp add: fp_round_exp_def fp_round_ok)

lemma f32_round_ok [simp]:
  "0 < d \<Longrightarrow> fp_ok f32 (fp_round f32 s n d)" "0 < d \<Longrightarrow> fp_ok f32 (fp_round_exp f32 s n d e)"
  by (rule fp_round_ok [OF f32_def] fp_round_exp_ok [OF f32_def]; simp)+

lemma f32_lit_ok [simp]: "fp_ok f32 (f32_lit z k)"
  by (simp add: f32_lit_def)

lemma f32_zero_ok [simp]: "fp_ok f32 (fp_zero f32 s)"
  by (simp add: fp_zero_def f32_def)

lemma f32_of_int_ok [simp]: "fp_ok f32 (f_of_int f32 z)"
  by (simp add: f_of_int_def)

lemma f32_cvt_ok [simp]: "fp_ok f32 (f_cvt f32 x)"
  by (cases x) auto

lemma f32_mul_ok [simp]: "fp_ok f32 (f_mul f32 x y)"
  by (cases x; cases y) auto

lemma f32_div_ok [simp]: "fp_ok f32 (f_div f32 x y)"
  by (cases x; cases y) auto

lemma f32_add_ok [simp]: "fp_ok f32 (f_add f32 x y)"
  by (cases x; cases y) (auto simp: Let_def)

lemma f32_sub_ok [simp]: "fp_ok f32 (f_sub f32 x y)"
  by (simp add: f_sub_def)

text \<open>Storing the bits of a float and reading them back gives the float.\<close>

lemma f32_bits_fin:
  assumes "fp_ok f32 (FFin s m e)"
  shows "unat (f32_bits (FFin s m e)) = (if s then 2 ^ 31 else 0) +
       (if m < 2 ^ 23 then m else nat (e + 150) * 2 ^ 23 + (m - 2 ^ 23))"
proof -
  have m: "m < 2 ^ 24" and e: "- 149 \<le> e" "e \<le> 104" using assms by (auto simp: f32_def)
  have "nat (e + 150) \<le> 254" using e by simp
  then have "nat (e + 150) * 2 ^ 23 \<le> 254 * 2 ^ 23" by (rule mult_le_mono1)
  then have "(if s then 2 ^ 31 else 0) +
       (if m < 2 ^ 23 then m else nat (e + 150) * 2 ^ 23 + (m - 2 ^ 23)) < (2::nat) ^ 32"
    using m by auto
  then show ?thesis by (subst f32_bits.simps, subst unat_of_nat, intro mod_less) simp
qed

lemma f32_bits_roundtrip:
  assumes ok: "fp_ok f32 x"
  shows "f32_of_bits (f32_bits x) = x"
proof (cases x)
  case FNaN
  then show ?thesis by (simp add: f32_of_bits_def Let_def)
next
  case (FInf s)
  then show ?thesis by (simp add: f32_of_bits_def Let_def)
next
  case (FFin s m e)
  define B where "B = (if m < 2 ^ 23 then m else nat (e + 150) * 2 ^ 23 + (m - 2 ^ 23))"
  have n: "unat (f32_bits x) = (if s then 2 ^ 31 else 0) + B"
    using ok FFin f32_bits_fin [of s m e] by (simp add: B_def)
  have m: "m < 2 ^ 24" "- 149 \<le> e" "e \<le> 104" "2 ^ 23 \<le> m \<or> e = - 149"
    using ok FFin by (auto simp: f32_def)
  have B: "B div 2 ^ 23 = (if m < 2 ^ 23 then 0 else nat (e + 150))"
      "B mod 2 ^ 23 = (if m < 2 ^ 23 then m else m - 2 ^ 23)"
  proof -
    have "m - 2 ^ 23 < 2 ^ 23" using m(1) by simp
    then have "(k * 2 ^ 23 + (m - 2 ^ 23)) div 2 ^ 23 = k"
      and "(k * 2 ^ 23 + (m - 2 ^ 23)) mod 2 ^ 23 = m - 2 ^ 23" for k
      by (simp_all only: div_mult_self3 mod_mult_self3 div_less mod_less add_0_right)
    then show "B div 2 ^ 23 = (if m < 2 ^ 23 then 0 else nat (e + 150))"
      "B mod 2 ^ 23 = (if m < 2 ^ 23 then m else m - 2 ^ 23)"
      by (simp_all only: B_def split: if_split) simp_all
  qed
  have "B < 2 ^ 31"
  proof -
    have "nat (e + 150) \<le> 254" using m by arith
    then have "B div 2 ^ 23 \<le> 254" using B(1) by simp
    then show ?thesis by (simp add: div_le_mono)
  qed
  then have s: "(2 ^ 31 \<le> unat (f32_bits x)) = s" and lt: "B div 2 ^ 23 < 256"
    unfolding n by auto
  have "(256 * 2 ^ 23 + B) div 2 ^ 23 = 256 + B div 2 ^ 23"
    by (rule div_mult_self3) simp
  then have sgn_div: "((if s then 2 ^ 31 else 0) + B) div 2 ^ 23 = (if s then 256 else 0) + B div 2 ^ 23"
    by simp
  have "(256 * 2 ^ 23 + B) mod 2 ^ 23 = B mod 2 ^ 23"
    by (rule mod_mult_self3)
  then have sgn_mod: "((if s then 2 ^ 31 else 0) + B) mod 2 ^ 23 = B mod 2 ^ 23"
    by simp
  have ex: "unat (f32_bits x) div 2 ^ 23 mod 256 = B div 2 ^ 23"
    and fr: "unat (f32_bits x) mod 2 ^ 23 = B mod 2 ^ 23"
    unfolding n sgn_div sgn_mod using lt by simp_all
  have "f32_of_bits (f32_bits x) =
      (if B div 2 ^ 23 = 255 then (if B mod 2 ^ 23 = 0 then FInf s else FNaN)
       else if B div 2 ^ 23 = 0 then FFin s (B mod 2 ^ 23) (- 149)
       else FFin s (2 ^ 23 + B mod 2 ^ 23) (int (B div 2 ^ 23) - 150))"
    unfolding f32_of_bits_def Let_def s ex fr ..
  also have "\<dots> = FFin s m e"
    unfolding B using m by auto
  finally show ?thesis using FFin by simp
qed

end
