(* ===== verification/Domain_Types.thy ===== *)
theory Domain_Types
  imports Floats
begin

text \<open>
  The data of the firmware's domain layer (\<^verbatim>\<open>components/domain/include/domain\<close>): the
  enumerations, the structs that travel through the queues, the error enumerations, and
  the record of the published atomics (\<^verbatim>\<open>types.hpp\<close>) that the tasks share.
  Constructors keep the C++ enumerator names and are used qualified, as in the source.
\<close>

subsection \<open>types.hpp\<close>

datatype Direction = LiqIn | LiqOut

datatype ValvePosition = Input | Output

datatype TransportMode = UsbActive | BleAdvertising | BleConnected

datatype BuretteState = Idle | Homing | Filling | Emptying | Dosing | Rinsing | Stopping | Error

fun buretteStateStr :: "BuretteState \<Rightarrow> string" where
  "buretteStateStr BuretteState.Idle = ''idle''"
| "buretteStateStr BuretteState.Homing = ''homing''"
| "buretteStateStr BuretteState.Filling = ''filling''"
| "buretteStateStr BuretteState.Emptying = ''emptying''"
| "buretteStateStr BuretteState.Dosing = ''dosing''"
| "buretteStateStr BuretteState.Rinsing = ''rinsing''"
| "buretteStateStr BuretteState.Stopping = ''stopping''"
| "buretteStateStr BuretteState.Error = ''error''"

datatype BuretteCommand = Fill | Dose | Empty | Rinse | Stop | EmergencyStop | Reset

datatype BootProgress =
  Start | Nvs | BlackBox | StackMonitor | Serial | RtcWdt | BleInit | PhyWait | MotorTask
| TempTask | NetOwner | Running

definition DEFAULT_SPEED_HZ :: u32 where "DEFAULT_SPEED_HZ = 1000"
definition DEFAULT_ACCEL_HZ_PER_S :: u32 where "DEFAULT_ACCEL_HZ_PER_S = 500"
definition DEFAULT_VOLUME_ML :: fp where "DEFAULT_VOLUME_ML = f32_lit 500 1"

subsection \<open>errors.hpp\<close>

datatype StepperError = InitFailed | Rmt | LimitSwitchTriggered | LimitSwitchReached | Timeout

datatype SensorError = AdcReadFailed | TempSensorNotDetected | TempReadGlitch

datatype NetworkError = WifiConnectionFailed

datatype ProtocolError = InvalidJson | UnknownCommand | MissingParam

datatype StateError = Busy | InvalidTransition | AlreadyRunning

datatype ResourceError = NvsOpenFailed | OutOfMemory

datatype AppError = Protocol | State | Resource

subsection \<open>motor_command.hpp\<close>

datatype MotorCommandType =
  MoveSteps | MoveContinuous | Stop | EmergencyStop | Home | SetDirection | SetSpeed | SetAccel
| SetStallThreshold | StartRinse | StartCalDose | StartCalSpeed | StartCalSpeedSeq
| ReadTmcRegister

record StartRinseParams =
  sr_cycles :: u8
  sr_speedMlMin :: fp

record StartCalDoseParams =
  scd_speedMlMin :: fp

record StartCalSpeedParams =
  scs_speedMlMin :: fp
  scs_testFreqHz :: u16

text \<open>The C++ array \<^verbatim>\<open>freqs[3]\<close> is a list of three frequencies.\<close>

record StartCalSpeedSeqParams =
  scq_freqs :: "u16 list"
  scq_fillSpeedMlMin :: fp

record ReadTmcRegisterParams =
  rtr_reg :: u8

record MotorCommand =
  mc_type :: MotorCommandType
  mc_steps :: i32
  mc_direction :: Direction
  mc_speedHz :: u32
  mc_accelHzPerS :: u32
  mc_stallThreshold :: u8
  mc_startRinse :: StartRinseParams
  mc_startCalDose :: StartCalDoseParams
  mc_startCalSpeed :: StartCalSpeedParams
  mc_startCalSpeedSeq :: StartCalSpeedSeqParams
  mc_readTmcReg :: ReadTmcRegisterParams

text \<open>\<^verbatim>\<open>MotorCommand cmd{}\<close>: every member zero, every enumeration its first enumerator.\<close>

definition motor_cmd_init :: MotorCommand where
  "motor_cmd_init =
     \<lparr>mc_type = MotorCommandType.MoveSteps, mc_steps = 0, mc_direction = Direction.LiqIn,
      mc_speedHz = 0, mc_accelHzPerS = 0, mc_stallThreshold = 0,
      mc_startRinse = \<lparr>sr_cycles = 0, sr_speedMlMin = fp_zero f32 False\<rparr>,
      mc_startCalDose = \<lparr>scd_speedMlMin = fp_zero f32 False\<rparr>,
      mc_startCalSpeed = \<lparr>scs_speedMlMin = fp_zero f32 False, scs_testFreqHz = 0\<rparr>,
      mc_startCalSpeedSeq = \<lparr>scq_freqs = [0, 0, 0], scq_fillSpeedMlMin = fp_zero f32 False\<rparr>,
      mc_readTmcReg = \<lparr>rtr_reg = 0\<rparr>\<rparr>"

subsection \<open>sm_result.hpp\<close>

datatype SmResultType =
  None' | RinseComplete | CalDoseComplete | CalSpeedComplete | CalSpeedSeqComplete | Error

record SmResult =
  sm_type :: SmResultType
  sm_stepsTaken :: i32
  sm_measuredSpeedMlMin :: fp
  sm_results :: "fp list"
  sm_resultCount :: int

subsection \<open>command_types.hpp\<close>

datatype CommandType =
  Fill | Empty | DoseVolume | Rinse | Stop | EmergencyStop | GetStatus | MoveSteps | SetDirection
| SetSpeed | SetAccel | CalGet | CalCalcVolume | CalCalcSpeed | CalSave | CalReset | CalRun
| CalGetResult | CalRunSpeedSeq | MoveToStop | TempRead | AdcCalGet | AdcCalSave | AdcCalMeasure
| AdcCalCompute | AdcCalReset | StallGuardGet | StallGuardSetThreshold | ValveSetPosition
| ValveGetState | SystemGetStatus | SystemGetFormattedLogs | SystemReadLog
| SystemFirmwareVersion | SerialPing

definition MAX_MEASUREMENTS :: nat where "MAX_MEASUREMENTS = 16"

text \<open>
  The fixed arrays of measurements are kept as the list of the elements filled in; the
  C++ counters are their lengths.
\<close>

record Command =
  c_type :: CommandType
  c_volume :: "fp option"
  c_steps :: "i32 option"
  c_direction :: "Direction option"
  c_speed :: "u32 option"
  c_accel :: "u32 option"
  c_speedMlMin :: "fp option"
  c_targetVolume :: "fp option"
  c_valvePos :: "ValvePosition option"
  c_sgThreshold :: "u8 option"
  c_mode :: "string option"
  c_freqHz :: "fp option"
  c_massG :: "fp option"
  c_temperature :: "fp option"
  c_pressure :: "fp option"
  c_refMv :: "fp option"
  c_id :: u64
  c_measurements :: "(fp \<times> fp) list"
  c_freqsArray :: "fp list"

definition command_init :: "CommandType \<Rightarrow> Command" where
  "command_init t =
     \<lparr>c_type = t, c_volume = None, c_steps = None, c_direction = None, c_speed = None,
      c_accel = None, c_speedMlMin = None, c_targetVolume = None, c_valvePos = None,
      c_sgThreshold = None, c_mode = None, c_freqHz = None, c_massG = None,
      c_temperature = None, c_pressure = None, c_refMv = None, c_id = 0,
      c_measurements = [], c_freqsArray = []\<rparr>"

datatype ResponseKind = Single | Error | AckThen | NoResponse

text \<open>\<^verbatim>\<open>body\<close> holds the characters written to the front of the zeroed 2048-byte array.\<close>

record CommandResponse =
  r_kind :: ResponseKind
  r_id :: u64
  r_body :: string
  r_bodySize :: nat

definition response_init :: "ResponseKind \<Rightarrow> CommandResponse" where
  "response_init k = \<lparr>r_kind = k, r_id = 0, r_body = '''', r_bodySize = 0\<rparr>"

subsection \<open>memory.hpp\<close>

definition MAX_CMD_SIZE :: nat where "MAX_CMD_SIZE = 256"
definition MAX_RSP_SIZE :: nat where "MAX_RSP_SIZE = 2048"
definition LOG_BUF_ENTRIES :: nat where "LOG_BUF_ENTRIES = 1000"
definition DNS_BUF_SIZE :: nat where "DNS_BUF_SIZE = 512"

subsection \<open>The published atomics of types.hpp\<close>

record globals =
  gTempCX100 :: i32
  gLastMv :: u16
  gValvePosition :: ValvePosition
  gBuretteState :: BuretteState
  gDirection :: Direction
  gSpeed :: u32
  gAccel :: u32
  gVolumeMl :: fp
  gSpeedMlMin :: fp
  gStopFull :: bool
  gStopEmpty :: bool
  gDispensedSteps :: u32
  gUsbHandshakeReceived :: bool
  gBleError :: bool
  gStallGuardThreshold :: u8
  gValveIsSettling :: bool
  gLastCmdId :: u64
  gHomingDone :: bool
  gBootProgress :: BootProgress

definition globals_init :: globals where
  "globals_init =
     \<lparr>gTempCX100 = - 99999, gLastMv = 0, gValvePosition = ValvePosition.Input,
      gBuretteState = BuretteState.Idle, gDirection = Direction.LiqIn,
      gSpeed = DEFAULT_SPEED_HZ, gAccel = DEFAULT_ACCEL_HZ_PER_S,
      gVolumeMl = DEFAULT_VOLUME_ML, gSpeedMlMin = fp_zero f32 False,
      gStopFull = False, gStopEmpty = False, gDispensedSteps = 0,
      gUsbHandshakeReceived = False, gBleError = False, gStallGuardThreshold = 0,
      gValveIsSettling = False, gLastCmdId = 0, gHomingDone = False,
      gBootProgress = BootProgress.Start\<rparr>"

text \<open>
  \<^verbatim>\<open>gBuretteState.compare_exchange_strong(expected = Idle, desired)\<close>: the claim every motion
  handler makes on the burette.
\<close>

definition claim_burette :: "BuretteState \<Rightarrow> 'a globals_scheme \<Rightarrow> bool \<times> 'a globals_scheme" where
  "claim_burette d s =
     (if gBuretteState s = BuretteState.Idle then (True, s\<lparr>gBuretteState := d\<rparr>) else (False, s))"

subsection \<open>Steps\<close>

text \<open>
  \<^verbatim>\<open>Steps\<close> wraps an \<^verbatim>\<open>int32_t\<close>; sums are taken modulo \<open>2 ^ 32\<close>, as the target computes
  them (C++ leaves a signed overflow undefined).  Its order is the signed one.
\<close>

definition steps_add :: "i32 \<Rightarrow> i32 \<Rightarrow> i32" where "steps_add a b = a + b"
definition steps_sub :: "i32 \<Rightarrow> i32 \<Rightarrow> i32" where "steps_sub a b = a - b"
definition steps_less :: "i32 \<Rightarrow> i32 \<Rightarrow> bool" where "steps_less a b \<longleftrightarrow> sint a < sint b"

end
