(* ===== verification/Burette.thy ===== *)
theory Burette
  imports Domain_Types
begin

text \<open>
  The burette state machine (\<^verbatim>\<open>domain/burette.cpp\<close>), the application state machine that wraps
  it with a pending-operation watchdog (\<^verbatim>\<open>application/state_machine.cpp\<close>), and the tick
  scheduler of the main loop (\<^verbatim>\<open>application/scheduler.cpp\<close>).
\<close>

subsection \<open>BuretteController\<close>

record BuretteController =
  bc_state :: BuretteState

definition validateTransition :: "'a BuretteController_scheme \<Rightarrow> BuretteCommand \<Rightarrow> StateError + unit" where
  "validateTransition c cmd =
     (if cmd = BuretteCommand.Stop \<or> cmd = BuretteCommand.EmergencyStop then
        (if bc_state c = BuretteState.Idle then Inl StateError.InvalidTransition else Inr ())
      else if cmd = BuretteCommand.Reset then
        (if bc_state c \<noteq> BuretteState.Error then Inl StateError.InvalidTransition else Inr ())
      else if bc_state c \<noteq> BuretteState.Idle then Inl StateError.Busy
      else Inr ())"

fun target_state :: "BuretteCommand \<Rightarrow> BuretteState" where
  "target_state BuretteCommand.Fill = BuretteState.Filling"
| "target_state BuretteCommand.Dose = BuretteState.Dosing"
| "target_state BuretteCommand.Empty = BuretteState.Emptying"
| "target_state BuretteCommand.Rinse = BuretteState.Rinsing"
| "target_state BuretteCommand.Stop = BuretteState.Stopping"
| "target_state BuretteCommand.EmergencyStop = BuretteState.Stopping"
| "target_state BuretteCommand.Reset = BuretteState.Idle"

definition transition ::
  "'a BuretteController_scheme \<Rightarrow> BuretteCommand \<Rightarrow> 'a BuretteController_scheme \<times> (StateError + unit)" where
  "transition c cmd =
     (case validateTransition c cmd of
        Inl e \<Rightarrow> (c, Inl e)
      | Inr _ \<Rightarrow> (c\<lparr>bc_state := target_state cmd\<rparr>, Inr ()))"

fun run_commands :: "BuretteState \<Rightarrow> BuretteCommand list \<Rightarrow> BuretteState" where
  "run_commands s [] = s"
| "run_commands s (c # cs) =
     run_commands (bc_state (fst (transition \<lparr>bc_state = s\<rparr> c))) cs"

text \<open>The transition relation the component promises, one rule per kind of command.\<close>

inductive burette_step :: "BuretteState \<Rightarrow> BuretteCommand \<Rightarrow> BuretteState \<Rightarrow> bool" where
  start_fill: "burette_step BuretteState.Idle BuretteCommand.Fill BuretteState.Filling"
| start_dose: "burette_step BuretteState.Idle BuretteCommand.Dose BuretteState.Dosing"
| start_empty: "burette_step BuretteState.Idle BuretteCommand.Empty BuretteState.Emptying"
| start_rinse: "burette_step BuretteState.Idle BuretteCommand.Rinse BuretteState.Rinsing"
| stop: "s \<noteq> BuretteState.Idle \<Longrightarrow> burette_step s BuretteCommand.Stop BuretteState.Stopping"
| emergency: "s \<noteq> BuretteState.Idle \<Longrightarrow>
    burette_step s BuretteCommand.EmergencyStop BuretteState.Stopping"
| reset: "burette_step BuretteState.Error BuretteCommand.Reset BuretteState.Idle"

code_pred burette_step .

inductive_cases burette_step_Fill: "burette_step s BuretteCommand.Fill t"
inductive_cases burette_step_Dose: "burette_step s BuretteCommand.Dose t"
inductive_cases burette_step_Empty: "burette_step s BuretteCommand.Empty t"
inductive_cases burette_step_Rinse: "burette_step s BuretteCommand.Rinse t"
inductive_cases burette_step_Stop: "burette_step s BuretteCommand.Stop t"
inductive_cases burette_step_EmergencyStop: "burette_step s BuretteCommand.EmergencyStop t"
inductive_cases burette_step_Reset: "burette_step s BuretteCommand.Reset t"

lemmas burette_step_elims =
  burette_step_Fill burette_step_Dose burette_step_Empty burette_step_Rinse burette_step_Stop
  burette_step_EmergencyStop burette_step_Reset

inductive reachable_from :: "BuretteState \<Rightarrow> BuretteState \<Rightarrow> bool" for s0 where
  start: "reachable_from s0 s0"
| step: "reachable_from s0 s \<Longrightarrow> burette_step s c t \<Longrightarrow> reachable_from s0 t"

lemma transition_iff_step:
  "transition c cmd = (c', Inr ()) \<longleftrightarrow>
     burette_step (bc_state c) cmd (bc_state c') \<and> c' = c\<lparr>bc_state := bc_state c'\<rparr>"
  by (cases cmd)
    (auto simp: transition_def validateTransition_def split: if_splits sum.splits
      intro: burette_step.intros elim!: burette_step_elims)

lemma transition_error_keeps: "transition c cmd = (c', Inl e) \<Longrightarrow> c' = c"
  by (auto simp: transition_def split: sum.splits)

lemma transition_total:
  "(\<exists>c'. transition c cmd = (c', Inr ())) \<or> (\<exists>e. transition c cmd = (c, Inl e))"
  by (auto simp: transition_def split: sum.splits)

text \<open>Every outcome of a transition, in terms of the relation.\<close>

lemma transition_cases:
  "(\<exists>t. burette_step (bc_state c) cmd t \<and> transition c cmd = (c\<lparr>bc_state := t\<rparr>, Inr ()))
   \<or> (\<exists>e. transition c cmd = (c, Inl e) \<and> (\<forall>t. \<not> burette_step (bc_state c) cmd t))"
proof (cases "snd (transition c cmd)")
  case (Inl e)
  then obtain c' where t: "transition c cmd = (c', Inl e)" by (metis prod.collapse)
  have "\<not> burette_step (bc_state c) cmd t" for t
    using transition_iff_step [of c cmd "c\<lparr>bc_state := t\<rparr>"] t by simp
  with t transition_error_keeps [OF t] show ?thesis by blast
next
  case (Inr u)
  then obtain c' where t: "transition c cmd = (c', Inr ())" by (metis prod.collapse unit.exhaust)
  then have s: "burette_step (bc_state c) cmd (bc_state c')" and c': "c' = c\<lparr>bc_state := bc_state c'\<rparr>"
    by (simp_all only: transition_iff_step)
  with t show ?thesis by metis
qed

text \<open>C31.  The controller implements the transition relation: it accepts a command exactly when
  the relation has a step for it, moves to the state of that step and changes nothing else; a
  rejected command leaves it as it was.\<close>

theorem transition_refines:
  "(case transition c cmd of
      (c', Inr _) \<Rightarrow> burette_step (bc_state c) cmd (bc_state c') \<and> c' = c\<lparr>bc_state := bc_state c'\<rparr>
    | (c', Inl _) \<Rightarrow> c' = c \<and> (\<forall>t. \<not> burette_step (bc_state c) cmd t))"
  using transition_cases [of c cmd] by auto

lemma run_commands_reachable: "reachable_from s0 s \<Longrightarrow> reachable_from s0 (run_commands s cs)"
proof (induction cs arbitrary: s)
  case Nil
  then show ?case by simp
next
  case (Cons c cs)
  have "reachable_from s0 (bc_state (fst (transition \<lparr>bc_state = s\<rparr> c)))"
    using transition_cases [of "\<lparr>bc_state = s\<rparr>" c] Cons.prems
    by (auto intro: reachable_from.step)
  then show ?case by (simp add: Cons.IH)
qed

lemma reachable_from_Idle:
  "reachable_from BuretteState.Idle s \<Longrightarrow> s \<noteq> BuretteState.Homing \<and> s \<noteq> BuretteState.Error"
  by (induction rule: reachable_from.induct) (auto elim!: burette_step.cases)

lemma reachable_from_Stopping:
  "reachable_from BuretteState.Stopping s \<Longrightarrow> s = BuretteState.Stopping"
  by (induction rule: reachable_from.induct) (auto elim!: burette_step.cases)

text \<open>Starting idle, no sequence of commands brings the controller to \<^verbatim>\<open>Homing\<close> or \<^verbatim>\<open>Error\<close>,
  and once it is stopping no command leaves that state: only the owner's \<^verbatim>\<open>reset\<close> does.\<close>

theorem controller_reachable_states:
  "run_commands BuretteState.Idle cs \<notin> {BuretteState.Homing, BuretteState.Error}
   \<and> run_commands BuretteState.Stopping cs = BuretteState.Stopping"
  using reachable_from_Idle [OF run_commands_reachable [OF reachable_from.start]]
    reachable_from_Stopping [OF run_commands_reachable [OF reachable_from.start]]
  by blast

subsection \<open>ApplicationStateMachine\<close>

datatype TransportState = UsbActive | BleDisconnected | BleConnected | HttpConnected

record PendingOperation =
  po_startTick :: u32
  po_expectedDurationTicks :: u32
  po_active :: bool

text \<open>\<^verbatim>\<open>CONFIG_FREERTOS_HZ\<close> is 1000, so \<^verbatim>\<open>portTICK_PERIOD_MS\<close> is 1.\<close>

definition portTICK_PERIOD_MS :: u32 where "portTICK_PERIOD_MS = 1"
definition kPendingWatchdogMs :: u32 where "kPendingWatchdogMs = 300000"

record ApplicationStateMachine =
  asm_controller :: BuretteController
  asm_transport :: TransportState
  asm_pending :: PendingOperation

definition asm_init :: ApplicationStateMachine where
  "asm_init =
     \<lparr>asm_controller = \<lparr>bc_state = BuretteState.Idle\<rparr>, asm_transport = TransportState.UsbActive,
      asm_pending = \<lparr>po_startTick = 0, po_expectedDurationTicks = 0, po_active = False\<rparr>\<rparr>"

definition isReady :: "ApplicationStateMachine \<Rightarrow> bool" where
  "isReady m \<longleftrightarrow>
     bc_state (asm_controller m) = BuretteState.Idle \<and> \<not> po_active (asm_pending m)"

definition isEmergency :: "ApplicationStateMachine \<Rightarrow> bool" where
  "isEmergency m \<longleftrightarrow> bc_state (asm_controller m) = BuretteState.Stopping"

definition setTransportState ::
  "ApplicationStateMachine \<Rightarrow> TransportState \<Rightarrow> ApplicationStateMachine" where
  "setTransportState m t = m\<lparr>asm_transport := t\<rparr>"

definition asm_apply ::
  "ApplicationStateMachine \<Rightarrow> BuretteCommand \<Rightarrow> ApplicationStateMachine \<times> (StateError + unit)" where
  "asm_apply m cmd =
     (let (c, r) = transition (asm_controller m) cmd in (m\<lparr>asm_controller := c\<rparr>, r))"

definition startOperation ::
  "ApplicationStateMachine \<Rightarrow> u32 \<Rightarrow> u32 \<Rightarrow> ApplicationStateMachine" where
  "startOperation m currentTick durationTicks =
     m\<lparr>asm_pending := \<lparr>po_startTick = currentTick, po_expectedDurationTicks = durationTicks,
                       po_active = True\<rparr>\<rparr>"

definition asm_reset :: "ApplicationStateMachine \<Rightarrow> ApplicationStateMachine" where
  "asm_reset m =
     m\<lparr>asm_pending := (asm_pending m)\<lparr>po_active := False\<rparr>,
       asm_controller := (asm_controller m)\<lparr>bc_state := BuretteState.Idle\<rparr>\<rparr>"

definition asm_tick :: "ApplicationStateMachine \<Rightarrow> u32 \<Rightarrow> ApplicationStateMachine \<times> bool" where
  "asm_tick m currentTick =
     (if \<not> po_active (asm_pending m) then (m, False)
      else
        let elapsed = currentTick - po_startTick (asm_pending m);
            elapsedMs = elapsed * portTICK_PERIOD_MS
        in if elapsedMs \<ge> kPendingWatchdogMs then (asm_reset m, True)
           else if elapsed \<ge> po_expectedDurationTicks (asm_pending m) then (asm_reset m, True)
           else (m, False))"

text \<open>The main loop polls the machine with the tick counter advancing; \<open>ks\<close> are the values the
  counter has at the polls.\<close>

fun asm_polls :: "ApplicationStateMachine \<Rightarrow> u32 list \<Rightarrow> ApplicationStateMachine \<times> bool list" where
  "asm_polls m [] = (m, [])"
| "asm_polls m (t # ts) =
     (let (m1, r) = asm_tick m t; (m2, rs) = asm_polls m1 ts in (m2, r # rs))"

definition deadline :: "u32 \<Rightarrow> nat" where
  "deadline d = min (unat d) 300000"

lemma unat_watchdog: "unat (300000 :: u32) = 300000"
  by simp

lemma asm_tick_pending:
  assumes "po_active (asm_pending m)" and "k < 2 ^ 32"
  shows "asm_tick m (po_startTick (asm_pending m) + word_of_nat k) =
    (if deadline (po_expectedDurationTicks (asm_pending m)) \<le> k then (asm_reset m, True)
     else (m, False))"
proof -
  have "unat (word_of_nat k :: u32) = k" using assms(2) by (simp add: unat_of_nat take_bit_nat_eq_self)
  with assms(1) show ?thesis
    by (auto simp: asm_tick_def portTICK_PERIOD_MS_def kPendingWatchdogMs_def deadline_def
        word_le_nat_alt)
qed

lemma asm_tick_idle: "\<not> po_active (asm_pending m) \<Longrightarrow> asm_tick m t = (m, False)"
  by (simp add: asm_tick_def)

lemma asm_reset_ready: "isReady (asm_reset m)"
  by (simp add: asm_reset_def isReady_def)

lemma asm_polls_inactive:
  "\<not> po_active (asm_pending m) \<Longrightarrow> asm_polls m ts = (m, replicate (length ts) False)"
  by (induction ts) (simp_all add: asm_tick_idle)

lemma asm_polls_pending:
  assumes "po_active (asm_pending m)" and "\<forall>k \<in> set ks. k < 2 ^ 32"
  defines "d \<equiv> deadline (po_expectedDurationTicks (asm_pending m))"
  shows "asm_polls m (map (\<lambda>k. po_startTick (asm_pending m) + word_of_nat k) ks) =
    (if \<exists>k \<in> set ks. d \<le> k then asm_reset m else m,
     map (\<lambda>i. d \<le> ks ! i \<and> (\<forall>k \<in> set (take i ks). k < d)) [0 ..< length ks])"
  using assms(2)
proof (induction ks)
  case Nil
  then show ?case by simp
next
  case (Cons k ks)
  show ?case
  proof (cases "d \<le> k")
    case True
    have "\<not> po_active (asm_pending (asm_reset m))" by (simp add: asm_reset_def)
    moreover have "map (\<lambda>i. d \<le> (k # ks) ! i \<and> (\<forall>k \<in> set (take i (k # ks)). k < d)) [0 ..< length (k # ks)]
        = True # replicate (length ks) False"
      using True by (auto simp: map_upt_Suc_Cons simp del: upt_Suc intro!: nth_equalityI)
    ultimately show ?thesis using True Cons.prems assms(1)
      by (auto simp: asm_tick_pending asm_polls_inactive d_def simp del: upt_Suc)
  next
    case False
    with Cons assms(1) show ?thesis
      by (auto simp: asm_tick_pending d_def map_upt_Suc_Cons simp del: upt_Suc)
  qed
qed

text \<open>C32.  A pending operation ends exactly once: when the machine is polled at increasing or repeated
  tick counts \<open>s + k\<close> (the counter may wrap), it reports completion at the first poll at which
  \<open>k\<close> reaches the expected duration or the watchdog's 300000 ticks, whichever is smaller; from
  then on it is ready and reports nothing more.\<close>

theorem pending_operation_completes_once:
  assumes "\<forall>k \<in> set ks. k < 2 ^ 32"
  shows "asm_polls (startOperation m s d) (map (\<lambda>k. s + word_of_nat k) ks) =
    (if \<exists>k \<in> set ks. min (unat d) 300000 \<le> k then asm_reset (startOperation m s d)
     else startOperation m s d,
     map (\<lambda>i. min (unat d) 300000 \<le> ks ! i \<and> (\<forall>k \<in> set (take i ks). k < min (unat d) 300000))
       [0 ..< length ks])"
  using asm_polls_pending [of "startOperation m s d" ks] assms
  by (simp add: startOperation_def deadline_def)

theorem pending_operation_completes_once_witness:
  "snd (asm_polls (startOperation asm_init (- 5) 20) (map (\<lambda>k. - 5 + word_of_nat k) [3, 19, 20, 21]))
     = [False, False, True, False]"
proof -
  have "\<forall>k \<in> set [3, 19, 20, 21]. k < (2 ^ 32 :: nat)" by simp
  from pending_operation_completes_once [OF this, of asm_init "- 5" 20] show ?thesis
    by (simp add: upt_conv_Cons)
qed

subsection \<open>TickScheduler\<close>

text \<open>\<^verbatim>\<open>gTick\<close> is the global tick counter, \<^verbatim>\<open>lastBroadcastTick_\<close> the scheduler's member.\<close>

record TickScheduler =
  gTick :: u32
  lastBroadcastTick :: u32

definition BROADCAST_INTERVAL :: u32 where "BROADCAST_INTERVAL = 30"

definition scheduler_init :: TickScheduler where
  "scheduler_init = \<lparr>gTick = 0, lastBroadcastTick = 0\<rparr>"

definition scheduler_tick :: "TickScheduler \<Rightarrow> TickScheduler" where
  "scheduler_tick s = s\<lparr>gTick := gTick s + 1\<rparr>"

definition shouldBroadcast :: "TickScheduler \<Rightarrow> TickScheduler \<times> bool" where
  "shouldBroadcast s =
     (let now = gTick s
      in if now - lastBroadcastTick s \<ge> BROADCAST_INTERVAL
         then (s\<lparr>lastBroadcastTick := now\<rparr>, True)
         else (s, False))"

text \<open>\<open>n\<close> iterations of the main loop, each one \<^verbatim>\<open>tick\<close> and one \<^verbatim>\<open>shouldBroadcast\<close>.\<close>

fun scheduler_loop :: "nat \<Rightarrow> TickScheduler \<Rightarrow> TickScheduler \<times> bool list" where
  "scheduler_loop 0 s = (s, [])"
| "scheduler_loop (Suc n) s =
     (let (s1, rs) = scheduler_loop n s; (s2, r) = shouldBroadcast (scheduler_tick s1)
      in (s2, rs @ [r]))"

lemma scheduler_loop_state:
  "fst (scheduler_loop n \<lparr>gTick = t, lastBroadcastTick = t\<rparr>) =
     \<lparr>gTick = t + word_of_nat n, lastBroadcastTick = t + word_of_nat (n - n mod 30)\<rparr>
   \<and> snd (scheduler_loop n \<lparr>gTick = t, lastBroadcastTick = t\<rparr>) =
     map (\<lambda>i. 30 dvd Suc i) [0 ..< n]"
proof (induction n)
  case 0
  then show ?case by simp
next
  case (Suc n)
  define x where "x = t + word_of_nat (Suc n)"
  define y :: u32 where "y = t + word_of_nat (n - n mod 30)"
  have diff: "x - y = (word_of_nat (Suc (n mod 30)) :: u32)"
    unfolding x_def y_def by (simp add: of_nat_diff)
  have small: "unat (word_of_nat (Suc (n mod 30)) :: u32) = Suc (n mod 30)"
  proof -
    have "Suc (n mod 30) \<le> 30" by (simp add: Suc_le_eq)
    also have "(30::nat) < 2 ^ 32" by simp
    finally have "Suc (n mod 30) < 2 ^ 32" .
    then show ?thesis by (intro unat_word_of_nat) simp
  qed
  have le: "BROADCAST_INTERVAL \<le> x - y \<longleftrightarrow> 30 dvd Suc n"
    unfolding diff word_le_nat_alt small by (simp add: BROADCAST_INTERVAL_def) presburger
  have keep: "t + word_of_nat (Suc n - Suc n mod 30) = (if 30 dvd Suc n then x else y)"
  proof (cases "30 dvd Suc n")
    case True
    then show ?thesis by (simp add: x_def)
  next
    case False
    then have "Suc n mod 30 = Suc (n mod 30)" by (simp add: dvd_eq_mod_eq_0 mod_Suc split: if_splits)
    then have "Suc n - Suc n mod 30 = n - n mod 30" by (simp only: diff_Suc_Suc)
    with False show ?thesis by (simp only: y_def if_False)
  qed
  have loop: "scheduler_loop n \<lparr>gTick = t, lastBroadcastTick = t\<rparr> =
      (\<lparr>gTick = t + word_of_nat n, lastBroadcastTick = y\<rparr>, map (\<lambda>i. 30 dvd Suc i) [0 ..< n])"
    using Suc unfolding y_def by (metis prod.collapse)
  have tick: "t + word_of_nat n + 1 = x"
    by (simp add: x_def)
  have "scheduler_loop (Suc n) \<lparr>gTick = t, lastBroadcastTick = t\<rparr> =
      (let (s2, r) = shouldBroadcast \<lparr>gTick = x, lastBroadcastTick = y\<rparr>
       in (s2, map (\<lambda>i. 30 dvd Suc i) [0 ..< n] @ [r]))"
    by (simp add: loop scheduler_tick_def tick)
  then show ?case
    unfolding keep using le by (simp add: shouldBroadcast_def Let_def x_def [symmetric] del: of_nat_Suc)
qed

text \<open>The scheduler asks for a broadcast exactly at every thirtieth tick, whatever the
  counter's start value and also across its wrap.\<close>

theorem broadcast_every_30_ticks:
  "snd (scheduler_loop n \<lparr>gTick = t, lastBroadcastTick = t\<rparr>) = map (\<lambda>i. 30 dvd Suc i) [0 ..< n]"
  by (simp add: scheduler_loop_state)

end
