(* ===== verification/Float_Bounds.thy ===== *)
theory Float_Bounds
  imports Floats
begin

text \<open>
  Rounding respects representable bounds: when the exact result of an operation lies between
  two values of the format, so does the rounded one.  The component theories bound sums,
  quotients and conversions by constants of the format with these rules, and so show that a
  conversion to an integer has a defined result.
\<close>

lemma round_mantissa_le:
  assumes F: "F = (p, emin, emax)" and n: "0 < n" and d: "0 < d"
  defines "e \<equiv> round_exp F n d"
  shows "rne (scale_num n e) (scale_den d e) \<le> 2 ^ p"
proof -
  have D: "0 < scale_den d e" using d by simp
  have "scale_num n e div scale_den d e < 2 ^ p"
    using round_exp_bounds(1) [OF F n d] d by (simp add: e_def scale_div_less_iff)
  then have "scale_num n e \<le> 2 ^ p * scale_den d e"
    using D by (simp add: div_less_iff_less_mult)
  with D show ?thesis by (rule rne_le)
qed

lemma round_mantissa_ge:
  assumes F: "F = (p, emin, emax)" "0 < p" and n: "0 < n" and d: "0 < d"
  defines "e \<equiv> round_exp F n d"
  assumes e: "e \<noteq> emin"
  shows "2 ^ (p - 1) \<le> rne (scale_num n e) (scale_den d e)"
proof -
  have "\<not> real n / real d < 2 powi (int (p - 1) + e)"
    using round_exp_bounds(2) [OF F(1) n d] e F(2) by (simp add: e_def of_nat_diff)
  then have "2 ^ (p - 1) \<le> scale_num n e div scale_den d e"
    using scale_div_less_iff [OF d, of n e "p - 1"] by simp
  then show ?thesis using rne_ge_div order_trans by blast
qed

lemma scale_le_iff:
  assumes d: "0 < d"
  shows "scale_num n e \<le> k * scale_den d e \<longleftrightarrow> real n / real d \<le> real k * 2 powi e"
proof -
  have D: "0 < scale_den d e" using d by simp
  have "scale_num n e \<le> k * scale_den d e \<longleftrightarrow> real (scale_num n e) \<le> real (k * scale_den d e)"
    by (simp only: of_nat_le_iff)
  also have "\<dots> \<longleftrightarrow> real (scale_num n e) / real (scale_den d e) \<le> real k"
    using D by (simp add: pos_divide_le_eq)
  also have "\<dots> \<longleftrightarrow> real n / real d * 2 powi (- e) \<le> real k"
    using d by (simp add: scale_ratio)
  also have "\<dots> \<longleftrightarrow> real n / real d \<le> real k * 2 powi e"
    by (simp only: power_int_minus divide_inverse [symmetric] pos_divide_le_eq powi_pos)
  finally show ?thesis .
qed

lemma scale_ge_iff:
  assumes d: "0 < d"
  shows "k * scale_den d e \<le> scale_num n e \<longleftrightarrow> real k * 2 powi e \<le> real n / real d"
proof -
  have D: "0 < scale_den d e" using d by simp
  have "k * scale_den d e \<le> scale_num n e \<longleftrightarrow> real (k * scale_den d e) \<le> real (scale_num n e)"
    by (simp only: of_nat_le_iff)
  also have "\<dots> \<longleftrightarrow> real k \<le> real (scale_num n e) / real (scale_den d e)"
    using D by (simp add: pos_le_divide_eq)
  also have "\<dots> \<longleftrightarrow> real k \<le> real n / real d * 2 powi (- e)"
    using d by (simp add: scale_ratio)
  also have "\<dots> \<longleftrightarrow> real k * 2 powi e \<le> real n / real d"
    by (simp only: power_int_minus divide_inverse [symmetric] pos_le_divide_eq powi_pos)
  finally show ?thesis .
qed

text \<open>A value at exponent \<open>ec\<close>, at a smaller exponent.\<close>

lemma rescale: "e \<le> ec \<Longrightarrow> real (m * 2 ^ nat (ec - e)) * 2 powi e = real m * 2 powi ec"
proof -
  assume "e \<le> ec"
  then have "(2::real) powi (ec - e) = 2 ^ nat (ec - e)" by (simp add: power_int_def)
  then have "real (m * 2 ^ nat (ec - e)) * 2 powi e = real m * (2 powi (ec - e) * 2 powi e)" by simp
  also have "(2::real) powi (ec - e) * 2 powi e = 2 powi ec" by (simp add: powi_add2)
  finally show ?thesis .
qed

lemma mant_less_powi:
  "m < 2 ^ p \<Longrightarrow> real m * 2 powi ec < 2 powi (int p + ec)"
proof -
  assume "m < 2 ^ p"
  then have "real m < real (2 ^ p)" by (simp only: of_nat_less_iff)
  then have "real m * 2 powi ec < 2 powi (int p) * 2 powi ec"
    by (intro mult_strict_right_mono) simp_all
  then show ?thesis by (simp only: powi_add2)
qed

text \<open>The packed value of a mantissa of at most \<open>p\<close> bits is that mantissa, unless it overflows.\<close>

lemma fp_pack_value:
  assumes F: "F = (p, emin, emax)" "0 < p" and q: "q \<le> 2 ^ p"
  shows "fp_pack F s q e = FInf s \<or>
    (\<exists>q' e'. fp_pack F s q e = FFin s q' e' \<and> real q' * 2 powi e' = real q * 2 powi e)"
proof (cases "q < 2 ^ p")
  case True
  then show ?thesis by (auto simp: fp_pack_def F(1))
next
  case False
  with q have "q = 2 ^ p" by simp
  moreover have "(2::real) ^ (p - 1) * 2 powi (e + 1) = 2 ^ p * 2 powi e"
    using F(2) by (cases p) (simp_all add: power_int_add)
  ultimately show ?thesis by (auto simp: fp_pack_def F(1))
qed

lemma fp_round_upper:
  assumes F: "F = (p, emin, emax)" "0 < p" and d: "0 < d"
    and c: "fp_ok F (FFin False m ec)" and le: "real n / real d \<le> real m * 2 powi ec"
  shows "\<exists>q e. fp_round F s n d = FFin s q e \<and> real q * 2 powi e \<le> real m * 2 powi ec"
proof (cases "n = 0")
  case True
  then show ?thesis by (auto simp: fp_round_def fp_zero_def)
next
  case False
  define e where "e = round_exp F n d"
  define q where "q = rne (scale_num n e) (scale_den d e)"
  have n: "0 < n" using False by simp
  have D: "0 < scale_den d e" using d by simp
  have mc: "m < 2 ^ p" "emin \<le> ec" "ec \<le> emax" using c F by auto
  have "e \<le> ec"
  proof (rule ccontr)
    assume "\<not> e \<le> ec"
    then have "e \<noteq> emin" and step: "int p + ec \<le> int p - 1 + e" using mc by auto
    then have "2 powi (int p - 1 + e) \<le> real n / real d"
      using round_exp_bounds(2) [OF F(1) n d] by (simp add: e_def)
    moreover have "(2::real) powi (int p + ec) \<le> 2 powi (int p - 1 + e)"
      by (rule power_int_increasing [OF step]) simp
    ultimately show False using le mant_less_powi [OF mc(1), of ec] by linarith
  qed
  define k where "k = m * 2 ^ nat (ec - e)"
  have k: "real k * 2 powi e = real m * 2 powi ec"
    unfolding k_def by (rule rescale [OF \<open>e \<le> ec\<close>])
  have "scale_num n e \<le> k * scale_den d e" using le k by (simp add: scale_le_iff [OF d])
  then have qk: "q \<le> k" unfolding q_def by (rule rne_le [OF D])
  then have qv: "real q * 2 powi e \<le> real m * 2 powi ec"
    unfolding k [symmetric] by (intro mult_right_mono) simp_all
  have q2: "q \<le> 2 ^ p" unfolding q_def e_def by (rule round_mantissa_le [OF F(1) n d])
  have r: "fp_round F s n d = fp_pack F s q e" using False by (simp add: fp_round_def e_def q_def Let_def)
  have "fp_pack F s q e \<noteq> FInf s"
  proof (cases "q < 2 ^ p")
    case True
    then show ?thesis using \<open>e \<le> ec\<close> mc by (simp add: fp_pack_def F(1))
  next
    case False
    then have "e \<noteq> ec" using qk mc(1) by (auto simp: k_def)
    then show ?thesis using False \<open>e \<le> ec\<close> mc by (simp add: fp_pack_def F(1))
  qed
  with fp_pack_value [OF F q2, of s e] qv show ?thesis unfolding r by auto
qed

lemma fp_round_lower:
  assumes F: "F = (p, emin, emax)" "0 < p" and d: "0 < d"
    and c: "fp_ok F (FFin False m ec)" and ge: "real m * 2 powi ec \<le> real n / real d"
    and r: "fp_round F s n d = FFin s q e"
  shows "real m * 2 powi ec \<le> real q * 2 powi e"
proof (cases "n = 0")
  case True
  then have "real m * 2 powi ec \<le> 0" using ge by simp
  also have "0 \<le> real q * 2 powi e" by simp
  finally show ?thesis .
next
  case False
  then have n: "0 < n" by simp
  define e0 where "e0 = round_exp F n d"
  define q0 where "q0 = rne (scale_num n e0) (scale_den d e0)"
  have D: "0 < scale_den d e0" using d by simp
  have mc: "m < 2 ^ p" "emin \<le> ec" using c F by auto
  have q2: "q0 \<le> 2 ^ p" unfolding q0_def e0_def by (rule round_mantissa_le [OF F(1) n d])
  have "fp_pack F s q0 e0 = FFin s q e" using r False by (simp add: fp_round_def e0_def q0_def Let_def)
  then have v: "real q * 2 powi e = real q0 * 2 powi e0" using fp_pack_value [OF F q2, of s e0] by auto
  show ?thesis
  proof (cases "e0 \<le> ec")
    case True
    have "real (m * 2 ^ nat (ec - e0)) * 2 powi e0 \<le> real n / real d"
      using ge unfolding rescale [OF True] .
    then have "m * 2 ^ nat (ec - e0) \<le> q0"
      unfolding q0_def using scale_ge_iff [OF d] by (intro rne_ge [OF D]) blast
    then have "real (m * 2 ^ nat (ec - e0)) * 2 powi e0 \<le> real q0 * 2 powi e0"
      by (intro mult_right_mono) (simp_all only: of_nat_le_iff, simp)
    then show ?thesis unfolding v rescale [OF True] .
  next
    case False
    then have ne: "e0 \<noteq> emin" and step: "int p + ec \<le> int (p - 1) + e0" using mc F(2) by auto
    have "2 ^ (p - 1) \<le> q0"
      unfolding q0_def e0_def by (rule round_mantissa_ge [OF F n d ne [unfolded e0_def]])
    then have "real (2 ^ (p - 1)) \<le> real q0" by (simp only: of_nat_le_iff)
    then have "2 powi (int (p - 1)) * 2 powi e0 \<le> real q0 * 2 powi e0"
      by (intro mult_right_mono) simp_all
    then have "2 powi (int (p - 1) + e0) \<le> real q0 * 2 powi e0" by (simp only: powi_add2)
    moreover have "(2::real) powi (int p + ec) \<le> 2 powi (int (p - 1) + e0)"
      by (rule power_int_increasing [OF step]) simp
    ultimately show ?thesis using mant_less_powi [OF mc(1), of ec] unfolding v by linarith
  qed
qed

subsection \<open>Signed bounds\<close>

definition canon :: "fmt \<Rightarrow> fp \<Rightarrow> bool" where
  "canon F x \<longleftrightarrow> fp_ok F x \<and> is_fin x"

definition between :: "fp \<Rightarrow> fp \<Rightarrow> fp \<Rightarrow> bool" where
  "between a b x \<longleftrightarrow> is_fin x \<and> fval a \<le> fval x \<and> fval x \<le> fval b"

lemma canon_magnitude:
  assumes "canon F x"
  obtains m e where "fp_ok F (FFin False m e)" and "\<bar>fval x\<bar> = real m * 2 powi e"
proof -
  from assms obtain s m e where x: "x = FFin s m e" by (cases x) (auto simp: canon_def)
  have "fp_ok F (FFin False m e)" using assms by (simp add: canon_def x)
  moreover have "\<bar>fval x\<bar> = real m * 2 powi e" by (simp add: x sgn_val_def abs_mult)
  ultimately show ?thesis by (rule that)
qed

lemma fp_round_between:
  assumes F: "F = (p, emin, emax)" "0 < p" and d: "0 < d"
    and a: "canon F a" and b: "canon F b"
    and v: "v = (if s then - 1 else 1) * (real n / real d)" "fval a \<le> v" "v \<le> fval b"
  shows "between a b (fp_round F s n d)"
proof -
  define lo where "lo = (if s then b else a)"
  define hi where "hi = (if s then a else b)"
  have x: "0 \<le> real n / real d" by simp
  have hi: "canon F hi" and lo: "canon F lo" using a b by (auto simp: hi_def lo_def)
  obtain m e where me: "fp_ok F (FFin False m e)" "\<bar>fval hi\<bar> = real m * 2 powi e"
    by (rule canon_magnitude [OF hi])
  have "real n / real d \<le> \<bar>fval hi\<bar>" using v by (auto simp: hi_def)
  then obtain q e1 where r: "fp_round F s n d = FFin s q e1" and q: "real q * 2 powi e1 \<le> \<bar>fval hi\<bar>"
    using fp_round_upper [OF F d me(1)] unfolding me(2) by blast
  obtain m' e' where me': "fp_ok F (FFin False m' e')" "\<bar>fval lo\<bar> = real m' * 2 powi e'"
    by (rule canon_magnitude [OF lo])
  have low: "\<bar>fval lo\<bar> \<le> real q * 2 powi e1" if "\<bar>fval lo\<bar> \<le> real n / real d"
    using fp_round_lower [OF F d me'(1) _ r] that unfolding me'(2) by blast
  define R where "R = real q * 2 powi e1"
  have rv: "fval (fp_round F s n d) = (if s then - R else R)" and fin: "is_fin (fp_round F s n d)"
    by (simp_all add: r sgn_val_def R_def)
  have q0: "0 \<le> R" by (simp add: R_def)
  note q = q [folded R_def] and low = low [folded R_def]
  show ?thesis
  proof (cases s)
    case True
    then have "v \<le> 0" using v(1) x by simp
    then have "fval hi \<le> 0" using True v(2) by (simp add: hi_def)
    moreover have "0 \<le> fval lo \<or> - fval lo \<le> real n / real d" using v True by (simp add: lo_def)
    ultimately have "- R \<le> fval lo" using low q0 by (cases "0 \<le> fval lo") (simp_all add: abs_real_def)
    with \<open>fval hi \<le> 0\<close> True q rv fin show ?thesis by (simp add: between_def hi_def lo_def)
next
    case False
    then have "0 \<le> v" using v(1) x by simp
    then have "0 \<le> fval hi" using False v(3) by (simp add: hi_def)
    moreover have "fval lo \<le> 0 \<or> fval lo \<le> real n / real d" using v False by (simp add: lo_def)
    ultimately have "fval lo \<le> R" using low q0 by (cases "fval lo \<le> 0") (simp_all add: abs_real_def)
    with \<open>0 \<le> fval hi\<close> False q rv fin show ?thesis by (simp add: between_def hi_def lo_def)
  qed
qed

lemma powi_neg: "e < 0 \<Longrightarrow> (2::real) powi e = 1 / 2 ^ nat (- e)"
  by (simp add: power_int_def power_one_over)

lemma fp_round_exp_between:
  assumes F: "F = (p, emin, emax)" "0 < p" and d: "0 < d"
    and a: "canon F a" and b: "canon F b"
    and v: "v = (if s then - 1 else 1) * (real m / real d * 2 powi e)" "fval a \<le> v" "v \<le> fval b"
  shows "between a b (fp_round_exp F s m d e)"
proof (cases "e < 0")
  case True
  then have "real m / real (d * 2 ^ nat (- e)) = real m / real d * 2 powi e"
    by (simp add: powi_neg)
  then have "v = (if s then - 1 else 1) * (real m / real (d * 2 ^ nat (- e)))" by (simp only: v(1))
  from fp_round_between [OF F _ a b this v(2,3)] d True show ?thesis by (simp add: fp_round_exp_def)
next
  case False
  then have "real (m * 2 ^ nat e) / real d = real m / real d * 2 powi e"
    by (simp add: power_int_def)
  then have "v = (if s then - 1 else 1) * (real (m * 2 ^ nat e) / real d)" by (simp only: v(1))
  from fp_round_between [OF F d a b this v(2,3)] False show ?thesis by (simp add: fp_round_exp_def)
qed

text \<open>The operations.\<close>

definition fmt_ok :: "fmt \<Rightarrow> bool" where
  "fmt_ok F = (case F of (p, emin, emax) \<Rightarrow> 0 < p \<and> emin \<le> 0 \<and> 0 \<le> emax)"

lemma fmt_ok_f32 [simp]: "fmt_ok f32" and fmt_ok_f64 [simp]: "fmt_ok f64"
  by (simp_all add: fmt_ok_def f32_def f64_def)

lemma fp_zero_between: "fval a \<le> 0 \<Longrightarrow> 0 \<le> fval b \<Longrightarrow> between a b (fp_zero F s)"
  by (simp add: between_def fp_zero_def sgn_val_def)

lemma f_add_between:
  assumes F: "fmt_ok F" and x: "is_fin x" "is_fin y" and ab: "canon F a" "canon F b"
    and v: "fval a \<le> fval x + fval y" "fval x + fval y \<le> fval b"
  shows "between a b (f_add F x y)"
proof -
  obtain p emin emax where P: "F = (p, emin, emax)" "0 < p" using F by (cases F) (auto simp: fmt_ok_def)
  from x obtain s m e t n e' where xy: "x = FFin s m e" "y = FFin t n e'" by (cases x; cases y) auto
  define z where "z = align s m e e' + align t n e' e"
  have z: "real_of_int z * 2 powi (min e e') = fval x + fval y"
    using align_fval [of s m e e'] align_fval [of t n e' e]
    by (simp add: xy z_def distrib_right min.commute)
  show ?thesis
  proof (cases "z = 0")
    case True
    with z v show ?thesis by (simp add: xy z_def [symmetric] fp_zero_between)
  next
    case False
    have "(if z < 0 then - 1 else 1) * (real (nat \<bar>z\<bar>) / real 1 * 2 powi (min e e')) = fval x + fval y"
      unfolding z [symmetric] by simp
    from fp_round_exp_between [OF P _ ab this [symmetric] v] False show ?thesis
      by (simp add: xy z_def [symmetric])
  qed
qed

lemma fval_neg: "is_fin x \<Longrightarrow> fval (f_neg x) = - fval x"
  by (cases x) (auto simp: sgn_val_def)

lemma is_fin_neg [simp]: "is_fin (f_neg x) = is_fin x"
  by (cases x) auto

lemma f_sub_between:
  assumes "fmt_ok F" "is_fin x" "is_fin y" "canon F a" "canon F b"
    "fval a \<le> fval x - fval y" "fval x - fval y \<le> fval b"
  shows "between a b (f_sub F x y)"
  unfolding f_sub_def using assms by (intro f_add_between) (simp_all add: fval_neg)

lemma f_mul_between:
  assumes F: "fmt_ok F" and x: "is_fin x" "is_fin y" and ab: "canon F a" "canon F b"
    and v: "fval a \<le> fval x * fval y" "fval x * fval y \<le> fval b"
  shows "between a b (f_mul F x y)"
proof -
  obtain p emin emax where P: "F = (p, emin, emax)" "0 < p" using F by (cases F) (auto simp: fmt_ok_def)
  from x obtain s m e t n e' where xy: "x = FFin s m e" "y = FFin t n e'" by (cases x; cases y) auto
  have "(if s \<noteq> t then - 1 else 1) * (real (m * n) / real 1 * 2 powi (e + e')) = fval x * fval y"
    by (simp add: xy sgn_val_def power_int_add)
  from fp_round_exp_between [OF P _ ab this [symmetric] v] show ?thesis by (simp add: xy)
qed

lemma f_div_between:
  assumes F: "fmt_ok F" and x: "is_fin x" "is_fin y" "fval y \<noteq> 0" and ab: "canon F a" "canon F b"
    and v: "fval a \<le> fval x / fval y" "fval x / fval y \<le> fval b"
  shows "between a b (f_div F x y)"
proof -
  obtain p emin emax where P: "F = (p, emin, emax)" "0 < p" using F by (cases F) (auto simp: fmt_ok_def)
  from x obtain s m e t n e' where xy: "x = FFin s m e" "y = FFin t n e'" by (cases x; cases y) auto
  have n: "0 < n" using x(3) by (cases n) (auto simp: xy sgn_val_def split: if_splits)
  have "(if s \<noteq> t then - 1 else 1) * (real m / real n * 2 powi (e - e')) = fval x / fval y"
    using n by (simp add: xy sgn_val_def power_int_diff)
  from fp_round_exp_between [OF P n ab this [symmetric] v] n show ?thesis by (simp add: xy)
qed

lemma f_cvt_between:
  assumes F: "fmt_ok F" and x: "is_fin x" and ab: "canon F a" "canon F b"
    and v: "fval a \<le> fval x" "fval x \<le> fval b"
  shows "between a b (f_cvt F x)"
proof -
  obtain p emin emax where P: "F = (p, emin, emax)" "0 < p" using F by (cases F) (auto simp: fmt_ok_def)
  from x obtain s m e where xy: "x = FFin s m e" by (cases x) auto
  have "(if s then - 1 else 1) * (real m / real 1 * 2 powi e) = fval x" by (simp add: xy sgn_val_def)
  from fp_round_exp_between [OF P _ ab this [symmetric] v] show ?thesis by (simp add: xy)
qed

lemma f_of_int_between:
  assumes F: "fmt_ok F" and ab: "canon F a" "canon F b"
    and v: "fval a \<le> real_of_int z" "real_of_int z \<le> fval b"
  shows "between a b (f_of_int F z)"
proof -
  obtain p emin emax where P: "F = (p, emin, emax)" "0 < p" using F by (cases F) (auto simp: fmt_ok_def)
  have "(if z < 0 then - 1 else 1) * (real (nat \<bar>z\<bar>) / real 1) = real_of_int z" by simp
  from fp_round_between [OF P _ ab this [symmetric] v] show ?thesis by (simp add: f_of_int_def)
qed

text \<open>Truncation and rounding to an integer of a bounded value.\<close>

lemma f_trunc_bounds:
  assumes "is_fin x" and "0 \<le> fval x" and "fval x \<le> real N"
  shows "\<exists>k. f_trunc x = Some (int k) \<and> k \<le> N \<and> real k \<le> fval x \<and> fval x < real k + 1"
proof -
  from assms obtain s m e where x: "x = FFin s m e" by (cases x) auto
  define k where "k = scale_den m e div scale_num 1 e"
  have D: "0 < scale_num 1 e" by (simp add: scale_num_def)
  have v: "real (scale_den m e) / real (scale_num 1 e) = real m * 2 powi e"
    by (cases "e < 0") (simp_all add: scale_num_def scale_den_def power_int_def power_one_over)
  have pos: "\<not> s" if "m \<noteq> 0"
  proof
    assume s
    have "0 < real m * 2 powi e" using that by simp
    with \<open>s\<close> assms(2) show False by (simp add: x sgn_val_def)
  qed
  have m: "fval x = real m * 2 powi e"
    using pos by (cases "m = 0") (simp_all add: x sgn_val_def)
  have t: "f_trunc x = Some (int k)"
  proof (cases "m = 0")
    case True
    then show ?thesis by (simp add: x k_def sgn_val_def scale_den_def)
  next
    case False
    with pos show ?thesis by (simp add: x k_def sgn_val_def)
  qed
  have "real k \<le> real (scale_den m e) / real (scale_num 1 e)"
    unfolding k_def by (rule of_nat_div_le_of_nat)
  moreover have "real (scale_den m e) / real (scale_num 1 e) < real k + 1"
  proof -
    have "scale_den m e < (k + 1) * scale_num 1 e"
      using dividend_less_div_times [OF D, of "scale_den m e"] by (simp add: k_def algebra_simps)
    then have "real (scale_den m e) < real ((k + 1) * scale_num 1 e)" by (simp only: of_nat_less_iff)
    then show ?thesis using D by (simp add: pos_divide_less_eq algebra_simps)
  qed
  ultimately have b: "real k \<le> fval x" "fval x < real k + 1" unfolding v m by simp_all
  with assms(3) have "k \<le> N" by linarith
  with t b show ?thesis by blast
qed

lemma f_to_u32_bounded:
  assumes "is_fin x" and "0 \<le> fval x" and "fval x \<le> real N" and "N < 2 ^ 32"
  shows "\<exists>w. f_to_u32 x = Some w \<and> unat w \<le> N \<and> real (unat w) \<le> fval x \<and> fval x < real (unat w) + 1"
proof -
  obtain k where k: "f_trunc x = Some (int k)" "k \<le> N" "real k \<le> fval x" "fval x < real k + 1"
    using f_trunc_bounds [OF assms(1-3)] by blast
  have "k < 2 ^ 32" using k(2) assms(4) by simp
  then have w: "unat (word_of_int (int k) :: u32) = k" by (simp add: unat_word_of_nat)
  have "f_to_u32 x = Some (word_of_int (int k))"
    using k(1) \<open>k < 2 ^ 32\<close> by (simp add: f_to_u32_def to_range_def)
  then show ?thesis using k w by metis
qed

subsection \<open>Signs\<close>

lemma powi_not_neg [simp]: "\<not> (2::real) powi e < 0" "\<not> (2::real) powi e \<le> 0"
  using powi_pos [of e] by linarith+

lemma mant_signs [simp]:
  "real m * 2 powi e \<le> 0 \<longleftrightarrow> m = 0" "0 < real m * 2 powi e \<longleftrightarrow> m \<noteq> 0"
  by (cases "m = 0"; simp add: mult_le_0_iff zero_less_mult_iff)+

fun nonneg :: "fp \<Rightarrow> bool" where
  "nonneg FNaN = False"
| "nonneg (FInf s) = (\<not> s)"
| "nonneg (FFin s m e) = (\<not> s \<or> m = 0)"

lemma nonneg_fin: "is_fin x \<Longrightarrow> nonneg x \<longleftrightarrow> 0 \<le> fval x"
proof -
  assume "is_fin x"
  then obtain s m e where x: "x = FFin s m e" by (cases x) auto
  then show ?thesis by (auto simp: sgn_val_def)
qed

lemma nonneg_not_nan: "nonneg x \<Longrightarrow> x \<noteq> FNaN"
  by auto

lemma nonneg_pack [simp]: "nonneg (fp_pack F False q e)"
  by (cases F) (simp add: fp_pack_def)

lemma nonneg_round [simp]: "nonneg (fp_round F False n d)" "nonneg (fp_round_exp F False n d e)"
  by (simp_all add: fp_round_def fp_round_exp_def fp_zero_def Let_def)

lemma nonneg_zero [simp]: "nonneg (fp_zero F s)"
  by (simp add: fp_zero_def)

lemma align_nonneg: "nonneg (FFin s m e) \<Longrightarrow> 0 \<le> align s m e e'"
  by (auto simp: align_def sgn_val_def)

lemma nonneg_add: "nonneg x \<Longrightarrow> nonneg y \<Longrightarrow> nonneg (f_add F x y)"
proof (cases x; cases y)
  fix s m e t n e' assume xy: "nonneg x" "nonneg y" "x = FFin s m e" "y = FFin t n e'"
  then have "0 \<le> align s m e e'" and "0 \<le> align t n e' e" by (simp_all add: align_nonneg)
  then have "\<not> align s m e e' + align t n e' e < 0" by linarith
  then show ?thesis by (auto simp: xy(3,4) Let_def)
qed auto

lemma nonneg_square: "f_mul F x x = FNaN \<or> nonneg (f_mul F x x)"
  by (cases x) auto

lemma round_exp_zero: "fp_round_exp F s 0 d e = fp_zero F s"
  by (simp add: fp_round_exp_def fp_round_def)

lemma nonneg_div:
  assumes "nonneg x" and "f_lt (fp_zero G False) y"
  shows "f_div F x y = FNaN \<or> nonneg (f_div F x y)"
proof (cases y)
  case (FFin t n e')
  have "f_lt (fp_zero G False) y \<longleftrightarrow> fval (fp_zero G False) < fval y"
    by (rule f_lt_fin) (simp_all add: FFin fp_zero_def)
  then have "0 < fval y" using assms(2) by (simp add: fp_zero_def sgn_val_def)
  then have "\<not> t" and n: "n \<noteq> 0"
    by (auto simp: FFin sgn_val_def zero_less_mult_iff split: if_splits)
  then show ?thesis using assms(1) by (cases x) (auto simp: FFin round_exp_zero)
qed (use assms in \<open>cases x; auto simp: fp_zero_def\<close>)+

lemma f_lt_zero_iff: "x \<noteq> FNaN \<Longrightarrow> f_lt x (fp_zero F s) \<longleftrightarrow> \<not> nonneg x"
proof (cases x)
  case (FFin t m e)
  then have "f_lt x (fp_zero F s) \<longleftrightarrow> fval x < 0"
    by (subst f_lt_fin) (simp_all add: fp_zero_def sgn_val_def)
  then show ?thesis using nonneg_fin [of x] FFin by auto
qed (auto simp: fp_zero_def)

text \<open>Subtracting something not negative does not go above the first operand.\<close>

lemma fval_neg_round: "\<not> nonneg x \<Longrightarrow> is_fin x \<Longrightarrow> fval x \<le> 0"
  using nonneg_fin [of x] by linarith

lemma round_neg:
  "fp_round_exp F True m d e = FInf True
   \<or> is_fin (fp_round_exp F True m d e) \<and> fval (fp_round_exp F True m d e) \<le> 0"
proof -
  obtain p emin emax where F: "F = (p, emin, emax)" by (cases F)
  have "fp_pack F True q e = FInf True \<or> (\<exists>q' e'. fp_pack F True q e = FFin True q' e')" for q e
    by (auto simp: fp_pack_def F)
  then have "fp_round F True n d = FInf True \<or> (\<exists>q' e'. fp_round F True n d = FFin True q' e')" for n d
    by (auto simp: fp_round_def Let_def fp_zero_def)
  then have "fp_round_exp F True m d e = FInf True \<or> (\<exists>q' e'. fp_round_exp F True m d e = FFin True q' e')"
    by (simp add: fp_round_exp_def)
  then show ?thesis by (auto simp: sgn_val_def)
qed

lemma f_sub_le:
  assumes F: "fmt_ok F" and x: "canon F x" "nonneg x" and y: "nonneg y"
  shows "f_sub F x y = FInf True \<or> is_fin (f_sub F x y) \<and> fval (f_sub F x y) \<le> fval x"
proof (cases "is_fin y")
  case False
  then have "y = FInf False" using y by (cases y) auto
  then show ?thesis using x by (cases x) (auto simp: f_sub_def canon_def)
next
  case True
  have fx: "is_fin x" "0 \<le> fval x" "0 \<le> fval y" using x y True by (auto simp: canon_def nonneg_fin)
  have z: "canon F (fp_zero F False)" using F by (cases F) (auto simp: fmt_ok_def canon_def fp_zero_def)
  have fz: "fval (fp_zero F False) = 0" by (simp add: fp_zero_def sgn_val_def)
  show ?thesis
  proof (cases "fval y \<le> fval x")
    case le: True
    have "between (fp_zero F False) x (f_sub F x y)"
      by (rule f_sub_between [OF F fx(1) True z x(1)]) (use le fx fz in simp_all)
    then show ?thesis by (simp add: between_def)
  next
    case False
    obtain s m e t n e' where xy: "x = FFin s m e" "y = FFin t n e'"
      using fx(1) True by (cases x; cases y) auto
    have "align s m e e' < align t n e' e" using False by (simp add: align_less_iff xy del: fval.simps)
    then have neg: "align s m e e' + align (\<not> t) n e' e < 0"
      by (auto simp: align_def sgn_val_def split: if_splits)
    then have r: "f_sub F x y =
        fp_round_exp F True (nat \<bar>align s m e e' + align (\<not> t) n e' e\<bar>) 1 (min e e')"
      by (simp add: f_sub_def xy Let_def)
    from round_neg [of F "nat \<bar>align s m e e' + align (\<not> t) n e' e\<bar>" 1 "min e e'"]
    have "f_sub F x y = FInf True \<or> is_fin (f_sub F x y) \<and> fval (f_sub F x y) \<le> 0"
      unfolding r .
    with fx(2) show ?thesis by linarith
  qed
qed

subsection \<open>Powers of two and literals\<close>

definition two_pow :: "int \<Rightarrow> fp" where
  "two_pow k = FFin False (2 ^ 23) (k - 23)"

lemma two_pow_canon: "- 126 \<le> k \<Longrightarrow> k \<le> 127 \<Longrightarrow> canon f32 (two_pow k)"
  by (simp add: two_pow_def canon_def f32_def)

lemma two_pow_val: "fval (two_pow k) = 2 powi k"
  by (simp add: two_pow_def sgn_val_def power_int_diff)

lemma zero_canon: "canon f32 (fp_zero f32 s)" "fval (fp_zero F s) = 0"
  by (simp_all add: canon_def f32_def fp_zero_def sgn_val_def)

lemma lit_canon: "is_fin (f32_lit z k) \<Longrightarrow> canon f32 (f32_lit z k)"
  by (simp add: canon_def)

end
