(* ===== verification/Calibration.thy ===== *)
theory Calibration
  imports Float_Bounds Domain_Types
begin

text \<open>
  The numerical core of the domain layer: ADC and burette calibration, the conversions
  between volume, speed and steps, the dose planner and the volume tracker
  (\<^verbatim>\<open>domain/calibration.hpp\<close>), the least-squares speed calibration (\<^verbatim>\<open>domain/ols.hpp\<close>), the
  gravimetric Z factor (\<^verbatim>\<open>domain/z_factor.hpp\<close>) and the calibration-run planner
  (\<^verbatim>\<open>domain/cal_run_planner.hpp\<close>).  All values are binary32; \<^term>\<open>None\<close> stands for a
  conversion to an integer that C++ leaves undefined.
\<close>

subsection \<open>Calibration data and conversions\<close>

record AdcCalibration =
  adc_a :: fp
  adc_b :: fp

definition adcToMv :: "u16 \<Rightarrow> AdcCalibration \<Rightarrow> fp" where
  "adcToMv raw cal =
     f_add f32 (f_mul f32 (f_of_int f32 (uint raw)) (adc_a cal)) (adc_b cal)"

record CalibrationData =
  stepsPerMl :: fp
  nominalVolumeMl :: fp
  speedCoeff :: fp
  minFreqHz :: u16
  maxFreqHz :: u16

definition kDefaultStepsPerMl :: fp where "kDefaultStepsPerMl = f32_lit 7730 0"
definition kDefaultNominalVolumeMl :: fp where "kDefaultNominalVolumeMl = f32_lit 814 2"
definition kDefaultSpeedCoeff :: fp where "kDefaultSpeedCoeff = f32_lit 3052 5"
definition kDefaultMinFreqHz :: u16 where "kDefaultMinFreqHz = 30"
definition kDefaultMaxFreqHz :: u16 where "kDefaultMaxFreqHz = 3000"

text \<open>\<^verbatim>\<open>CalibrationData{}\<close> is all zeros; the defaults are named constants.\<close>

definition cal_zero :: CalibrationData where
  "cal_zero =
     \<lparr>stepsPerMl = fp_zero f32 False, nominalVolumeMl = fp_zero f32 False,
      speedCoeff = fp_zero f32 False, minFreqHz = 0, maxFreqHz = 0\<rparr>"

definition cal_defaults :: CalibrationData where
  "cal_defaults =
     \<lparr>stepsPerMl = kDefaultStepsPerMl, nominalVolumeMl = kDefaultNominalVolumeMl,
      speedCoeff = kDefaultSpeedCoeff, minFreqHz = kDefaultMinFreqHz, maxFreqHz = kDefaultMaxFreqHz\<rparr>"

definition mlToSteps :: "fp \<Rightarrow> CalibrationData \<Rightarrow> i32 outcome" where
  "mlToSteps volume cal = f_to_i32 (f_mul f32 volume (stepsPerMl cal))"

definition stepsToMl :: "i32 \<Rightarrow> CalibrationData \<Rightarrow> fp" where
  "stepsToMl steps cal = f_div f32 (f_of_int f32 (sint steps)) (stepsPerMl cal)"

definition speedMlMinToHz :: "fp \<Rightarrow> CalibrationData \<Rightarrow> u32 outcome" where
  "speedMlMinToHz speed cal =
     (if f_lt (speedCoeff cal) (f32_lit 1 6) then Some (ucast (minFreqHz cal))
      else
        case f_to_u32 (f_add f32 (f_div f32 speed (speedCoeff cal)) (f32_lit 5 1)) of
          None \<Rightarrow> None
        | Some freq0 \<Rightarrow>
            let freq1 = (if freq0 < ucast (minFreqHz cal) then ucast (minFreqHz cal) else freq0);
                freq2 = (if freq1 > ucast (maxFreqHz cal) then ucast (maxFreqHz cal) else freq1)
            in Some freq2)"

subsection \<open>Dose planning\<close>

record DosePlan =
  dp_totalCycles :: u32
  dp_firstCycleVolMl :: fp
  dp_remainingVolMl :: fp
  dp_singleCycle :: bool
  dp_needsFillFirst :: bool
  dp_valid :: bool

definition dose_plan_init :: DosePlan where
  "dose_plan_init =
     \<lparr>dp_totalCycles = 0, dp_firstCycleVolMl = fp_zero f32 False,
      dp_remainingVolMl = fp_zero f32 False, dp_singleCycle = False,
      dp_needsFillFirst = False, dp_valid = False\<rparr>"

text \<open>The plan without its last field, in the two branches of the source.\<close>

definition planDose_multi :: "fp \<Rightarrow> CalibrationData \<Rightarrow> DosePlan outcome" where
  "planDose_multi volumeMl cal =
     (let nom = nominalVolumeMl cal;
          ratio = f_div f32 volumeMl nom;
          rem = f_fmod f32 volumeMl nom;
          plan = dose_plan_init\<lparr>dp_valid := True, dp_firstCycleVolMl := nom, dp_singleCycle := False\<rparr>
      in case f_to_u32 (f_add f32 ratio (f32_lit 999999 6)) of
           None \<Rightarrow> None
         | Some up \<Rightarrow>
             if f_lt rem (f32_lit 1 2)
             then Some (plan\<lparr>dp_totalCycles := up, dp_remainingVolMl := nom\<rparr>)
             else (case f_to_u32 ratio of
                     None \<Rightarrow> None
                   | Some down \<Rightarrow>
                       let c = down + 1; c' = (if c > 1 then c - 1 else c)
                       in Some (plan\<lparr>dp_totalCycles := c', dp_remainingVolMl := rem\<rparr>)))"

definition planDose_single :: "fp \<Rightarrow> DosePlan" where
  "planDose_single volumeMl =
     dose_plan_init\<lparr>dp_valid := True, dp_totalCycles := 1, dp_firstCycleVolMl := volumeMl,
       dp_remainingVolMl := f_of_int f32 0, dp_singleCycle := True\<rparr>"

definition planDose :: "fp \<Rightarrow> fp \<Rightarrow> CalibrationData \<Rightarrow> DosePlan outcome" where
  "planDose volumeMl currentVolumeMl cal =
     (if f_lt volumeMl (f32_lit 1 2) \<or> f_lt (f32_lit 500 1) volumeMl
         \<or> f_lt (nominalVolumeMl cal) (f32_lit 1 3)
      then Some (dose_plan_init\<lparr>dp_valid := False\<rparr>)
      else
        map_option
          (\<lambda>plan. plan\<lparr>dp_needsFillFirst :=
             f_lt currentVolumeMl (f_sub f32 (dp_firstCycleVolMl plan) (f32_lit 1 3))\<rparr>)
          (if f_lt (f_add f32 (nominalVolumeMl cal) (f32_lit 1 3)) volumeMl
           then planDose_multi volumeMl cal
           else Some (planDose_single volumeMl)))"

subsection \<open>Volume tracking\<close>

definition onFillComplete :: "CalibrationData \<Rightarrow> fp \<Rightarrow> fp" where
  "onFillComplete cal v = nominalVolumeMl cal"

definition onEmptyComplete :: "fp \<Rightarrow> fp" where
  "onEmptyComplete v = fp_zero f32 False"

definition onDoseComplete :: "fp \<Rightarrow> fp \<Rightarrow> fp" where
  "onDoseComplete dispensedVolMl v =
     (let v' = f_sub f32 v dispensedVolMl
      in if f_lt v' (fp_zero f32 False) then fp_zero f32 False else v')"

definition onStopDuringFill :: "fp \<Rightarrow> i32 \<Rightarrow> CalibrationData \<Rightarrow> fp \<Rightarrow> fp" where
  "onStopDuringFill startVolMl stepsTaken cal v =
     (let v' = f_add f32 startVolMl (f_div f32 (f_of_int f32 (sint stepsTaken)) (stepsPerMl cal))
      in if f_lt (nominalVolumeMl cal) v' then nominalVolumeMl cal else v')"

definition onStopDuringEmpty :: "fp \<Rightarrow> i32 \<Rightarrow> CalibrationData \<Rightarrow> fp \<Rightarrow> fp" where
  "onStopDuringEmpty startVolMl stepsTaken cal v =
     (let v' = f_sub f32 startVolMl (f_div f32 (f_of_int f32 (sint stepsTaken)) (stepsPerMl cal))
      in if f_lt v' (fp_zero f32 False) then fp_zero f32 False else v')"

definition onHomingComplete :: "CalibrationData \<Rightarrow> fp \<Rightarrow> fp" where
  "onHomingComplete cal v = nominalVolumeMl cal"

subsection \<open>Least squares through the origin (ols.hpp)\<close>

record SpeedCalResult =
  ols_k :: fp
  ols_rSquared :: fp

text \<open>The four running sums of the first loop, and the two of the second.\<close>

fun ols_sums :: "(fp \<times> fp) list \<Rightarrow> fp \<times> fp \<times> fp \<times> fp \<Rightarrow> fp \<times> fp \<times> fp \<times> fp" where
  "ols_sums [] acc = acc"
| "ols_sums ((f, v) # pts) (sumF, sumV, sumFF, sumFV) =
     ols_sums pts (f_add f32 sumF f, f_add f32 sumV v, f_add f32 sumFF (f_mul f32 f f),
                   f_add f32 sumFV (f_mul f32 f v))"

fun ols_residuals :: "fp \<Rightarrow> fp \<Rightarrow> (fp \<times> fp) list \<Rightarrow> fp \<times> fp \<Rightarrow> fp \<times> fp" where
  "ols_residuals k meanV [] acc = acc"
| "ols_residuals k meanV ((f, v) # pts) (ssRes, ssTot) =
     (let res = f_sub f32 v (f_mul f32 k f); dev = f_sub f32 v meanV
      in ols_residuals k meanV pts
           (f_add f32 ssRes (f_mul f32 res res), f_add f32 ssTot (f_mul f32 dev dev)))"

definition calculateSpeedCalibration :: "(fp \<times> fp) list \<Rightarrow> SpeedCalResult" where
  "calculateSpeedCalibration pts =
     (let z = fp_zero f32 False; zero = \<lparr>ols_k = z, ols_rSquared = z\<rparr>
      in if length pts < 2 then zero
         else
           let (sumF, sumV, sumFF, sumFV) = ols_sums pts (z, z, z, z);
               n = f_of_int f32 (int (length pts));
               denom = f_sub f32 sumFF (f_div f32 (f_mul f32 sumF sumF) n)
           in if f_lt (f_abs denom) (f32_lit 1 6) then zero
              else
                let k = f_div f32 (f_sub f32 sumFV (f_div f32 (f_mul f32 sumF sumV) n)) denom;
                    meanV = f_div f32 sumV n;
                    (ssRes, ssTot) = ols_residuals k meanV pts (z, z)
                in \<lparr>ols_k = k,
                    ols_rSquared =
                      (if f_lt (f32_lit 1 6) ssTot
                       then f_sub f32 (f32_lit 10 1) (f_div f32 ssRes ssTot) else z)\<rparr>)"

subsection \<open>The Z factor (z_factor.hpp)\<close>

definition Z_TEMPS :: "fp list" where
  "Z_TEMPS = map (\<lambda>t. f32_lit t 1)
     [150, 155, 160, 165, 170, 175, 180, 185, 190, 195, 200, 205, 210, 215, 220, 225, 230, 235,
      240, 245, 250, 255, 260, 265, 270, 275, 280, 285, 290, 295, 300]"

definition Z_PRESSURES :: "fp list" where
  "Z_PRESSURES = map (\<lambda>p. f32_lit p 1) [800, 853, 907, 960, 1013, 1067]"

text \<open>The table in ten-thousandths.\<close>

definition Z_TABLE :: "fp list list" where
  "Z_TABLE = map (map (\<lambda>z. f32_lit z 4))
    [
     [10018, 10018, 10019, 10019, 10020, 10020],
     [10018, 10018, 10019, 10020, 10020, 10021],
     [10019, 10020, 10020, 10021, 10022, 10022],
     [10020, 10020, 10021, 10022, 10022, 10023],
     [10021, 10021, 10022, 10022, 10023, 10023],
     [10022, 10022, 10023, 10024, 10024, 10024],
     [10022, 10023, 10024, 10024, 10025, 10025],
     [10023, 10024, 10025, 10025, 10026, 10026],
     [10024, 10025, 10025, 10026, 10027, 10027],
     [10025, 10026, 10026, 10027, 10028, 10028],
     [10026, 10027, 10027, 10028, 10029, 10029],
     [10027, 10028, 10028, 10029, 10030, 10030],
     [10028, 10029, 10031, 10031, 10032, 10032],
     [10030, 10030, 10032, 10032, 10033, 10033],
     [10031, 10031, 10033, 10033, 10034, 10035],
     [10032, 10032, 10034, 10035, 10035, 10036],
     [10033, 10033, 10035, 10036, 10036, 10037],
     [10034, 10035, 10036, 10037, 10038, 10038],
     [10035, 10036, 10037, 10038, 10039, 10039],
     [10037, 10037, 10038, 10039, 10040, 10041],
     [10038, 10038, 10039, 10040, 10041, 10042],
     [10039, 10040, 10041, 10041, 10042, 10043],
     [10040, 10041, 10042, 10042, 10043, 10045],
     [10042, 10042, 10043, 10044, 10045, 10046],
     [10043, 10044, 10044, 10045, 10048, 10049],
     [10046, 10046, 10047, 10048, 10048, 10049],
     [10046, 10046, 10047, 10048, 10049, 10049],
     [10047, 10048, 10048, 10049, 10050, 10050],
     [10049, 10049, 10050, 10051, 10051, 10052],
     [10050, 10051, 10051, 10052, 10053, 10053],
     [10052, 10052, 10053, 10054, 10054, 10055]
    ]"

definition clamp_to :: "fp list \<Rightarrow> fp \<Rightarrow> fp" where
  "clamp_to ts x =
     (let x1 = (if f_lt x (ts ! 0) then ts ! 0 else x)
      in if f_lt (ts ! (length ts - 1)) x1 then ts ! (length ts - 1) else x1)"

text \<open>The search loop keeps the last index, short of the final one, whose entry is not above \<open>x\<close>.\<close>

definition bracket :: "fp list \<Rightarrow> fp \<Rightarrow> nat" where
  "bracket ts x = foldl (\<lambda>ti i. if f_le (ts ! i) x then i else ti) 0 [0 ..< length ts - 1]"

definition lerp :: "fp \<Rightarrow> fp \<Rightarrow> fp \<Rightarrow> fp" where
  "lerp a b t = f_add f32 a (f_mul f32 (f_sub f32 b a) t)"

definition bracket_frac :: "fp list \<Rightarrow> nat \<Rightarrow> fp \<Rightarrow> fp" where
  "bracket_frac ts i x =
     f_div f32 (f_sub f32 x (ts ! i)) (f_sub f32 (ts ! Suc i) (ts ! i))"

definition getZFactor :: "fp \<Rightarrow> fp \<Rightarrow> fp" where
  "getZFactor temperature0 pressure0 =
     (let temperature = clamp_to Z_TEMPS temperature0;
          pressure = clamp_to Z_PRESSURES pressure0;
          ti = bracket Z_TEMPS temperature;
          pi = bracket Z_PRESSURES pressure;
          tFrac = bracket_frac Z_TEMPS ti temperature;
          pFrac = bracket_frac Z_PRESSURES pi pressure;
          zT1 = lerp (Z_TABLE ! ti ! pi) (Z_TABLE ! ti ! Suc pi) pFrac;
          zT2 = lerp (Z_TABLE ! Suc ti ! pi) (Z_TABLE ! Suc ti ! Suc pi) pFrac
      in lerp zT1 zT2 tFrac)"

definition calculateNewStepsPerMl :: "fp \<Rightarrow> fp \<Rightarrow> fp \<Rightarrow> fp" where
  "calculateNewStepsPerMl currentSpm targetVolMl actualVolMl =
     (if f_lt actualVolMl (f32_lit 1 4) then currentSpm
      else f_div f32 (f_mul f32 currentSpm targetVolMl) actualVolMl)"

subsection \<open>Planning a calibration run (cal_run_planner.hpp)\<close>

definition MIN_CAL_SPEED_ML_MIN :: fp where "MIN_CAL_SPEED_ML_MIN = f32_lit 150 1"

datatype CalRunAction = Reject | CalDose | CalSpeed

datatype CalRunRejectReason = None' | InvalidMode | BuretteBusy

record CalRunPlan =
  crp_action :: CalRunAction
  crp_rejectReason :: CalRunRejectReason
  crp_freqHz :: u16
  crp_speedMlMin :: fp

definition crp_reject :: "CalRunRejectReason \<Rightarrow> CalRunPlan" where
  "crp_reject r =
     \<lparr>crp_action = CalRunAction.Reject, crp_rejectReason = r, crp_freqHz = 0,
      crp_speedMlMin = fp_zero f32 False\<rparr>"

text \<open>\<open>mode\<close> is \<^term>\<open>None\<close> for a null pointer.\<close>

definition planCalRun ::
  "string option \<Rightarrow> fp \<Rightarrow> u16 \<Rightarrow> fp \<Rightarrow> fp \<Rightarrow> bool \<Rightarrow> CalRunPlan outcome" where
  "planCalRun mode speedMlMin freqHz maxFreq coeff isBusy =
     (if mode = None then Some (crp_reject CalRunRejectReason.InvalidMode)
      else if mode \<noteq> Some ''dose'' \<and> mode \<noteq> Some ''speed''
      then Some (crp_reject CalRunRejectReason.InvalidMode)
      else if isBusy then Some (crp_reject CalRunRejectReason.BuretteBusy)
      else if mode = Some ''dose'' then
        (case (if freqHz = 0
               then f_to_u16 (f_add f32 (f_div f32 maxFreq (f32_lit 20 1)) (f32_lit 5 1))
               else Some freqHz) of
           None \<Rightarrow> None
         | Some calFreq \<Rightarrow>
             let s = f_mul f32 (f_of_int f32 (uint calFreq)) coeff;
                 calSpeed = (if f_lt s MIN_CAL_SPEED_ML_MIN then MIN_CAL_SPEED_ML_MIN else s)
             in Some \<lparr>crp_action = CalRunAction.CalDose, crp_rejectReason = CalRunRejectReason.None',
                      crp_freqHz = calFreq, crp_speedMlMin = calSpeed\<rparr>)
      else if freqHz = 0 then Some (crp_reject CalRunRejectReason.InvalidMode)
      else
        let fillSpeed =
              (if f_lt speedMlMin MIN_CAL_SPEED_ML_MIN
               then f_mul f32 (f_div f32 maxFreq (f32_lit 20 1)) coeff else speedMlMin)
        in Some \<lparr>crp_action = CalRunAction.CalSpeed, crp_rejectReason = CalRunRejectReason.None',
                 crp_freqHz = freqHz, crp_speedMlMin = fillSpeed\<rparr>)"

subsection \<open>The speed conversion\<close>

declare One_nat_def [simp del]

lemma f_le_not_lt: "f_le x y \<Longrightarrow> \<not> f_lt y x"
  using f_lt_asym [of x y] by (cases x; cases y) (auto simp: f_le_def min.commute)

text \<open>A positive divisor that is not tiny keeps a quotient in range.\<close>

lemma div_range:
  assumes x: "is_fin x" "0 \<le> fval x" "fval x \<le> 2 powi i"
    and y: "is_fin y" "2 powi j \<le> fval y"
    and k: "i - j = k" "- 126 \<le> k" "k \<le> 127"
  shows "is_fin (f_div f32 x y) \<and> 0 \<le> fval (f_div f32 x y) \<and> fval (f_div f32 x y) \<le> 2 powi k"
proof -
  have y0: "0 < fval y" using y(2) powi_pos [of j] by linarith
  have "fval x / fval y \<le> 2 powi i / 2 powi j"
    using x y(2) y0 by (intro frac_le) simp_all
  also have "\<dots> = 2 powi k" using k(1) by (simp add: power_int_diff [symmetric])
  finally have "between (fp_zero f32 False) (two_pow k) (f_div f32 x y)"
    using x y y0 k by (intro f_div_between) (simp_all add: zero_canon two_pow_canon two_pow_val)
  then show ?thesis by (simp add: between_def zero_canon two_pow_val)
qed

text \<open>Adding a value of at most one keeps a sum below the next bound.\<close>

lemma add_range:
  assumes x: "is_fin x" "0 \<le> fval x" "fval x \<le> 2 powi k"
    and y: "is_fin y" "0 \<le> fval y" "fval y \<le> 1" and k: "0 \<le> k" "k \<le> 126"
  shows "is_fin (f_add f32 x y) \<and> 0 \<le> fval (f_add f32 x y) \<and> fval (f_add f32 x y) \<le> 2 powi (k + 1)"
proof -
  have "(1::real) \<le> 2 powi k" using k(1) by (simp add: power_int_def)
  then have "fval x + fval y \<le> 2 powi (k + 1)" using x y by (simp add: power_int_add)
  then have "between (fp_zero f32 False) (two_pow (k + 1)) (f_add f32 x y)"
    using x y k by (intro f_add_between) (simp_all add: zero_canon two_pow_canon two_pow_val)
  then show ?thesis by (simp add: between_def zero_canon two_pow_val)
qed

lemma lit_half: "f32_lit 5 1 = FFin False 8388608 (- 24)"
  and lit_e6: "f32_lit 1 6 = FFin False 8796093 (- 43)"
  and lit_e3: "f32_lit 1 3 = FFin False 8589935 (- 33)"
  and lit_e2: "f32_lit 1 2 = FFin False 10737418 (- 30)"
  and lit_50: "f32_lit 500 1 = FFin False 13107200 (- 18)"
  and lit_1m: "f32_lit 999999 6 = FFin False 16777199 (- 24)"
  and lit_1: "f32_lit 10 1 = FFin False 8388608 (- 23)"
  and lit_2: "f32_lit 20 1 = FFin False 8388608 (- 22)"
  and lit_15: "f32_lit 150 1 = FFin False 15728640 (- 20)"
  by (simp_all add: fp_simps)

lemma lit_vals:
  "fval (f32_lit 5 1) = 1 / 2" "2 powi (- 20) \<le> fval (f32_lit 1 6)"
  "2 powi (- 10) \<le> fval (f32_lit 1 3)" "0 \<le> fval (f32_lit 1 2)"
  "fval (f32_lit 500 1) = 50" "fval (f32_lit 999999 6) \<le> 1" "0 \<le> fval (f32_lit 999999 6)"
  "fval (f32_lit 10 1) = 1" "fval (f32_lit 20 1) = 2" "fval (f32_lit 150 1) = 15"
  by (simp_all only: lit_half lit_e6 lit_e3 lit_e2 lit_50 lit_1m lit_1 lit_2 lit_15)
    (simp_all add: sgn_val_def power_int_minus)

lemma lit_fin [simp]:
  "is_fin (f32_lit 5 1)" "is_fin (f32_lit 1 6)" "is_fin (f32_lit 1 3)" "is_fin (f32_lit 1 2)"
  "is_fin (f32_lit 500 1)" "is_fin (f32_lit 999999 6)" "is_fin (f32_lit 10 1)"
  "is_fin (f32_lit 20 1)" "is_fin (f32_lit 150 1)"
  by (simp_all only: lit_half lit_e6 lit_e3 lit_e2 lit_50 lit_1m lit_1 lit_2 lit_15 is_fin.simps)

lemma speed_hz_limits:
  assumes "is_fin speed" and "0 \<le> fval speed" and "fval speed \<le> 2048"
    and "is_fin (speedCoeff cal)" and "minFreqHz cal \<le> maxFreqHz cal"
  shows "\<exists>hz. speedMlMinToHz speed cal = Some hz
    \<and> uint (minFreqHz cal) \<le> uint hz \<and> uint hz \<le> uint (maxFreqHz cal)"
proof (cases "f_lt (speedCoeff cal) (f32_lit 1 6)")
  case True
  then show ?thesis using assms(5)
    by (simp add: speedMlMinToHz_def uint_up_ucast is_up word_le_def)
next
  case False
  then have "2 powi (- 20) \<le> fval (speedCoeff cal)"
    using lit_vals(2) assms(4) by (simp add: f_lt_fin)
  then have q: "is_fin (f_div f32 speed (speedCoeff cal)) \<and> 0 \<le> fval (f_div f32 speed (speedCoeff cal))
      \<and> fval (f_div f32 speed (speedCoeff cal)) \<le> 2 powi 31"
    using assms by (intro div_range [of _ 11 _ "- 20"]) simp_all
  define x where "x = f_add f32 (f_div f32 speed (speedCoeff cal)) (f32_lit 5 1)"
  define top where "top = FFin False 12582912 8"
  have top: "canon f32 top" "fval top = 3221225472"
    by (simp_all add: top_def canon_def f32_def sgn_val_def)
  have "between (fp_zero f32 False) top x"
    unfolding x_def using q lit_vals(1) top
    by (intro f_add_between) (simp_all add: zero_canon)
  then have "\<exists>w. f_to_u32 x = Some w \<and> unat w \<le> 3221225472 \<and> real (unat w) \<le> fval x
      \<and> fval x < real (unat w) + 1"
    using top by (intro f_to_u32_bounded) (simp_all add: between_def zero_canon)
  then obtain w where w: "f_to_u32 x = Some w" by blast
  have le: "uint (ucast v :: u32) = uint v" for v :: u16 by (simp add: uint_up_ucast is_up)
  show ?thesis
    using False w assms(5)
    by (auto simp: speedMlMinToHz_def x_def [symmetric] Let_def word_le_def word_less_def le)
qed



subsection \<open>The dose planner\<close>

lemma f_le_fin_bound: "\<not> f_lt x a \<Longrightarrow> \<not> f_lt b x \<Longrightarrow> x \<noteq> FNaN \<Longrightarrow> is_fin a \<Longrightarrow> is_fin b \<Longrightarrow>
    is_fin x \<and> fval a \<le> fval x \<and> fval x \<le> fval b"
  by (cases "is_fin x") (auto simp: f_lt_fin not_less elim: is_fin.elims, (cases x; cases a; cases b; auto)+)

lemma not_nan_above: "f_lt x y \<Longrightarrow> y \<noteq> FNaN"
  by (cases x; cases y) auto

lemma nominal_fin:
  assumes "f_lt (f_add f32 nom c) v" and "\<not> f_lt nom a" and "is_fin a" "is_fin c" "is_fin v"
  shows "is_fin nom \<and> fval a \<le> fval nom"
proof (cases nom)
  case FNaN
  then show ?thesis using assms by simp
next
  case (FInf s)
  then show ?thesis using assms by (cases s; cases a; cases c; cases v) auto
next
  case (FFin s m e)
  then show ?thesis using assms(2,3) f_lt_fin [of nom a] by simp
qed

text \<open>The guards leave a finite volume and a nominal volume that is not tiny, so the quotient
  is at most \<open>2 ^ 16\<close>.\<close>

lemma dose_ratio:
  assumes v: "\<not> f_lt v (f32_lit 1 2)" "\<not> f_lt (f32_lit 500 1) v"
    and n: "\<not> f_lt (nominalVolumeMl cal) (f32_lit 1 3)"
    and m: "f_lt (f_add f32 (nominalVolumeMl cal) (f32_lit 1 3)) v"
  defines "r \<equiv> f_div f32 v (nominalVolumeMl cal)"
  shows "is_fin v \<and> is_fin (nominalVolumeMl cal) \<and> 0 < fval (nominalVolumeMl cal)
    \<and> is_fin r \<and> 0 \<le> fval r \<and> fval r \<le> 2 powi 16"
proof -
  have vf: "is_fin v \<and> fval (f32_lit 1 2) \<le> fval v \<and> fval v \<le> fval (f32_lit 500 1)"
    using v not_nan_above [OF m] by (intro f_le_fin_bound) simp_all
  have nf: "is_fin (nominalVolumeMl cal) \<and> fval (f32_lit 1 3) \<le> fval (nominalVolumeMl cal)"
    using nominal_fin [OF m n] vf by simp
  have b: "0 \<le> fval v" "fval v \<le> 50" "2 powi (- 10) \<le> fval (nominalVolumeMl cal)"
    using vf nf lit_vals(3,4,5) by linarith+
  then have "fval v \<le> 2 powi 6" by simp
  with b vf nf have "is_fin r \<and> 0 \<le> fval r \<and> fval r \<le> 2 powi 16"
    unfolding r_def by (intro div_range [of _ 6 _ "- 10"]) simp_all
  moreover have "0 < fval (nominalVolumeMl cal)" using nf lit_vals(3) powi_pos [of "- 10"] by linarith
  ultimately show ?thesis using vf nf by simp
qed

lemma planDose_multi_defined:
  assumes "\<not> f_lt v (f32_lit 1 2)" "\<not> f_lt (f32_lit 500 1) v"
    and "\<not> f_lt (nominalVolumeMl cal) (f32_lit 1 3)"
    and "f_lt (f_add f32 (nominalVolumeMl cal) (f32_lit 1 3)) v"
  shows "\<exists>p. planDose_multi v cal = Some p \<and> unat (dp_totalCycles p) \<le> 2 ^ 17
    \<and> dp_valid p \<and> \<not> dp_singleCycle p \<and> dp_firstCycleVolMl p = nominalVolumeMl cal"
proof -
  define r where "r = f_div f32 v (nominalVolumeMl cal)"
  note d = dose_ratio [OF assms, folded r_def]
  have s: "is_fin (f_add f32 r (f32_lit 999999 6)) \<and> 0 \<le> fval (f_add f32 r (f32_lit 999999 6))
      \<and> fval (f_add f32 r (f32_lit 999999 6)) \<le> 2 powi (16 + 1)"
    using d lit_vals(6,7) by (intro add_range) simp_all
  obtain up where up: "f_to_u32 (f_add f32 r (f32_lit 999999 6)) = Some up" "unat up \<le> 2 ^ 17"
    using f_to_u32_bounded [of "f_add f32 r (f32_lit 999999 6)" "2 ^ 17"] s by auto
  obtain down where down: "f_to_u32 r = Some down" "unat down \<le> 2 ^ 16"
    using f_to_u32_bounded [of r "2 ^ 16"] d by auto
  have step: "(if (1::u32) < down + 1 then down + 1 - 1 else down + 1) = (if down = 0 then 1 else down)"
  proof (cases "down = 0")
    case False
    have "unat (down + 1) = unat down + 1"
      using down(2) by (simp add: unat_word_ariths)
    moreover have "0 < unat down" using False by (simp add: unat_gt_0)
    ultimately show ?thesis using False by (simp add: word_less_nat_alt)
  qed simp
  have "unat (if down = 0 then 1 else down) \<le> 2 ^ 17" using down(2) by simp
  with up down show ?thesis
    by (auto simp: planDose_multi_def r_def [symmetric] Let_def step dose_plan_init_def split: if_splits)
qed


text \<open>A volume of two and a half syringes is planned as two cycles, the count of whole
  syringes, with the rest of the division as the remaining volume; a volume of exactly two
  syringes is planned as two cycles with a whole syringe remaining.  The two readings of the
  count differ by one cycle.\<close>

lemma planDose_cycle_counts:
  "map_option (\<lambda>p. (dp_totalCycles p, dp_remainingVolMl p))
     (planDose (f32_lit 20 0) c (cal_defaults\<lparr>nominalVolumeMl := f32_lit 8 0\<rparr>)) = Some (2, f32_lit 4 0)"
  "map_option (\<lambda>p. (dp_totalCycles p, dp_remainingVolMl p))
     (planDose (f32_lit 16 0) c (cal_defaults\<lparr>nominalVolumeMl := f32_lit 8 0\<rparr>)) = Some (2, f32_lit 8 0)"
  by (simp_all add: planDose_def planDose_multi_def fp_simps cal_defaults_def dose_plan_init_def)

subsection \<open>The Z factor\<close>

fun last_hit :: "(nat \<Rightarrow> bool) \<Rightarrow> nat \<Rightarrow> nat" where
  "last_hit P 0 = 0"
| "last_hit P (Suc n) = (if P n then n else last_hit P n)"

lemma bracket_last_hit: "bracket ts x = last_hit (\<lambda>i. f_le (ts ! i) x) (length ts - 1)"
proof -
  have "foldl (\<lambda>ti i. if P i then i else ti) 0 [0 ..< n] = last_hit P n" for P n
    by (induction n) auto
  then show ?thesis by (simp add: bracket_def)
qed

lemma last_hit_less: "0 < n \<Longrightarrow> last_hit P n < n"
  by (induction n) (auto simp: less_Suc_eq)

lemma last_hit_holds: "0 < n \<Longrightarrow> P 0 \<Longrightarrow> P (last_hit P n)"
proof (induction n)
  case (Suc n)
  then show ?case by (cases "n = 0") auto
qed simp

lemma last_hit_last: "last_hit P n < i \<Longrightarrow> i < n \<Longrightarrow> \<not> P i"
proof (induction n)
  case (Suc n)
  then show ?case by (cases "P n"; cases "i = n") auto
qed simp

lemma bracket_index: "2 \<le> length ts \<Longrightarrow> bracket ts x < length ts - 1"
  unfolding bracket_last_hit by (rule last_hit_less) simp

text \<open>The index found is the last one whose entry is not above \<open>x\<close>.\<close>

lemma bracket_spec:
  assumes "2 \<le> length ts" and "f_le (ts ! 0) x"
  defines "b \<equiv> bracket ts x"
  shows "f_le (ts ! b) x \<and> (Suc b < length ts - 1 \<longrightarrow> \<not> f_le (ts ! Suc b) x)"
proof -
  have n: "0 < length ts - 1" using assms(1) by simp
  have "f_le (ts ! b) x"
    unfolding b_def bracket_last_hit
    by (rule last_hit_holds [OF n, of "\<lambda>i. f_le (ts ! i) x", OF assms(2)])
  moreover have "\<not> f_le (ts ! Suc b) x" if "Suc b < length ts - 1"
    using last_hit_last [of "\<lambda>i. f_le (ts ! i) x" "length ts - 1" "Suc b"] that
    unfolding b_def bracket_last_hit by simp
  ultimately show ?thesis by simp
qed

text \<open>After clamping, a value that is not NaN lies between its two neighbours in the table.\<close>

lemma clamp_spec:
  assumes "x \<noteq> FNaN" and "is_fin (ts ! 0)" and "is_fin (ts ! (length ts - 1))"
    and "f_le (ts ! 0) (ts ! (length ts - 1))"
  shows "is_fin (clamp_to ts x) \<and> f_le (ts ! 0) (clamp_to ts x)
    \<and> f_le (clamp_to ts x) (ts ! (length ts - 1))"
proof -
  let ?a = "ts ! 0" and ?b = "ts ! (length ts - 1)"
  have ab: "fval ?a \<le> fval ?b" using assms by (simp add: f_le_fin)
  consider "is_fin x" | "x = FInf True" | "x = FInf False" using assms(1) by (cases x) auto
  then show ?thesis
  proof cases
    case 1
    then show ?thesis using assms(2,3) ab
      by (auto simp: clamp_to_def Let_def f_lt_fin f_le_fin)
  next
    case 2
    then have "f_lt x ?a" using assms(2) by (cases ?a) auto
    then show ?thesis using assms(2,3) ab by (auto simp: clamp_to_def Let_def f_lt_fin f_le_fin)
  next
    case 3
    then have "\<not> f_lt x ?a" and "f_lt ?b x" using assms(2,3) by (cases ?a; cases ?b; auto)+
    then show ?thesis using assms(2,3) ab by (auto simp: clamp_to_def Let_def f_lt_fin f_le_fin)
  qed
qed

text \<open>A table of finite entries whose steps are exactly representable.\<close>

definition grid_step :: "fp \<Rightarrow> fp \<Rightarrow> bool" where
  "grid_step a b \<longleftrightarrow>
     is_fin (f_sub f32 b a) \<and> 0 < fval (f_sub f32 b a) \<and> fval b - fval a = fval (f_sub f32 b a)"

definition grid :: "fp list \<Rightarrow> bool" where
  "grid ts \<longleftrightarrow> 2 \<le> length ts \<and> list_all is_fin ts \<and> f_le (hd ts) (last ts)
     \<and> list_all (\<lambda>(a, b). grid_step a b) (zip ts (tl ts))"

lemma grid_nth:
  assumes "grid ts" and "Suc i < length ts"
  shows "grid_step (ts ! i) (ts ! Suc i)"
proof -
  have "list_all (\<lambda>(a, b). grid_step a b) (zip ts (tl ts))" using assms(1) by (simp add: grid_def)
  then have "i < length (zip ts (tl ts)) \<longrightarrow> (case zip ts (tl ts) ! i of (a, b) \<Rightarrow> grid_step a b)"
    by (simp add: list_all_length)
  then show ?thesis using assms(2) by (simp add: nth_tl)
qed

lemma grid_bracket:
  assumes g: "grid ts" and x: "x \<noteq> FNaN"
  defines "t \<equiv> clamp_to ts x"
  defines "i \<equiv> bracket ts t"
  shows "Suc i < length ts \<and> is_fin t \<and> f_le (ts ! i) t \<and> f_le t (ts ! Suc i)"
proof -
  have len: "2 \<le> length ts" and fin: "\<And>j. j < length ts \<Longrightarrow> is_fin (ts ! j)"
    and "f_le (hd ts) (last ts)"
    using g by (auto simp: grid_def list_all_length)
  then have ends: "f_le (ts ! 0) (ts ! (length ts - 1))"
    using len by (subst (asm) hd_conv_nth, force, subst (asm) last_conv_nth, force)
  have c: "is_fin t \<and> f_le (ts ! 0) t \<and> f_le t (ts ! (length ts - 1))"
    unfolding t_def using len by (intro clamp_spec x fin ends) auto
  have i: "i < length ts - 1" unfolding i_def by (rule bracket_index [OF len])
  have lo: "f_le (ts ! i) t" and hi: "Suc i < length ts - 1 \<Longrightarrow> \<not> f_le (ts ! Suc i) t"
    using bracket_spec [OF len, of t] c by (simp_all add: i_def)
  have "f_le t (ts ! Suc i)"
  proof (cases "Suc i < length ts - 1")
    case True
    then show ?thesis using hi c fin [of "Suc i"] by (simp add: f_le_fin)
  next
    case False
    then have "Suc i = length ts - 1" using i by simp
    then show ?thesis using c by simp
  qed
  then show ?thesis using i c lo by simp
qed

lemma grid_frac:
  assumes g: "grid ts" and x: "x \<noteq> FNaN"
  defines "t \<equiv> clamp_to ts x"
  defines "i \<equiv> bracket ts t"
  shows "between (fp_zero f32 False) (two_pow 0) (bracket_frac ts i t)"
proof -
  note b = grid_bracket [OF g x, folded t_def, folded i_def]
  define d where "d = f_sub f32 (ts ! Suc i) (ts ! i)"
  have d: "is_fin d" "0 < fval d" "fval (ts ! Suc i) - fval (ts ! i) = fval d"
    using grid_nth [OF g, of i] b unfolding grid_step_def d_def by blast+
  have fin: "is_fin (ts ! i)" "is_fin (ts ! Suc i)" using g b by (auto simp: grid_def list_all_length)
  have le: "fval (ts ! i) \<le> fval t" "fval t \<le> fval (ts ! Suc i)" using b fin f_le_fin by blast+
  have "between (fp_zero f32 False) d (f_sub f32 t (ts ! i))"
    using le d b fin by (intro f_sub_between) (simp_all add: zero_canon [unfolded canon_def] canon_def d_def)
  then have n: "is_fin (f_sub f32 t (ts ! i))" "0 \<le> fval (f_sub f32 t (ts ! i))"
    "fval (f_sub f32 t (ts ! i)) \<le> fval d" by (simp_all add: between_def zero_canon)
  have "fval (f_sub f32 t (ts ! i)) / fval d \<le> 1" using n d by simp
  then show ?thesis unfolding bracket_frac_def d_def [symmetric]
    using n d by (intro f_div_between) (simp_all add: zero_canon two_pow_canon two_pow_val)
qed

text \<open>The steps of half a degree, at the two exponents that occur.\<close>

lemma half_degree_19:
  "n = m + 262144 \<Longrightarrow> grid_step (FFin False m (- 19)) (FFin False n (- 19))"
  by (simp add: grid_step_def fp_simps power_int_minus algebra_simps)

lemma half_degree_20:
  "n = m + 524288 \<Longrightarrow> grid_step (FFin False m (- 20)) (FFin False n (- 20))"
  by (simp add: grid_step_def fp_simps power_int_minus algebra_simps)

lemma half_degree_16: "grid_step (FFin False 16252928 (- 20)) (FFin False 8388608 (- 19))"
  by (simp add: grid_step_def fp_simps power_int_minus)

lemma Z_TEMPS_val:
  "Z_TEMPS =
    [FFin False 15728640 (- 20), FFin False 16252928 (- 20), FFin False 8388608 (- 19), FFin
     False 8650752 (- 19), FFin False 8912896 (- 19), FFin False 9175040 (- 19), FFin False
     9437184 (- 19), FFin False 9699328 (- 19), FFin False 9961472 (- 19), FFin False 10223616 (-
     19), FFin False 10485760 (- 19), FFin False 10747904 (- 19), FFin False 11010048 (- 19),
     FFin False 11272192 (- 19), FFin False 11534336 (- 19), FFin False 11796480 (- 19), FFin
     False 12058624 (- 19), FFin False 12320768 (- 19), FFin False 12582912 (- 19), FFin False
     12845056 (- 19), FFin False 13107200 (- 19), FFin False 13369344 (- 19), FFin False 13631488
     (- 19), FFin False 13893632 (- 19), FFin False 14155776 (- 19), FFin False 14417920 (- 19),
     FFin False 14680064 (- 19), FFin False 14942208 (- 19), FFin False 15204352 (- 19), FFin
     False 15466496 (- 19), FFin False 15728640 (- 19)]"
  by (simp add: Z_TEMPS_def fp_simps)

lemma Z_TEMPS_grid: "grid Z_TEMPS"
  unfolding grid_def Z_TEMPS_val
  by (simp add: half_degree_19 half_degree_20 half_degree_16 f_le_def align_def sgn_val_def)

lemma Z_PRESSURES_grid: "grid Z_PRESSURES"
  unfolding grid_def Z_PRESSURES_def grid_step_def
  by (simp add: fp_simps power_int_minus)

text \<open>Interpolating between two bounded values stays near them.\<close>

definition in_range :: "real \<Rightarrow> real \<Rightarrow> fp \<Rightarrow> bool" where
  "in_range a b x \<longleftrightarrow> is_fin x \<and> a \<le> fval x \<and> fval x \<le> b"

lemma in_rangeI:
  "between l u x \<Longrightarrow> fval l = a \<Longrightarrow> fval u = b \<Longrightarrow> in_range a b x"
  by (simp add: in_range_def between_def)

lemma bound_vals:
  "canon f32 (FFin True 8388608 (- 30))" "fval (FFin True 8388608 (- 30)) = - 1 / 128"
  "canon f32 (FFin False 8388608 (- 30))" "fval (FFin False 8388608 (- 30)) = 1 / 128"
  "canon f32 (FFin True 8388608 (- 28))" "fval (FFin True 8388608 (- 28)) = - 1 / 32"
  "canon f32 (FFin False 8388608 (- 28))" "fval (FFin False 8388608 (- 28)) = 1 / 32"
  "canon f32 (FFin False 8388608 (- 23))" "fval (FFin False 8388608 (- 23)) = 1"
  "canon f32 (FFin False 8454144 (- 23))" "fval (FFin False 8454144 (- 23)) = 129 / 128"
  "canon f32 (FFin False 16646144 (- 24))" "fval (FFin False 16646144 (- 24)) = 127 / 128"
  "canon f32 (FFin False 8519680 (- 23))" "fval (FFin False 8519680 (- 23)) = 65 / 64"
  "canon f32 (FFin False 16121856 (- 24))" "fval (FFin False 16121856 (- 24)) = 123 / 128"
  "canon f32 (FFin False 8781824 (- 23))" "fval (FFin False 8781824 (- 23)) = 67 / 64"
  by (simp_all add: canon_def f32_def sgn_val_def power_int_minus)

lemma mul_unit_abs:
  fixes x t h :: real
  assumes "- h \<le> x" "x \<le> h" "0 \<le> t" "t \<le> 1"
  shows "- h \<le> x * t" and "x * t \<le> h"
proof -
  have "\<bar>x * t\<bar> \<le> h * 1"
    unfolding abs_mult using assms by (intro mult_mono) auto
  then show "- h \<le> x * t" and "x * t \<le> h" by auto
qed

lemma lerp_in_range:
  assumes a: "in_range la ua a" and b: "in_range la ua b" and t: "in_range 0 1 t"
    and h: "canon f32 nh" "canon f32 ph" "fval nh = - h" "fval ph = h" "ua - la \<le> h"
    and o: "canon f32 lo" "canon f32 hi" "fval lo = la - h" "fval hi = ua + h"
  shows "in_range (la - h) (ua + h) (lerp a b t)"
proof -
  have "between nh ph (f_sub f32 b a)"
    using a b h by (intro f_sub_between) (auto simp: in_range_def)
  then have d: "is_fin (f_sub f32 b a)" "- h \<le> fval (f_sub f32 b a)" "fval (f_sub f32 b a) \<le> h"
    using h by (auto simp: between_def)
  note m = mul_unit_abs [OF d(2,3), of "fval t"]
  have "between nh ph (f_mul f32 (f_sub f32 b a) t)"
    using d(1) t h m by (intro f_mul_between) (auto simp: in_range_def)
  then have p: "is_fin (f_mul f32 (f_sub f32 b a) t)" "- h \<le> fval (f_mul f32 (f_sub f32 b a) t)"
      "fval (f_mul f32 (f_sub f32 b a) t) \<le> h"
    using h by (auto simp: between_def)
  have "between lo hi (lerp a b t)"
    unfolding lerp_def using a p o by (intro f_add_between) (auto simp: in_range_def)
  then show ?thesis using o by (auto intro: in_rangeI)
qed

lemma z_entry:
  assumes "10000 \<le> z" and "z \<le> 10078"
  shows "in_range 1 (129 / 128) (f32_lit z 4)"
proof -
  have z: "real (nat \<bar>z\<bar>) = real_of_int z" "\<not> z < 0" using assms by simp_all
  have "10000 \<le> real_of_int z" "real_of_int z \<le> 10078" using assms by simp_all
  then have "between (FFin False 8388608 (- 23)) (FFin False 8454144 (- 23))
      (fp_round f32 False (nat \<bar>z\<bar>) (10 ^ 4))"
    using bound_vals z
    by (intro fp_round_between [OF f32_def, where v = "real_of_int z / 10 ^ 4"]) simp_all
  then show ?thesis using bound_vals z by (auto simp: f32_lit_def intro: in_rangeI)
qed

lemma Z_TABLE_entries:
  assumes "i < 31" and "j < 6"
  shows "in_range 1 (129 / 128) (Z_TABLE ! i ! j)"
proof -
  have "list_all (\<lambda>row. length row = 6 \<and> list_all (in_range 1 (129 / 128)) row) Z_TABLE"
    unfolding Z_TABLE_def by (simp add: z_entry)
  moreover have "length Z_TABLE = 31" unfolding Z_TABLE_def by simp
  ultimately show ?thesis using assms by (simp add: list_all_length)
qed

lemma frac_in_range:
  "grid ts \<Longrightarrow> x \<noteq> FNaN \<Longrightarrow>
     in_range 0 1 (bracket_frac ts (bracket ts (clamp_to ts x)) (clamp_to ts x))"
  by (drule (1) grid_frac) (auto intro: in_rangeI simp: zero_canon two_pow_val)

text \<open>For every temperature and pressure that is not NaN, infinite or far outside the table
  included, the Z factor reads the table inside its bounds, at the two rows and two columns that
  enclose the clamped temperature and pressure, and the interpolated value is a finite number
  within five per cent of one.\<close>

theorem z_factor_safe:
  assumes "temperature \<noteq> FNaN" and "pressure \<noteq> FNaN"
  shows "(let t = clamp_to Z_TEMPS temperature; ti = bracket Z_TEMPS t
          in ti < 30 \<and> f_le (Z_TEMPS ! ti) t \<and> f_le t (Z_TEMPS ! Suc ti))
    \<and> (let p = clamp_to Z_PRESSURES pressure; pi = bracket Z_PRESSURES p
       in pi < 5 \<and> f_le (Z_PRESSURES ! pi) p \<and> f_le p (Z_PRESSURES ! Suc pi))
    \<and> is_fin (getZFactor temperature pressure)
    \<and> 95 / 100 \<le> fval (getZFactor temperature pressure)
    \<and> fval (getZFactor temperature pressure) \<le> 105 / 100"
proof -
  define t where "t = clamp_to Z_TEMPS temperature"
  define p where "p = clamp_to Z_PRESSURES pressure"
  define ti where "ti = bracket Z_TEMPS t"
  define pi where "pi = bracket Z_PRESSURES p"
  have len: "length Z_TEMPS = 31" "length Z_PRESSURES = 6"
    by (simp_all add: Z_TEMPS_def Z_PRESSURES_def)
  note bt = grid_bracket [OF Z_TEMPS_grid assms(1), folded t_def, folded ti_def, unfolded len]
  note bp = grid_bracket [OF Z_PRESSURES_grid assms(2), folded p_def, folded pi_def, unfolded len]
  note ft = frac_in_range [OF Z_TEMPS_grid assms(1), folded t_def, folded ti_def]
  note fp = frac_in_range [OF Z_PRESSURES_grid assms(2), folded p_def, folded pi_def]
  have row: "in_range (127 / 128) (65 / 64) (lerp (Z_TABLE ! i ! pi) (Z_TABLE ! i ! Suc pi) (bracket_frac Z_PRESSURES pi p))"
    if "i < 31" for i
    using lerp_in_range [OF Z_TABLE_entries Z_TABLE_entries fp bound_vals(1,3), of i pi i "Suc pi" "1 / 128"
        "FFin False 16646144 (- 24)" "FFin False 8519680 (- 23)"] that bp bound_vals
    by simp
  have "in_range (123 / 128) (67 / 64) (lerp (lerp (Z_TABLE ! ti ! pi) (Z_TABLE ! ti ! Suc pi) (bracket_frac Z_PRESSURES pi p))
      (lerp (Z_TABLE ! Suc ti ! pi) (Z_TABLE ! Suc ti ! Suc pi) (bracket_frac Z_PRESSURES pi p))
      (bracket_frac Z_TEMPS ti t))"
    using lerp_in_range [OF row row ft bound_vals(5,7), of ti "Suc ti" "1 / 32"
        "FFin False 16121856 (- 24)" "FFin False 8781824 (- 23)"] bt bound_vals
    by simp
  then have "in_range (123 / 128) (67 / 64) (getZFactor temperature pressure)"
    by (simp add: getZFactor_def Let_def t_def p_def ti_def pi_def)
  with bt bp show ?thesis
    by (simp add: in_range_def t_def [symmetric] p_def [symmetric] ti_def [symmetric] pi_def [symmetric] Let_def)
qed

theorem z_factor_safe_witness:
  "is_fin (getZFactor (FInf False) (FFin False 0 0))
    \<and> 95 / 100 \<le> fval (getZFactor (FInf False) (FFin False 0 0))"
  using z_factor_safe [of "FInf False" "FFin False 0 0"] by simp

subsection \<open>Calibration runs\<close>

lemma half_max_defined:
  "\<exists>w. f_to_u16 (f_add f32 (f_div f32 (f_of_int f32 (uint (m::u16))) (f32_lit 20 1)) (f32_lit 5 1)) = Some w"
proof -
  have m: "0 \<le> uint m" "uint m \<le> 2 ^ 16" using uint_lt2p [of m] by simp_all
  then have "real_of_int (uint m) \<le> real_of_int (2 ^ 16)" by (simp only: of_int_le_iff)
  then have "real_of_int (uint m) \<le> 2 powi 16" by simp
  moreover have "0 \<le> real_of_int (uint m)" using m(1) by (simp only: of_int_0_le_iff)
  ultimately have "between (fp_zero f32 False) (two_pow 16) (f_of_int f32 (uint m))"
    using m by (intro f_of_int_between) (simp_all add: zero_canon two_pow_canon two_pow_val)
  then have i: "is_fin (f_of_int f32 (uint m))" "0 \<le> fval (f_of_int f32 (uint m))"
      "fval (f_of_int f32 (uint m)) \<le> 2 powi 16"
    by (simp_all add: between_def zero_canon two_pow_val)
  have "is_fin (f_div f32 (f_of_int f32 (uint m)) (f32_lit 20 1))
      \<and> 0 \<le> fval (f_div f32 (f_of_int f32 (uint m)) (f32_lit 20 1))
      \<and> fval (f_div f32 (f_of_int f32 (uint m)) (f32_lit 20 1)) \<le> 2 powi 15"
    using i lit_vals(9) by (intro div_range [of _ 16 _ 1]) simp_all
  moreover define x where "x = f_add f32 (f_div f32 (f_of_int f32 (uint m)) (f32_lit 20 1)) (f32_lit 5 1)"
  moreover have top: "canon f32 (FFin False 8388864 (- 8))" "fval (FFin False 8388864 (- 8)) = 32769"
    by (simp_all add: canon_def f32_def sgn_val_def power_int_minus)
  ultimately have "between (fp_zero f32 False) (FFin False 8388864 (- 8)) x"
    unfolding x_def using lit_vals(1) by (intro f_add_between) (simp_all add: zero_canon del: fval.simps)
  then obtain k where "f_trunc x = Some (int k)" "k \<le> 32769"
    using f_trunc_bounds [of x 32769] top by (auto simp: between_def zero_canon)
  then show ?thesis by (auto simp: f_to_u16_def to_range_def x_def)
qed

text \<open>Planning a calibration run, for the maximum frequency the callers pass (a 16-bit
  integer), is always defined.  It rejects exactly an unknown mode, a busy burette, or a speed run
  without a frequency; an accepted dose run moves at no less than 15 ml/min unless the
  coefficient makes the product NaN, and a run keeps the requested frequency.\<close>

theorem planCalRun_decides:
  "\<exists>p. planCalRun mode speed freq (f_of_int f32 (uint (maxF::u16))) coeff busy = Some p
    \<and> (crp_action p = CalRunAction.Reject \<longleftrightarrow>
         (if mode \<in> {Some ''dose'', Some ''speed''} then busy \<or> (mode = Some ''speed'' \<and> freq = 0)
          else True))
    \<and> (crp_rejectReason p = CalRunRejectReason.BuretteBusy \<longleftrightarrow>
         mode \<in> {Some ''dose'', Some ''speed''} \<and> busy)
    \<and> (crp_action p = CalRunAction.CalDose \<longleftrightarrow> mode = Some ''dose'' \<and> \<not> busy)
    \<and> (case crp_action p of
         CalRunAction.Reject \<Rightarrow> crp_freqHz p = 0
       | CalRunAction.CalDose \<Rightarrow>
           \<not> f_lt (crp_speedMlMin p) MIN_CAL_SPEED_ML_MIN \<and> crp_freqHz p \<in> (if freq = 0 then UNIV else {freq})
       | CalRunAction.CalSpeed \<Rightarrow> crp_freqHz p = freq)"
  using half_max_defined [of maxF] by (auto simp: planCalRun_def crp_reject_def Let_def)

end
