(* ===== verification/Volume_Tracking.thy ===== *)
theory Volume_Tracking
  imports Calibration
begin

text \<open>
  Invariants of the numerical components over whole runs: the volume tracker keeps the
  tracked volume inside the syringe whatever sequence of events it sees, and the speed
  calibration never reports a coefficient of determination above one.
\<close>

subsection \<open>The tracked volume stays inside the syringe\<close>

datatype tracker_event =
  FillComplete | EmptyComplete | DoseComplete fp | StopDuringFill i32 | StopDuringEmpty i32
| HomingComplete

text \<open>The callers pass the tracked volume at the start of the interrupted move.\<close>

fun tracker_step :: "CalibrationData \<Rightarrow> tracker_event \<Rightarrow> fp \<Rightarrow> fp" where
  "tracker_step cal FillComplete v = onFillComplete cal v"
| "tracker_step cal EmptyComplete v = onEmptyComplete v"
| "tracker_step cal (DoseComplete d) v = onDoseComplete d v"
| "tracker_step cal (StopDuringFill n) v = onStopDuringFill v n cal v"
| "tracker_step cal (StopDuringEmpty n) v = onStopDuringEmpty v n cal v"
| "tracker_step cal HomingComplete v = onHomingComplete cal v"

fun event_ok :: "tracker_event \<Rightarrow> bool" where
  "event_ok (DoseComplete d) = nonneg d"
| "event_ok (StopDuringFill n) = (0 \<le> sint n)"
| "event_ok (StopDuringEmpty n) = (0 \<le> sint n)"
| "event_ok _ = True"

definition cal_ok :: "CalibrationData \<Rightarrow> bool" where
  "cal_ok cal \<longleftrightarrow> canon f32 (nominalVolumeMl cal) \<and> nonneg (nominalVolumeMl cal)
     \<and> is_fin (stepsPerMl cal) \<and> f_lt (fp_zero f32 False) (stepsPerMl cal)"

definition tracked_ok :: "CalibrationData \<Rightarrow> fp \<Rightarrow> bool" where
  "tracked_ok cal v \<longleftrightarrow> canon f32 v \<and> nonneg v \<and> f_le v (nominalVolumeMl cal)"

lemma zero_fin [simp]: "is_fin (fp_zero F s)" "fval (fp_zero F s) = 0"
  by (simp_all add: fp_zero_def sgn_val_def)

lemma zero_tracked: "cal_ok cal \<Longrightarrow> tracked_ok cal (fp_zero f32 False)"
proof -
  assume c: "cal_ok cal"
  then have n: "is_fin (nominalVolumeMl cal)" "nonneg (nominalVolumeMl cal)"
    by (simp_all add: cal_ok_def canon_def)
  then have "0 \<le> fval (nominalVolumeMl cal)" by (simp add: nonneg_fin)
  then have "f_le (fp_zero f32 False) (nominalVolumeMl cal)"
    using f_le_fin [of "fp_zero f32 False" "nominalVolumeMl cal"] n by simp
  then show ?thesis by (simp add: tracked_ok_def zero_canon)
qed

lemma nominal_tracked: "cal_ok cal \<Longrightarrow> tracked_ok cal (nominalVolumeMl cal)"
  by (simp add: cal_ok_def tracked_ok_def f_le_fin canon_def)

lemma steps_quotient:
  fixes n :: i32
  assumes "cal_ok cal" and "0 \<le> sint n"
  shows "nonneg (f_div f32 (f_of_int f32 (sint n)) (stepsPerMl cal))"
proof -
  define x where "x = f_of_int f32 (sint n)"
  have x: "nonneg x" using assms(2) by (simp add: x_def f_of_int_def not_less)
  have "sint n \<le> 2 ^ 31" using sint_less [of n] by simp
  then have "real_of_int (sint n) \<le> real_of_int (2 ^ 31)" by (simp only: of_int_le_iff)
  moreover have "0 \<le> real_of_int (sint n)" using assms(2) by (simp only: of_int_0_le_iff)
  ultimately have "between (fp_zero f32 False) (two_pow 31) x"
    unfolding x_def by (intro f_of_int_between) (simp_all add: zero_canon two_pow_canon two_pow_val)
  then have fin: "is_fin x" by (simp add: between_def)
  obtain t m e where y: "stepsPerMl cal = FFin t m e"
    using assms(1) by (cases "stepsPerMl cal") (auto simp: cal_ok_def)
  have y0: "f_lt (fp_zero f32 False) (stepsPerMl cal)" using assms(1) by (simp add: cal_ok_def)
  have "m \<noteq> 0"
  proof
    assume "m = 0"
    then show False using y0 by (simp add: y fp_zero_def align_def sgn_val_def split: if_splits)
  qed
  then have "f_div f32 x (stepsPerMl cal) \<noteq> FNaN"
    using fin by (cases x) (auto simp: y fp_round_exp_def fp_round_def fp_zero_def fp_pack_def f32_def Let_def)
  then show ?thesis using nonneg_div [OF x y0, of f32] by (simp add: x_def)
qed

lemma below_nominal:
  assumes "nonneg v'" and "\<not> f_lt (nominalVolumeMl cal) v'" and "cal_ok cal"
  shows "is_fin v' \<and> f_le v' (nominalVolumeMl cal)"
proof -
  have n: "is_fin (nominalVolumeMl cal)" using assms(3) by (simp add: cal_ok_def canon_def)
  have v: "v' \<noteq> FNaN" and i: "v' \<noteq> FInf True" using assms(1) by auto
  have "v' \<noteq> FInf False" using assms(2) n by (cases "nominalVolumeMl cal") auto
  then have "is_fin v'" using v i by (cases v') auto
  then show ?thesis using assms(2) n by (simp add: f_lt_fin f_le_fin)
qed

lemma sub_tracked:
  assumes "tracked_ok cal v" and "nonneg d" and "cal_ok cal"
  shows "tracked_ok cal (if f_lt (f_sub f32 v d) (fp_zero f32 False) then fp_zero f32 False else f_sub f32 v d)"
proof (cases "f_lt (f_sub f32 v d) (fp_zero f32 False)")
  case True
  then show ?thesis using zero_tracked [OF assms(3)] by simp
next
  case False
  have v: "canon f32 v" "nonneg v" "f_le v (nominalVolumeMl cal)" using assms(1) by (simp_all add: tracked_ok_def)
  have n: "is_fin (nominalVolumeMl cal)" "is_fin v"
    using assms(3) v by (simp_all add: cal_ok_def canon_def)
  have "f_sub f32 v d \<noteq> FInf True" using False by (auto simp: fp_zero_def)
  then have s: "is_fin (f_sub f32 v d)" "fval (f_sub f32 v d) \<le> fval v"
    using f_sub_le [OF fmt_ok_f32 v(1,2) assms(2)] by auto
  have "f_sub f32 v d \<noteq> FNaN" using s(1) by auto
  then have "nonneg (f_sub f32 v d)" using False by (simp add: f_lt_zero_iff)
  then show ?thesis using False s v n by (simp add: tracked_ok_def canon_def f_le_fin)
qed

lemma tracker_step_ok:
  assumes "cal_ok cal" and "event_ok e" and "tracked_ok cal v"
  shows "tracked_ok cal (tracker_step cal e v)"
proof (cases e)
  case (StopDuringFill n)
  define q where "q = f_div f32 (f_of_int f32 (sint n)) (stepsPerMl cal)"
  have "nonneg q" unfolding q_def using assms(2) StopDuringFill by (intro steps_quotient [OF assms(1)]) simp
  then have s: "nonneg (f_add f32 v q)" using assms(3) by (simp add: tracked_ok_def nonneg_add)
  show ?thesis
  proof (cases "f_lt (nominalVolumeMl cal) (f_add f32 v q)")
    case True
    then show ?thesis using nominal_tracked [OF assms(1)] StopDuringFill
      by (simp add: onStopDuringFill_def q_def Let_def)
  next
    case False
    then show ?thesis using below_nominal [OF s False assms(1)] s StopDuringFill
      by (simp add: onStopDuringFill_def q_def [symmetric] Let_def tracked_ok_def canon_def)
  qed
next
  case (StopDuringEmpty n)
  then show ?thesis
    using sub_tracked [OF assms(3) steps_quotient [OF assms(1), of n] assms(1)] assms(2)
    by (simp add: onStopDuringEmpty_def Let_def)
next
  case (DoseComplete d)
  then show ?thesis using sub_tracked [OF assms(3) _ assms(1), of d] assms(2)
    by (simp add: onDoseComplete_def Let_def)
qed (use nominal_tracked zero_tracked assms(1) in
    \<open>simp_all add: onFillComplete_def onEmptyComplete_def onHomingComplete_def\<close>)



subsection \<open>The coefficient of determination\<close>

lemma residuals_nonneg:
  "ols_residuals k meanV pts (a, b) = (ssRes, ssTot) \<Longrightarrow>
     (a = FNaN \<or> nonneg a) \<Longrightarrow> ssRes = FNaN \<or> nonneg ssRes"
proof (induction pts arbitrary: a b)
  case (Cons p pts)
  obtain f v where p: "p = (f, v)" by (cases p)
  define res where "res = f_sub f32 v (f_mul f32 k f)"
  have "f_add f32 a (f_mul f32 res res) = FNaN \<or> nonneg (f_add f32 a (f_mul f32 res res))"
  proof (cases "a = FNaN \<or> f_mul f32 res res = FNaN")
    case True
    then show ?thesis by (cases a; cases "f_mul f32 res res") auto
  next
    case False
    then show ?thesis using Cons.prems(2) nonneg_square [of f32 res] by (simp add: nonneg_add)
  qed
  with Cons show ?case by (simp add: p res_def Let_def)
qed simp

lemma one_minus_le: "nonneg y \<Longrightarrow> \<not> f_lt (f32_lit 10 1) (f_sub f32 (f32_lit 10 1) y)"
proof -
  assume y: "nonneg y"
  have one: "canon f32 (f32_lit 10 1)" "nonneg (f32_lit 10 1)" by (simp add: lit_canon) (simp add: lit_1)
  from f_sub_le [OF fmt_ok_f32 one y]
  show ?thesis by (auto simp: lit_1 f_lt_fin)
qed

text \<open>Whatever the measured frequencies and speeds are, the speed calibration never reports
  a coefficient of determination above one, and with fewer than two points it reports zeros.\<close>

theorem speed_calibration_r_squared:
  "\<not> f_lt (f32_lit 10 1) (ols_rSquared (calculateSpeedCalibration pts))
   \<and> (case pts of
        a # b # rest \<Rightarrow> True
      | _ \<Rightarrow> calculateSpeedCalibration pts = \<lparr>ols_k = fp_zero f32 False, ols_rSquared = fp_zero f32 False\<rparr>)"
proof
  have z: "\<not> f_lt (f32_lit 10 1) (fp_zero f32 False)"
    using lit_vals(8) by (simp add: f_lt_fin)
  show "\<not> f_lt (f32_lit 10 1) (ols_rSquared (calculateSpeedCalibration pts))"
  proof (rule ccontr)
    assume A: "\<not> \<not> f_lt (f32_lit 10 1) (ols_rSquared (calculateSpeedCalibration pts))"
    then obtain k m ssRes ssTot where
      r: "ols_residuals k m pts (fp_zero f32 False, fp_zero f32 False) = (ssRes, ssTot)"
      and pos: "f_lt (f32_lit 1 6) ssTot"
      and lt: "f_lt (f32_lit 10 1) (f_sub f32 (f32_lit 10 1) (f_div f32 ssRes ssTot))"
      using z by (auto simp: calculateSpeedCalibration_def Let_def split: if_splits prod.splits)
    have "f_lt (fp_zero f32 False) ssTot"
    proof (cases ssTot)
      case (FFin s m e)
      have "0 < fval (f32_lit 1 6)" using lit_vals(2) powi_pos [of "- 20"] by linarith
      then have "0 < fval ssTot" using pos FFin by (simp add: f_lt_fin del: fval.simps f_lt.simps)
      then show ?thesis using FFin by (simp add: f_lt_fin del: fval.simps f_lt.simps)
    qed (use pos lit_e6 in \<open>auto simp: fp_zero_def\<close>)
    moreover have "ssRes = FNaN \<or> nonneg ssRes" by (rule residuals_nonneg [OF r]) simp
    ultimately have "f_div f32 ssRes ssTot = FNaN \<or> nonneg (f_div f32 ssRes ssTot)"
      using nonneg_div [of ssRes f32 ssTot f32] by auto
    then show False using lt one_minus_le by (auto simp: f_sub_def lit_1)
  qed
  show "case pts of a # b # rest \<Rightarrow> True
      | _ \<Rightarrow> calculateSpeedCalibration pts = \<lparr>ols_k = fp_zero f32 False, ols_rSquared = fp_zero f32 False\<rparr>"
    by (auto simp: calculateSpeedCalibration_def Let_def split: list.splits)
qed

end
