(* ===== verification/Cycle_SMs.thy ===== *)
theory Cycle_SMs
  imports Calibration "HOL-Library.Sublist"
begin

text \<open>
  The cycle state machines the motor task runs: the rinse cycle (\<^verbatim>\<open>domain/rinse_sm.hpp\<close>), the
  calibration dose (\<^verbatim>\<open>domain/cal_dose_sm.hpp\<close>), and the single and sequenced speed
  calibrations (\<^verbatim>\<open>domain/cal_speed_sm.hpp\<close>).  Each is a record and one function per event;
  the runs at the end of each section feed a machine the events its runner feeds it.
\<close>

subsection \<open>Rinse\<close>

datatype RinseAction = FillToLimit | EmptyToLimit | Complete | Error

datatype RinsePhase = PreFill | Emptying | Filling | Done

record RinseSm =
  rs_totalCycles :: u8
  rs_currentCycle :: u8
  rs_phase :: RinsePhase
  rs_started :: bool

definition rinse_start :: "u8 \<Rightarrow> fp \<Rightarrow> fp \<Rightarrow> RinseSm" where
  "rinse_start cycles currentVolumeMl nominalMl =
     \<lparr>rs_totalCycles = cycles, rs_currentCycle = 1,
      rs_phase =
        (if f_lt currentVolumeMl (f_sub f32 nominalMl (f32_lit 1 2)) then RinsePhase.PreFill
         else RinsePhase.Emptying),
      rs_started = True\<rparr>"

definition rinse_onMotorComplete :: "RinseSm \<Rightarrow> RinseSm \<times> RinseAction" where
  "rinse_onMotorComplete m =
     (if \<not> rs_started m then (m, RinseAction.Error)
      else case rs_phase m of
        RinsePhase.PreFill \<Rightarrow> (m\<lparr>rs_phase := RinsePhase.Emptying\<rparr>, RinseAction.EmptyToLimit)
      | RinsePhase.Emptying \<Rightarrow> (m\<lparr>rs_phase := RinsePhase.Filling\<rparr>, RinseAction.FillToLimit)
      | RinsePhase.Filling \<Rightarrow>
          (let m1 = m\<lparr>rs_currentCycle := rs_currentCycle m + 1\<rparr>
           in if rs_currentCycle m1 > rs_totalCycles m1
              then (m1\<lparr>rs_phase := RinsePhase.Done, rs_started := False\<rparr>, RinseAction.Complete)
              else (m1, RinseAction.EmptyToLimit))
      | RinsePhase.Done \<Rightarrow> (m, RinseAction.Complete))"

definition rinse_isComplete :: "RinseSm \<Rightarrow> bool" where
  "rinse_isComplete m \<longleftrightarrow> rs_phase m = RinsePhase.Done"

text \<open>\<open>n\<close> motor completions.\<close>

fun rinse_run :: "nat \<Rightarrow> RinseSm \<Rightarrow> RinseSm \<times> RinseAction list" where
  "rinse_run 0 m = (m, [])"
| "rinse_run (Suc n) m =
     (let (m1, a) = rinse_onMotorComplete m; (m2, as) = rinse_run n m1 in (m2, a # as))"

lemma u8_succ: "c < 255 \<Longrightarrow> unat (c + 1 :: u8) = unat c + 1"
  by (simp add: unat_word_ariths word_less_nat_alt)

lemma rinse_filling_run:
  assumes "rs_phase m = RinsePhase.Filling" and "rs_started m"
    and "unat (rs_currentCycle m) + k = unat (rs_totalCycles m)" and "rs_totalCycles m < 255"
  shows "snd (rinse_run (Suc k) m) = replicate k RinseAction.EmptyToLimit @ [RinseAction.Complete]
    \<and> rs_phase (fst (rinse_run (Suc k) m)) = RinsePhase.Done"
  using assms
proof (induction k arbitrary: m)
  case 0
  then have "rs_currentCycle m = rs_totalCycles m" by (simp add: word_unat_eq_iff)
  moreover have "rs_totalCycles m < rs_totalCycles m + 1"
    using u8_succ [OF "0.prems"(4)] by (simp add: word_less_nat_alt)
  ultimately show ?case using 0 by (simp add: rinse_onMotorComplete_def Let_def)
next
  case (Suc k)
  have "rs_currentCycle m < 255" using Suc.prems by (simp add: word_less_nat_alt)
  then have c: "unat (rs_currentCycle m + 1) = unat (rs_currentCycle m) + 1" by (rule u8_succ)
  then have le: "\<not> rs_totalCycles m < rs_currentCycle m + 1"
    using Suc.prems by (simp add: word_less_nat_alt)
  define m1 where "m1 = m\<lparr>rs_currentCycle := rs_currentCycle m + 1\<rparr>"
  have step: "rinse_onMotorComplete m = (m1, RinseAction.EmptyToLimit)"
    using Suc.prems le by (simp add: rinse_onMotorComplete_def m1_def)
  have "snd (rinse_run (Suc k) m1) = replicate k RinseAction.EmptyToLimit @ [RinseAction.Complete]
      \<and> rs_phase (fst (rinse_run (Suc k) m1)) = RinsePhase.Done"
    using Suc.prems c by (intro Suc.IH) (simp_all add: m1_def)
  then show ?case
    unfolding rinse_run.simps(2) [of "Suc k" m] step by (simp add: case_prod_beta)
qed

lemma rinse_trace:
  assumes "0 < cycles" and "cycles < (255 :: u8)"
  shows "if f_lt cur (f_sub f32 nom (f32_lit 1 2))
    then snd (rinse_run (unat cycles + 2) (rinse_start cycles cur nom)) =
      RinseAction.EmptyToLimit # RinseAction.FillToLimit
        # replicate (unat cycles - 1) RinseAction.EmptyToLimit @ [RinseAction.Complete]
    else snd (rinse_run (unat cycles + 1) (rinse_start cycles cur nom)) =
      RinseAction.FillToLimit # replicate (unat cycles - 1) RinseAction.EmptyToLimit
        @ [RinseAction.Complete]"
proof -
  define m where "m = \<lparr>rs_totalCycles = cycles, rs_currentCycle = 1, rs_phase = RinsePhase.Filling, rs_started = True\<rparr>"
  obtain k where k: "unat cycles = Suc k"
    using assms(1) by (cases "unat cycles") (simp_all add: unat_eq_0)
  have tail: "snd (rinse_run (Suc k) m) = replicate k RinseAction.EmptyToLimit @ [RinseAction.Complete]"
    using rinse_filling_run [of m k] k assms(2) by (simp add: m_def)
  define e where "e = \<lparr>rs_totalCycles = cycles, rs_currentCycle = 1, rs_phase = RinsePhase.Emptying, rs_started = True\<rparr>"
  define f where "f = \<lparr>rs_totalCycles = cycles, rs_currentCycle = 1, rs_phase = RinsePhase.PreFill, rs_started = True\<rparr>"
  have "rinse_onMotorComplete f = (e, RinseAction.EmptyToLimit)"
    and "rinse_onMotorComplete e = (m, RinseAction.FillToLimit)"
    by (simp_all add: rinse_onMotorComplete_def e_def f_def m_def)
  with tail have runs:
    "snd (rinse_run (Suc (Suc k)) e) =
      RinseAction.FillToLimit # replicate k RinseAction.EmptyToLimit @ [RinseAction.Complete]"
    "snd (rinse_run (Suc (Suc (Suc k))) f) =
      RinseAction.EmptyToLimit # RinseAction.FillToLimit # replicate k RinseAction.EmptyToLimit @ [RinseAction.Complete]"
    by (simp_all only: rinse_run.simps(2) [of "Suc k"] rinse_run.simps(2) [of "Suc (Suc k)"]
        case_prod_beta Let_def fst_conv snd_conv)
  have idx: "unat cycles + 2 = Suc (Suc (Suc k))" "unat cycles + 1 = Suc (Suc k)" "unat cycles - 1 = k"
    using k by simp_all
  have st: "rinse_start cycles cur nom = (if f_lt cur (f_sub f32 nom (f32_lit 1 2)) then f else e)"
    by (simp add: rinse_start_def e_def f_def)
  show ?thesis unfolding idx st using runs by (simp only: if_True if_False split: if_split) simp
qed

text \<open>A rinse of \<open>n\<close> cycles, for \<open>n\<close> between 1 and 254, ends after \<open>n + 1\<close> motor completions
  (\<open>n + 2\<close> when the syringe was not full and had to be filled first).  The moves it commands
  are one fill and then \<open>n - 1\<close> empties: after the first cycle the machine never commands
  another fill.\<close>

theorem rinse_run_trace:
  assumes "0 < cycles" and "cycles < (255 :: u8)"
  shows "if f_lt cur (f_sub f32 nom (f32_lit 1 2))
    then snd (rinse_run (unat cycles + 2) (rinse_start cycles cur nom)) =
      RinseAction.EmptyToLimit # RinseAction.FillToLimit
        # replicate (unat cycles - 1) RinseAction.EmptyToLimit @ [RinseAction.Complete]
    else snd (rinse_run (unat cycles + 1) (rinse_start cycles cur nom)) =
      RinseAction.FillToLimit # replicate (unat cycles - 1) RinseAction.EmptyToLimit
        @ [RinseAction.Complete]"
  by (rule rinse_trace [OF assms])

theorem rinse_run_trace_witness:
  "snd (rinse_run 4 (rinse_start 3 (fp_zero f32 False) (fp_zero f32 False))) =
     [RinseAction.FillToLimit, RinseAction.EmptyToLimit, RinseAction.EmptyToLimit, RinseAction.Complete]"
proof -
  have "\<not> f_lt (fp_zero f32 False) (f_sub f32 (fp_zero f32 False) (f32_lit 1 2))"
    by (simp add: fp_simps)
  moreover have "replicate 2 x = [x, x]" for x :: RinseAction by (simp add: numeral_2_eq_2)
  moreover have "unat (3 :: u8) = 3" by simp
  ultimately show ?thesis
    using rinse_run_trace [of 3 "fp_zero f32 False" "fp_zero f32 False"] by simp
qed

text \<open>With 255 cycles the 8-bit counter wraps before it exceeds the total.\<close>

lemma rinse_filling_255:
  assumes "rs_totalCycles m = 255" and "rs_phase m = RinsePhase.Filling" and "rs_started m"
  shows "snd (rinse_run n m) = replicate n RinseAction.EmptyToLimit"
  using assms
proof (induction n arbitrary: m)
  case (Suc n)
  have "unat (rs_currentCycle m + 1) < 2 ^ LENGTH(8)" by (rule unsigned_less)
  then have "\<not> rs_totalCycles m < rs_currentCycle m + 1"
    using Suc.prems(1) by (simp add: not_less word_le_nat_alt)
  then have "rinse_onMotorComplete m =
      (m\<lparr>rs_currentCycle := rs_currentCycle m + 1\<rparr>, RinseAction.EmptyToLimit)"
    using Suc.prems by (simp add: rinse_onMotorComplete_def)
  then show ?case using Suc.IH [of "m\<lparr>rs_currentCycle := rs_currentCycle m + 1\<rparr>"] Suc.prems
    by (simp add: case_prod_beta)
qed simp

text \<open>A rinse of 255 cycles never completes: the cycle counter wraps from 255 to 0 before it
  can exceed the total, so after any number of motor completions the machine has commanded
  only moves.\<close>

theorem rinse_255_never_completes:
  "RinseAction.Complete \<notin> set (snd (rinse_run n (rinse_start 255 cur nom)))"
proof -
  define m where "m = \<lparr>rs_totalCycles = (255 :: u8), rs_currentCycle = 1, rs_phase = RinsePhase.Filling, rs_started = True\<rparr>"
  define e where "e = \<lparr>rs_totalCycles = (255 :: u8), rs_currentCycle = 1, rs_phase = RinsePhase.Emptying, rs_started = True\<rparr>"
  have m: "RinseAction.Complete \<notin> set (snd (rinse_run k m))" for k
    using rinse_filling_255 [of m k] by (simp add: m_def)
  have e: "RinseAction.Complete \<notin> set (snd (rinse_run k e))" for k
    using m by (cases k) (simp_all add: rinse_onMotorComplete_def e_def m_def case_prod_beta)
  define f where "f = \<lparr>rs_totalCycles = (255 :: u8), rs_currentCycle = 1, rs_phase = RinsePhase.PreFill, rs_started = True\<rparr>"
  have f: "RinseAction.Complete \<notin> set (snd (rinse_run k f))" for k
    using e by (cases k) (simp_all add: rinse_onMotorComplete_def f_def e_def case_prod_beta)
  have "rinse_start 255 cur nom = (if f_lt cur (f_sub f32 nom (f32_lit 1 2)) then f else e)"
    by (simp add: rinse_start_def e_def f_def)
  then show ?thesis using e f by simp
qed

subsection \<open>Calibration dose\<close>

datatype CalDoseAction = FillToLimit | EmptyToLimit | Complete | Error

datatype CalDosePhase = Idle | Filling | Emptying | Done

record CalDoseSm =
  cd_phase :: CalDosePhase
  cd_stepsBefore :: i32
  cd_stepsTaken :: i32
  cd_started :: bool

definition cal_dose_start :: CalDoseSm where
  "cal_dose_start =
     \<lparr>cd_phase = CalDosePhase.Idle, cd_stepsBefore = 0, cd_stepsTaken = 0, cd_started = True\<rparr>"

definition cal_dose_onStart :: "fp \<Rightarrow> fp \<Rightarrow> CalDoseSm \<Rightarrow> CalDoseSm \<times> CalDoseAction" where
  "cal_dose_onStart currentVolumeMl nominalMl m =
     (if \<not> cd_started m then (m, CalDoseAction.Error)
      else if f_lt currentVolumeMl (f_sub f32 nominalMl (f32_lit 1 1))
      then (m\<lparr>cd_phase := CalDosePhase.Filling\<rparr>, CalDoseAction.FillToLimit)
      else (m\<lparr>cd_phase := CalDosePhase.Emptying\<rparr>, CalDoseAction.EmptyToLimit))"

definition cal_dose_onFillComplete :: "i32 \<Rightarrow> CalDoseSm \<Rightarrow> CalDoseSm \<times> CalDoseAction" where
  "cal_dose_onFillComplete position m =
     (m\<lparr>cd_stepsBefore := position, cd_phase := CalDosePhase.Emptying\<rparr>, CalDoseAction.EmptyToLimit)"

definition cal_dose_onEmptyComplete :: "i32 \<Rightarrow> CalDoseSm \<Rightarrow> CalDoseSm \<times> CalDoseAction" where
  "cal_dose_onEmptyComplete position m =
     (let diff = position - cd_stepsBefore m
      in (m\<lparr>cd_stepsTaken := (if 0 < sint diff then diff else - diff),
           cd_phase := CalDosePhase.Done, cd_started := False\<rparr>, CalDoseAction.Complete))"

text \<open>A whole run: \<open>fillPos\<close> and \<open>emptyPos\<close> are the positions at which the two moves end.\<close>

definition cal_dose_run :: "fp \<Rightarrow> fp \<Rightarrow> i32 \<Rightarrow> i32 \<Rightarrow> CalDoseSm \<times> CalDoseAction" where
  "cal_dose_run cur nom fillPos emptyPos =
     (let (m1, a1) = cal_dose_onStart cur nom cal_dose_start;
          (m2, a2) = (if a1 = CalDoseAction.FillToLimit then cal_dose_onFillComplete fillPos m1 else (m1, a1))
      in if a2 = CalDoseAction.EmptyToLimit then cal_dose_onEmptyComplete emptyPos m2 else (m2, a2))"

lemma abs_diff_sint:
  fixes a b :: i32
  assumes "\<bar>sint a - sint b\<bar> < 2 ^ 31"
  shows "sint (if 0 < sint (a - b) then a - b else - (a - b)) = \<bar>sint a - sint b\<bar>"
proof -
  have r: "- (2 ^ 31) \<le> sint a - sint b" "sint a - sint b < 2 ^ 31" using assms by auto
  have d: "sint (a - b) = sint a - sint b"
    using r by (simp add: sint_word_ariths signed_take_bit_int_eq_self)
  have "sint (- (a - b)) = sint b - sint a"
    using assms by (simp add: sint_word_ariths(4) d signed_take_bit_int_eq_self del: minus_diff_eq)
  then show ?thesis using d by (simp del: minus_diff_eq)
qed

text \<open>A calibration dose that had to fill first reports the distance between the two
  end positions, as long as it fits in 31 bits; one that started full reports the distance of
  the final position from zero, whatever the position was when it started.\<close>

theorem cal_dose_steps:
  assumes "\<bar>sint emptyPos - sint fillPos\<bar> < 2 ^ 31" and "\<bar>sint emptyPos\<bar> < 2 ^ 31"
  shows "snd (cal_dose_run cur nom fillPos emptyPos) = CalDoseAction.Complete
    \<and> sint (cd_stepsTaken (fst (cal_dose_run cur nom fillPos emptyPos))) =
        (if f_lt cur (f_sub f32 nom (f32_lit 1 1)) then \<bar>sint emptyPos - sint fillPos\<bar> else \<bar>sint emptyPos\<bar>)"
  using abs_diff_sint [OF assms(1)] abs_diff_sint [of emptyPos 0] assms(2)
  by (cases "0 < sint emptyPos")
    (simp_all add: cal_dose_run_def cal_dose_onStart_def cal_dose_start_def cal_dose_onFillComplete_def
      cal_dose_onEmptyComplete_def Let_def)

theorem cal_dose_steps_witness:
  "sint (cd_stepsTaken (fst (cal_dose_run (fp_zero f32 False) (f32_lit 50 0) 1280 62720))) = 61440"
proof -
  have "f_lt (fp_zero f32 False) (f_sub f32 (f32_lit 50 0) (f32_lit 1 1))"
    by (simp add: fp_simps)
  with cal_dose_steps [of 62720 1280 "fp_zero f32 False" "f32_lit 50 0"] show ?thesis
    by simp
qed

subsection \<open>Single speed calibration\<close>

datatype CalSpeedAction = FillToLimit | EmptyToLimit | Complete | Error | SettleValve

datatype CalSpeedPhase = Idle | Filling | Emptying | Done

record CalSpeedSingleSm =
  cs_phase :: CalSpeedPhase
  cs_elapsedMs :: u32
  cs_measuredSpeedMlMin :: fp
  cs_started :: bool

definition cal_speed_start :: CalSpeedSingleSm where
  "cal_speed_start =
     \<lparr>cs_phase = CalSpeedPhase.Idle, cs_elapsedMs = 0, cs_measuredSpeedMlMin = fp_zero f32 False,
      cs_started = True\<rparr>"

definition cal_speed_onStart :: "fp \<Rightarrow> fp \<Rightarrow> CalSpeedSingleSm \<Rightarrow> CalSpeedSingleSm \<times> CalSpeedAction" where
  "cal_speed_onStart currentVolumeMl nominalMl m =
     (if \<not> cs_started m then (m, CalSpeedAction.Error)
      else if f_lt currentVolumeMl (f_sub f32 nominalMl (f32_lit 1 1))
      then (m\<lparr>cs_phase := CalSpeedPhase.Filling\<rparr>, CalSpeedAction.FillToLimit)
      else (m\<lparr>cs_phase := CalSpeedPhase.Emptying\<rparr>, CalSpeedAction.EmptyToLimit))"

definition cal_speed_onFillComplete :: "u32 \<Rightarrow> CalSpeedSingleSm \<Rightarrow> CalSpeedSingleSm \<times> CalSpeedAction" where
  "cal_speed_onFillComplete nowMs m =
     (m\<lparr>cs_phase := CalSpeedPhase.Emptying, cs_elapsedMs := nowMs\<rparr>, CalSpeedAction.EmptyToLimit)"

text \<open>Millilitres per minute for a volume moved in \<open>diff\<close> milliseconds.\<close>

definition ml_per_min :: "fp \<Rightarrow> u32 \<Rightarrow> fp" where
  "ml_per_min vol diff = f_div f32 vol (f_div f32 (f_of_int f32 (uint diff)) (f32_lit 60000 0))"

definition cal_speed_onEmptyComplete ::
  "u32 \<Rightarrow> fp \<Rightarrow> CalSpeedSingleSm \<Rightarrow> CalSpeedSingleSm \<times> CalSpeedAction" where
  "cal_speed_onEmptyComplete nowMs nominalMl m =
     (let diff0 = nowMs - cs_elapsedMs m; diff = (if diff0 = 0 then 1 else diff0)
      in (m\<lparr>cs_elapsedMs := diff, cs_measuredSpeedMlMin := ml_per_min nominalMl diff,
           cs_phase := CalSpeedPhase.Done, cs_started := False\<rparr>, CalSpeedAction.Complete))"

definition cal_speed_run :: "fp \<Rightarrow> fp \<Rightarrow> u32 \<Rightarrow> u32 \<Rightarrow> CalSpeedSingleSm \<times> CalSpeedAction" where
  "cal_speed_run cur nom fillMs emptyMs =
     (let (m1, a1) = cal_speed_onStart cur nom cal_speed_start;
          (m2, a2) = (if a1 = CalSpeedAction.FillToLimit then cal_speed_onFillComplete fillMs m1 else (m1, a1))
      in if a2 = CalSpeedAction.EmptyToLimit then cal_speed_onEmptyComplete emptyMs nom m2 else (m2, a2))"

subsection \<open>Sequenced speed calibration\<close>

datatype CalSpeedSeqPhase =
  Idle | FillFirst | ValveSettleAfterFill | Empty | ValveSettleAfterEmpty | NextPoint | Done

record CalSpeedSeqSm =
  sq_phase :: CalSpeedSeqPhase
  sq_freqs :: "u16 list"
  sq_results :: "fp list"
  sq_seqIdx :: nat
  sq_elapsedMs :: u32
  sq_valveSettleStartMs :: u32
  sq_firstEver :: bool
  sq_started :: bool

definition VALVE_SWITCH_MS :: u32 where "VALVE_SWITCH_MS = 1000"
definition CAL_SEQ_POINTS :: nat where "CAL_SEQ_POINTS = 3"

definition cal_seq_start :: "u16 list \<Rightarrow> CalSpeedSeqSm" where
  "cal_seq_start freqs_in =
     \<lparr>sq_phase = CalSpeedSeqPhase.FillFirst, sq_freqs = take 3 freqs_in,
      sq_results = replicate 3 (fp_zero f32 False), sq_seqIdx = 0, sq_elapsedMs = 0,
      sq_valveSettleStartMs = 0, sq_firstEver = True, sq_started = True\<rparr>"

text \<open>\<^term>\<open>None\<close> is a write outside the array of results.\<close>

definition cal_seq_record :: "u32 \<Rightarrow> CalSpeedSeqSm \<Rightarrow> CalSpeedSeqSm outcome" where
  "cal_seq_record nowMs m =
     (let diff = nowMs - sq_elapsedMs m;
          speed = (if 0 < diff then ml_per_min (f32_lit 500 1) diff else fp_zero f32 False)
      in if sq_seqIdx m < length (sq_results m)
         then Some (m\<lparr>sq_results := (sq_results m)[sq_seqIdx m := speed], sq_seqIdx := sq_seqIdx m + 1\<rparr>)
         else None)"

definition cal_seq_onTick :: "u32 \<Rightarrow> CalSpeedSeqSm \<Rightarrow> (CalSpeedSeqSm \<times> CalSpeedAction) outcome" where
  "cal_seq_onTick nowMs m =
     (if \<not> sq_started m then Some (m, CalSpeedAction.Error)
      else case sq_phase m of
        CalSpeedSeqPhase.Idle \<Rightarrow> Some (m, CalSpeedAction.Complete)
      | CalSpeedSeqPhase.FillFirst \<Rightarrow>
          Some (m\<lparr>sq_phase := CalSpeedSeqPhase.ValveSettleAfterFill, sq_valveSettleStartMs := nowMs\<rparr>,
                CalSpeedAction.SettleValve)
      | CalSpeedSeqPhase.ValveSettleAfterFill \<Rightarrow>
          (if nowMs - sq_valveSettleStartMs m \<ge> VALVE_SWITCH_MS
           then Some (m\<lparr>sq_phase := CalSpeedSeqPhase.Empty, sq_elapsedMs := nowMs\<rparr>, CalSpeedAction.EmptyToLimit)
           else Some (m, CalSpeedAction.SettleValve))
      | CalSpeedSeqPhase.Empty \<Rightarrow>
          (case cal_seq_record nowMs m of
             None \<Rightarrow> None
           | Some m1 \<Rightarrow>
               if sq_seqIdx m1 \<ge> CAL_SEQ_POINTS
               then Some (m1\<lparr>sq_phase := CalSpeedSeqPhase.Done, sq_started := False\<rparr>, CalSpeedAction.Complete)
               else Some (m1\<lparr>sq_phase := CalSpeedSeqPhase.ValveSettleAfterEmpty,
                             sq_valveSettleStartMs := nowMs\<rparr>, CalSpeedAction.SettleValve))
      | CalSpeedSeqPhase.ValveSettleAfterEmpty \<Rightarrow>
          (if nowMs - sq_valveSettleStartMs m \<ge> VALVE_SWITCH_MS
           then Some (m\<lparr>sq_phase := CalSpeedSeqPhase.FillFirst\<rparr>, CalSpeedAction.FillToLimit)
           else Some (m, CalSpeedAction.SettleValve))
      | CalSpeedSeqPhase.NextPoint \<Rightarrow> Some (m, CalSpeedAction.Complete)
      | CalSpeedSeqPhase.Done \<Rightarrow> Some (m, CalSpeedAction.Complete))"

definition cal_seq_isComplete :: "CalSpeedSeqSm \<Rightarrow> bool" where
  "cal_seq_isComplete m \<longleftrightarrow> sq_phase m = CalSpeedSeqPhase.Done"

text \<open>The runner polls until the machine is done; \<open>ts\<close> are the times of the polls.\<close>

fun cal_seq_run :: "u32 list \<Rightarrow> CalSpeedSeqSm \<Rightarrow> (CalSpeedSeqSm \<times> CalSpeedAction list) outcome" where
  "cal_seq_run [] m = Some (m, [])"
| "cal_seq_run (t # ts) m =
     (if cal_seq_isComplete m then Some (m, [])
      else case cal_seq_onTick t m of
        None \<Rightarrow> None
      | Some (m1, a) \<Rightarrow> map_option (\<lambda>(m2, as). (m2, a # as)) (cal_seq_run ts m1))"

text \<open>The moves still to come in each phase.\<close>

fun seq_after_empty :: "nat \<Rightarrow> CalSpeedAction list" where
  "seq_after_empty 0 = []"
| "seq_after_empty (Suc 0) = [CalSpeedAction.Complete]"
| "seq_after_empty (Suc (Suc k)) =
     CalSpeedAction.FillToLimit # CalSpeedAction.EmptyToLimit # seq_after_empty (Suc k)"

definition seq_todo :: "CalSpeedSeqPhase \<Rightarrow> nat \<Rightarrow> CalSpeedAction list" where
  "seq_todo p k =
     (case p of
        CalSpeedSeqPhase.FillFirst \<Rightarrow> CalSpeedAction.EmptyToLimit # seq_after_empty k
      | CalSpeedSeqPhase.ValveSettleAfterFill \<Rightarrow> CalSpeedAction.EmptyToLimit # seq_after_empty k
      | CalSpeedSeqPhase.Empty \<Rightarrow> seq_after_empty k
      | CalSpeedSeqPhase.ValveSettleAfterEmpty \<Rightarrow>
          CalSpeedAction.FillToLimit # CalSpeedAction.EmptyToLimit # seq_after_empty k
      | _ \<Rightarrow> [])"

definition seq_inv :: "CalSpeedSeqSm \<Rightarrow> bool" where
  "seq_inv m \<longleftrightarrow>
     length (sq_results m) = 3 \<and> sq_seqIdx m \<le> 3
     \<and> sq_phase m \<notin> {CalSpeedSeqPhase.Idle, CalSpeedSeqPhase.NextPoint}
     \<and> (sq_phase m \<noteq> CalSpeedSeqPhase.Done \<longrightarrow> sq_started m \<and> sq_seqIdx m < 3)"

lemma cal_seq_onTick_inv:
  assumes "seq_inv m" and "\<not> cal_seq_isComplete m"
  shows "\<exists>m1 a. cal_seq_onTick t m = Some (m1, a) \<and> seq_inv m1 \<and> a \<noteq> CalSpeedAction.Error
    \<and> seq_todo (sq_phase m) (3 - sq_seqIdx m) =
        (if a = CalSpeedAction.SettleValve then [] else [a]) @ seq_todo (sq_phase m1) (3 - sq_seqIdx m1)"
proof -
  have idx: "sq_seqIdx m < 3" "sq_started m" "length (sq_results m) = 3"
    using assms by (auto simp: seq_inv_def cal_seq_isComplete_def)
  obtain k where k: "3 - sq_seqIdx m = Suc k" using idx by (cases "3 - sq_seqIdx m") auto
  have k1: "3 - Suc (sq_seqIdx m) = k" "k = 0 \<longleftrightarrow> 2 \<le> sq_seqIdx m" using k by auto
  show ?thesis
  proof (cases "sq_phase m")
    case Empty
    then show ?thesis using idx k k1
      by (cases k) (auto simp: cal_seq_onTick_def cal_seq_record_def Let_def seq_inv_def seq_todo_def CAL_SEQ_POINTS_def)
  qed (use assms idx k in \<open>auto simp: cal_seq_onTick_def seq_inv_def seq_todo_def cal_seq_isComplete_def\<close>)
qed

lemma seq_todo_empty:
  assumes "seq_inv m"
  shows "seq_todo (sq_phase m) (3 - sq_seqIdx m) = [] \<longleftrightarrow> cal_seq_isComplete m"
proof -
  have "3 - sq_seqIdx m = 0 \<or> (\<exists>k. 3 - sq_seqIdx m = Suc k)" by (cases "3 - sq_seqIdx m") auto
  moreover have "seq_after_empty (Suc k) \<noteq> []" for k by (cases k) simp_all
  ultimately show ?thesis using assms
    by (cases "sq_phase m") (auto simp: seq_todo_def seq_inv_def cal_seq_isComplete_def)
qed

lemma cal_seq_run_inv:
  assumes "seq_inv m"
  shows "\<exists>m' as. cal_seq_run ts m = Some (m', as) \<and> seq_inv m' \<and> CalSpeedAction.Error \<notin> set as
    \<and> seq_todo (sq_phase m) (3 - sq_seqIdx m) =
        filter (\<lambda>a. a \<noteq> CalSpeedAction.SettleValve) as @ seq_todo (sq_phase m') (3 - sq_seqIdx m')"
  using assms
proof (induction ts arbitrary: m)
  case (Cons t ts)
  show ?case
  proof (cases "cal_seq_isComplete m")
    case False
    obtain m1 a where 1: "cal_seq_onTick t m = Some (m1, a)" "seq_inv m1" "a \<noteq> CalSpeedAction.Error"
      "seq_todo (sq_phase m) (3 - sq_seqIdx m) =
        (if a = CalSpeedAction.SettleValve then [] else [a]) @ seq_todo (sq_phase m1) (3 - sq_seqIdx m1)"
      using cal_seq_onTick_inv [OF Cons.prems False] by blast
    from Cons.IH [OF 1(2)] 1 False show ?thesis by auto
  qed (use Cons.prems in auto)
qed auto

text \<open>C36.  Polled at any times, the speed sequence never writes outside its three results and
  never reports an error; leaving out the settling polls, the actions it has commanded are a
  prefix of empty, fill, empty, fill, empty, complete, and all of them once it is done.  No fill
  precedes the first empty.\<close>

theorem cal_seq_trace:
  "\<exists>m as. cal_seq_run ts (cal_seq_start freqs) = Some (m, as)
    \<and> CalSpeedAction.Error \<notin> set as
    \<and> prefix (filter (\<lambda>a. a \<noteq> CalSpeedAction.SettleValve) as)
        [CalSpeedAction.EmptyToLimit, CalSpeedAction.FillToLimit, CalSpeedAction.EmptyToLimit,
         CalSpeedAction.FillToLimit, CalSpeedAction.EmptyToLimit, CalSpeedAction.Complete]
    \<and> (cal_seq_isComplete m \<longleftrightarrow> filter (\<lambda>a. a \<noteq> CalSpeedAction.SettleValve) as =
        [CalSpeedAction.EmptyToLimit, CalSpeedAction.FillToLimit, CalSpeedAction.EmptyToLimit,
         CalSpeedAction.FillToLimit, CalSpeedAction.EmptyToLimit, CalSpeedAction.Complete])"
proof -
  define s where "s = cal_seq_start freqs"
  have inv: "seq_inv s" by (simp add: s_def seq_inv_def cal_seq_start_def)
  have all: "seq_todo (sq_phase s) (3 - sq_seqIdx s) =
      [CalSpeedAction.EmptyToLimit, CalSpeedAction.FillToLimit, CalSpeedAction.EmptyToLimit,
       CalSpeedAction.FillToLimit, CalSpeedAction.EmptyToLimit, CalSpeedAction.Complete]"
    by (simp add: s_def cal_seq_start_def seq_todo_def numeral_3_eq_3)
  from cal_seq_run_inv [OF inv] obtain m' as where r: "cal_seq_run ts s = Some (m', as)" "seq_inv m'"
    "CalSpeedAction.Error \<notin> set as"
    and t: "seq_todo (sq_phase s) (3 - sq_seqIdx s) =
      filter (\<lambda>a. a \<noteq> CalSpeedAction.SettleValve) as @ seq_todo (sq_phase m') (3 - sq_seqIdx m')" by blast
  have "prefix (filter (\<lambda>a. a \<noteq> CalSpeedAction.SettleValve) as) (seq_todo (sq_phase s) (3 - sq_seqIdx s))"
    unfolding t by simp
  moreover have "cal_seq_isComplete m' \<longleftrightarrow>
      filter (\<lambda>a. a \<noteq> CalSpeedAction.SettleValve) as = seq_todo (sq_phase s) (3 - sq_seqIdx s)"
    unfolding t using seq_todo_empty [OF r(2)] by simp
  ultimately show ?thesis using r(1,3) unfolding all unfolding s_def by blast
qed

end
