(* ===== verification/Dns.thy ===== *)
theory Dns
  imports Domain_Types
begin

text \<open>
  The captive-portal DNS responder (\<^verbatim>\<open>domain/dns.hpp\<close>).  Packets are lists of bytes; the
  packed structs are written field by field in the little-endian byte order of the target,
  and \<^verbatim>\<open>__builtin_bswap16\<close> is the exchange of the two bytes.  A function that returns 0
  returns the empty packet.
\<close>

subsection \<open>Byte order\<close>

definition le16 :: "u16 \<Rightarrow> byte list" where
  "le16 w = [ucast w, ucast (drop_bit 8 w)]"

definition le32 :: "u32 \<Rightarrow> byte list" where
  "le32 w = [ucast w, ucast (drop_bit 8 w), ucast (drop_bit 16 w), ucast (drop_bit 24 w)]"

definition rd_le16 :: "byte list \<Rightarrow> u16" where
  "rd_le16 bs = ucast (bs ! 0) + ucast (bs ! 1) * 256"

definition bswap16 :: "u16 \<Rightarrow> u16" where
  "bswap16 w = (w mod 256) * 256 + drop_bit 8 w"

definition bswap32 :: "u32 \<Rightarrow> u32" where
  "bswap32 w =
     (w mod 256) * 2 ^ 24 + (drop_bit 8 w mod 256) * 2 ^ 16 + (drop_bit 16 w mod 256) * 2 ^ 8
     + drop_bit 24 w"

subsection \<open>The header and the answer\<close>

record DnsHeader =
  dh_id :: u16
  dh_flags :: u16
  dh_qdcount :: u16
  dh_ancount :: u16
  dh_nscount :: u16
  dh_arcount :: u16

record DnsAnswer =
  da_name_ptr :: u16
  da_type :: u16
  da_klass :: u16
  da_ttl :: u32
  da_rdlength :: u16
  da_rdata :: u32

datatype DnsError = QueryTooShort | QueryTruncated | BufferTooSmall | NotAQuery

definition header_size :: nat where "header_size = 12"
definition answer_size :: nat where "answer_size = 16"

definition read_header :: "byte list \<Rightarrow> DnsHeader" where
  "read_header q =
     \<lparr>dh_id = rd_le16 q, dh_flags = rd_le16 (drop 2 q), dh_qdcount = rd_le16 (drop 4 q),
      dh_ancount = rd_le16 (drop 6 q), dh_nscount = rd_le16 (drop 8 q), dh_arcount = rd_le16 (drop 10 q)\<rparr>"

definition header_bytes :: "DnsHeader \<Rightarrow> byte list" where
  "header_bytes h =
     le16 (dh_id h) @ le16 (dh_flags h) @ le16 (dh_qdcount h) @ le16 (dh_ancount h)
     @ le16 (dh_nscount h) @ le16 (dh_arcount h)"

definition answer_bytes :: "DnsAnswer \<Rightarrow> byte list" where
  "answer_bytes a =
     le16 (da_name_ptr a) @ le16 (da_type a) @ le16 (da_klass a) @ le32 (da_ttl a)
     @ le16 (da_rdlength a) @ le32 (da_rdata a)"

subsection \<open>Building the response\<close>

text \<open>How far the scan over the labels moves the pointer; a label that overruns the packet
  moves it past the end.\<close>

function skip_name :: "byte list \<Rightarrow> nat" where
  "skip_name [] = 0"
| "skip_name (l # rest) = (if l = 0 then 1 else 1 + unat l + skip_name (drop (unat l) rest))"
  by pat_completeness auto
termination by (relation "measure length") auto

definition buildDnsResponse :: "byte list \<Rightarrow> nat \<Rightarrow> u32 \<Rightarrow> byte list" where
  "buildDnsResponse query responseCapacity answerIp =
     (if length query < header_size then []
      else
        let reqHdr = read_header query;
            qdcount = bswap16 (dh_qdcount reqHdr)
        in if qdcount = 0 then []
           else
             let question = drop header_size query;
                 questionLen = skip_name question
             in if questionLen + 4 > length question then []
                else if header_size + questionLen + answer_size > responseCapacity then []
                else
                  let hdr = \<lparr>dh_id = dh_id reqHdr, dh_flags = bswap16 0x8180,
                             dh_qdcount = dh_qdcount reqHdr, dh_ancount = bswap16 1,
                             dh_nscount = 0, dh_arcount = 0\<rparr>;
                      answer = \<lparr>da_name_ptr = bswap16 0xC00C, da_type = bswap16 1,
                                da_klass = bswap16 1, da_ttl = bswap32 60,
                                da_rdlength = bswap16 4, da_rdata = answerIp\<rparr>
                  in header_bytes hdr @ take questionLen question @ answer_bytes answer)"

definition tryBuildDnsResponse :: "byte list \<Rightarrow> u32 \<Rightarrow> DnsError + byte list" where
  "tryBuildDnsResponse query answerIp =
     (if length query < header_size then Inl DnsError.QueryTooShort
      else
        let r = buildDnsResponse query DNS_BUF_SIZE answerIp
        in if length r = 0 then Inl DnsError.BufferTooSmall else Inr r)"

subsection \<open>The queried name\<close>

text \<open>\<^term>\<open>None\<close> is the error exit, which clears the buffer and returns 0.\<close>

function domain_loop :: "byte list \<Rightarrow> nat \<Rightarrow> bool \<Rightarrow> byte list \<Rightarrow> byte list option" where
  "domain_loop [] outCap first out = Some out"
| "domain_loop (l # rest) outCap first out =
     (if l = 0 then Some out
      else if length rest < unat l then None
      else if \<not> first \<and> length out + 1 \<ge> outCap then None
      else
        let out1 = (if first then out else out @ [46])
        in if length out1 + unat l \<ge> outCap then None
           else domain_loop (drop (unat l) rest) outCap False (out1 @ take (unat l) rest))"
  by pat_completeness auto
termination by (relation "measure (\<lambda>(q, _). length q)") auto

definition extractDomainName :: "byte list \<Rightarrow> nat \<Rightarrow> byte list" where
  "extractDomainName query outCap =
     (if length query < header_size \<or> outCap = 0 then []
      else case domain_loop (drop header_size query) outCap True [] of
        None \<Rightarrow> []
      | Some out \<Rightarrow> out)"

subsection \<open>Names on the wire\<close>

text \<open>The encoding of a name: each label behind its length, then a zero.\<close>

definition label_ok :: "byte list \<Rightarrow> bool" where
  "label_ok l \<longleftrightarrow> 0 < length l \<and> length l < 256"

fun encode_name :: "byte list list \<Rightarrow> byte list" where
  "encode_name [] = [0]"
| "encode_name (l # ls) = word_of_nat (length l) # l @ encode_name ls"

fun dotted :: "byte list list \<Rightarrow> byte list" where
  "dotted [] = []"
| "dotted [l] = l"
| "dotted (l # ls) = l @ [46] @ dotted ls"

lemma label_byte: "label_ok l \<Longrightarrow> unat (word_of_nat (length l) :: byte) = length l
    \<and> (word_of_nat (length l) :: byte) \<noteq> 0"
proof -
  assume l: "label_ok l"
  then have u: "unat (word_of_nat (length l) :: byte) = length l"
    by (intro unat_word_of_nat) (simp add: label_ok_def)
  then show ?thesis using l by (metis label_ok_def unat_0 less_irrefl)
qed

lemma skip_encoded:
  "list_all label_ok ls \<Longrightarrow> skip_name (encode_name ls @ rest) = length (encode_name ls)"
  by (induction ls) (simp_all add: label_byte)

lemma rd_le16_uint:
  "uint (ucast (a :: byte) + ucast (b :: byte) * 256 :: u16) = uint a + uint b * 256"
proof -
  have "uint a < 256" "uint b < 256" using uint_lt2p [of a] uint_lt2p [of b] by simp_all
  then show ?thesis
    using uint_ge_0 [of a] uint_ge_0 [of b]
    by (simp add: uint_word_ariths uint_up_ucast is_up del: uint_ge_0)
qed

lemma le16_rd_le16: "le16 (rd_le16 (a # b # bs)) = [a, b]"
proof -
  define w where "w = rd_le16 (a # b # bs)"
  have w: "uint w = uint a + uint b * 256" unfolding w_def rd_le16_def by (simp add: rd_le16_uint)
  have ab: "uint a < 256" "uint b < 256" using uint_lt2p [of a] uint_lt2p [of b] by simp_all
  have "uint (ucast w :: byte) = uint w mod 256"
    by (simp add: unsigned_ucast_eq take_bit_eq_mod)
  then have "uint (ucast w :: byte) = uint a" using ab uint_ge_0 [of a] by (simp add: w)
  moreover have "uint (ucast (drop_bit 8 w) :: byte) = uint w div 256 mod 256"
    by (simp add: unsigned_ucast_eq take_bit_eq_mod drop_bit_eq_div uint_div)
  then have "uint (ucast (drop_bit 8 w) :: byte) = uint b" using ab uint_ge_0 [of a] uint_ge_0 [of b] by (simp add: w)
  ultimately show ?thesis unfolding w_def [symmetric] le16_def by (simp add: word_uint_eqI)
qed

lemma bswap16_unat: "unat (bswap16 w) = unat w mod 256 * 256 + unat w div 256"
proof -
  have w: "unat w < 65536" using unsigned_less [of w] by simp
  then have d: "unat w div 256 < 256" by (simp add: div_less_iff_less_mult)
  have m: "unat w mod 256 < 256" by simp
  then have "unat w mod 256 * 256 + unat w div 256 < 65536" using d by linarith
  moreover have "unat w mod 256 * 256 < 65536" using m by linarith
  ultimately show ?thesis
    by (simp add: bswap16_def unat_word_ariths unat_mod unat_div drop_bit_eq_div)
qed

lemma bswap16_zero_iff: "bswap16 w = 0 \<longleftrightarrow> w = 0"
proof
  assume "bswap16 w = 0"
  then have "unat w mod 256 * 256 + unat w div 256 = 0" using bswap16_unat [of w] by simp
  then have "unat w mod 256 = 0" "unat w div 256 = 0" by simp_all
  then have "unat w = 0" using div_mult_mod_eq [of "unat w" 256] by simp
  then show "w = 0" by (simp add: unat_eq_zero)
qed (simp add: bswap16_def)

lemma const_bytes:
  "le16 (bswap16 0x8180) = [0x81, 0x80]" "le16 (bswap16 1) = [0, 1]" "le16 (bswap16 0xC00C) = [0xC0, 0x0C]"
  "le16 (bswap16 4) = [0, 4]" "le32 (bswap32 60) = [0, 0, 0, 60]" "le16 0 = [0, 0]"
  by (simp_all add: le16_def le32_def bswap16_def bswap32_def)

lemma list_12:
  assumes "length xs = 12"
  obtains a b c d e f g h i j k l where "xs = [a, b, c, d, e, f, g, h, i, j, k, l]"
  using assms by (auto simp: numeral_eq_Suc length_Suc_conv)

text \<open>The response to a query for an encoded name, when it fits: the query's identifier and
  question count, the flags of a successful recursive answer, one answer, the name as it was
  asked and the answer record that points back at offset 12, with a time to live of 60 s and
  the four address bytes.  The query's type and class are not copied.\<close>

theorem dns_response_layout:
  assumes "list_all label_ok ls" and "length hdr = 12" and "4 \<le> length rest"
    and "rd_le16 (drop 4 hdr) \<noteq> 0" and "28 + length (encode_name ls) \<le> cap"
  shows "buildDnsResponse (hdr @ encode_name ls @ rest) cap ip =
    take 2 hdr @ [0x81, 0x80] @ take 2 (drop 4 hdr) @ [0, 1, 0, 0, 0, 0]
    @ encode_name ls
    @ [0xC0, 0x0C, 0, 1, 0, 1, 0, 0, 0, 60, 0, 4] @ le32 ip"
proof -
  obtain a b c d e f g h i j k l where h: "hdr = [a, b, c, d, e, f, g, h, i, j, k, l]"
    by (rule list_12 [OF assms(2)])
  have q: "bswap16 (rd_le16 (e # f # x)) \<noteq> 0" for x
    using assms(4) by (simp add: bswap16_zero_iff h rd_le16_def)
  have "rd_le16 (e # f # x) = rd_le16 [e, f]" for x by (simp add: rd_le16_def)
  with q show ?thesis
    using assms(1,3,5)
    by (simp add: buildDnsResponse_def h header_size_def answer_size_def read_header_def Let_def
        skip_encoded header_bytes_def answer_bytes_def const_bytes le16_rd_le16)
qed

theorem dns_response_layout_witness:
  "buildDnsResponse
     ([0x12, 0x34, 1, 0, 0, 1, 0, 0, 0, 0, 0, 0] @ encode_name [[97, 98], [99]] @ [0, 1, 0, 1]) 512 0x0104A8C0
   = [0x12, 0x34, 0x81, 0x80, 0, 1, 0, 1, 0, 0, 0, 0, 2, 97, 98, 1, 99, 0,
      0xC0, 0x0C, 0, 1, 0, 1, 0, 0, 0, 60, 0, 4, 0xC0, 0xA8, 4, 1]"
  using dns_response_layout [where ls = "[[97, 98], [99]]" and cap = 512 and ip = "0x0104A8C0"
      and hdr = "[0x12, 0x34, 1, 0, 0, 1, 0, 0, 0, 0, 0, 0]" and rest = "[0, 1, 0, 1]"]
  by (simp add: label_ok_def rd_le16_def le32_def)

text \<open>Whatever bytes a query holds, the response is empty or has at least 28 bytes, fits the
  capacity and copies no more question bytes than the query holds.\<close>

theorem dns_response_bounded:
  "buildDnsResponse query cap ip = []
   \<or> (28 \<le> length (buildDnsResponse query cap ip) \<and> length (buildDnsResponse query cap ip) \<le> cap
     \<and> length (buildDnsResponse query cap ip) \<le> length query + 12
     \<and> take 2 (buildDnsResponse query cap ip) = take 2 query)"
proof (cases "length query < 12")
  case True
  then show ?thesis by (simp add: buildDnsResponse_def header_size_def)
next
  case False
  then obtain a b rest where q: "query = a # b # rest" by (cases query; cases "tl query") auto
  have len: "length (header_bytes x) = 12" "length (answer_bytes y) = 16" for x y
    by (simp_all add: header_bytes_def answer_bytes_def le16_def le32_def)
  have id: "take 2 (header_bytes x @ zs) = le16 (dh_id x)" for x zs
    by (simp add: header_bytes_def le16_def)
  have "le16 (rd_le16 query) = take 2 query"
    using le16_rd_le16 [of a b rest] by (simp add: q)
  then show ?thesis
    using len id
    by (auto simp: buildDnsResponse_def header_size_def answer_size_def Let_def read_header_def)
qed

subsection \<open>Round trip of the logged name\<close>

lemma domain_loop_encoded:
  assumes "list_all label_ok ls" and "length out + length (dotted ls) + (if first \<or> ls = [] then 0 else 1) < cap"
  shows "domain_loop (encode_name ls @ rest) cap first out =
    Some (out @ (if first \<or> ls = [] then [] else [46]) @ dotted ls)"
  using assms
proof (induction ls arbitrary: first out)
  case (Cons l ls)
  have d: "dotted (l # ls) = l @ (if ls = [] then [] else [46]) @ dotted ls"
    by (cases ls) simp_all
  show ?case using Cons by (auto simp: label_byte d split: if_splits)
qed simp

text \<open>The name extracted from a query that encodes a list of labels is the labels joined by
  dots, whenever it fits the buffer with its terminator.\<close>

theorem domain_name_roundtrip:
  assumes "list_all label_ok ls" and "length hdr = 12" and "length (dotted ls) < cap"
  shows "extractDomainName (hdr @ encode_name ls @ rest) cap = dotted ls"
  using domain_loop_encoded [of ls "[]" True cap rest] assms
  by (auto simp: extractDomainName_def header_size_def)

theorem domain_name_roundtrip_witness:
  "extractDomainName (replicate 12 0 @ encode_name [[97, 98], [99]] @ [0, 1]) 64 = [97, 98, 46, 99]"
  using domain_name_roundtrip [of "[[97, 98], [99]]" "replicate 12 0" 64 "[0, 1]"]
  by (simp add: label_ok_def)


end
