(* ===== verification/Json_Text.thy ===== *)
theory Json_Text
  imports Domain_Types
begin

text \<open>
  The hand-written JSON scanners of the firmware, which avoid a full parser: the field
  extractor of the WiFi forms (\<^verbatim>\<open>domain/json_utils.hpp\<close>), the key scanners of the motor
  controller (\<^verbatim>\<open>motor_controller_impl.cpp\<close>) and the command-id extractor of the main loop
  (\<^verbatim>\<open>main.cpp\<close>).  A C string is the list of its characters before the terminator; a pointer
  into it is the suffix it points at, and the empty suffix is the terminator.
\<close>

subsection \<open>strstr and the field extractor\<close>

text \<open>The suffix at the first occurrence of the pattern.\<close>

fun strstr :: "string \<Rightarrow> string \<Rightarrow> string option" where
  "strstr [] pat = (if pat = [] then Some [] else None)"
| "strstr (c # cs) pat =
     (if take (length pat) (c # cs) = pat then Some (c # cs) else strstr cs pat)"

definition quote :: char where "quote = CHR 0x22"

definition findJsonField :: "string \<Rightarrow> string \<Rightarrow> string option" where
  "findJsonField json field =
     (case strstr json field of
        None \<Rightarrow> None
      | Some pos0 \<Rightarrow>
          (case dropWhile (\<lambda>c. c = CHR '' '') (drop (length field) pos0) of
             [] \<Rightarrow> None
           | c1 # pos1 \<Rightarrow>
               if c1 \<noteq> CHR '':'' then None
               else
                 (case dropWhile (\<lambda>c. c = CHR '' '') pos1 of
                    [] \<Rightarrow> None
                  | c2 # pos2 \<Rightarrow>
                      if c2 \<noteq> quote then None
                      else if quote \<notin> set pos2 then None
                      else Some (takeWhile (\<lambda>c. c \<noteq> quote) pos2))))"

subsection \<open>The command id\<close>

definition id_key :: string where
  "id_key = [quote, CHR ''i'', CHR ''d'', quote, CHR '':'']"

fun accumulate :: "u64 \<Rightarrow> string \<Rightarrow> u64" where
  "accumulate v [] = v"
| "accumulate v (c # cs) =
     (if is_digit c then accumulate (v * 10 + word_of_nat (char_digit c)) cs else v)"

definition extractCmdId :: "string \<Rightarrow> u64" where
  "extractCmdId s =
     (case strstr s id_key of
        None \<Rightarrow> 0
      | Some p \<Rightarrow>
          (case dropWhile (\<lambda>c. c = CHR '' '' \<or> c = CHR 0x09) (drop 5 p) of
             [] \<Rightarrow> 0
           | c # cs \<Rightarrow> if is_digit c then accumulate 0 (c # cs) else 0))"

subsection \<open>The key scanners of the motor controller\<close>

definition is_ws :: "char \<Rightarrow> bool" where
  "is_ws c \<longleftrightarrow> c = CHR '' '' \<or> c = CHR 0x09 \<or> c = CHR 0x0A"

definition skip_ws :: "string \<Rightarrow> string" where
  "skip_ws = dropWhile is_ws"

definition to_quote :: "string \<Rightarrow> string" where
  "to_quote = dropWhile (\<lambda>c. c \<noteq> quote)"

lemma length_skip_ws: "length (skip_ws p) \<le> length p"
  by (simp add: skip_ws_def length_dropWhile_le)

lemma length_to_quote: "length (to_quote p) \<le> length p"
  by (simp add: to_quote_def length_dropWhile_le)

text \<open>\<open>p\<close> stands right behind a quotation mark: does the key, closed by another one, follow?\<close>

definition key_here :: "string \<Rightarrow> string \<Rightarrow> bool" where
  "key_here key p \<longleftrightarrow> take (length key) p = key \<and> p ! length key = quote"

text \<open>The value text behind a matched key: \<open>Inr\<close> the first character of the value, or \<open>Inl\<close> the
  place where the search continues.\<close>

definition value_start :: "string \<Rightarrow> string \<Rightarrow> string + string" where
  "value_start key p =
     (case skip_ws (drop (length key + 1) p) of
        [] \<Rightarrow> Inl []
      | c # q \<Rightarrow>
          if c \<noteq> CHR '':'' then Inl (c # q)
          else (case skip_ws q of [] \<Rightarrow> Inl [] | v \<Rightarrow> Inr v))"

lemma value_start_length:
  "length (case value_start key p of Inl q \<Rightarrow> q | Inr q \<Rightarrow> q) \<le> length p"
proof (cases "skip_ws (drop (length key + 1) p)")
  case (Cons c q)
  have "length (skip_ws (drop (length key + 1) p)) \<le> length p"
    by (rule order_trans [OF length_skip_ws]) simp
  then have "length (c # q) \<le> length p" unfolding Cons .
  moreover have "length (skip_ws q) \<le> length q" by (rule length_skip_ws)
  ultimately show ?thesis using Cons by (auto simp: value_start_def split: list.split)
qed (simp add: value_start_def)

lemma value_start_Inl: "value_start key p = Inl q \<Longrightarrow> length q \<le> length p"
  and value_start_Inr: "value_start key p = Inr q \<Longrightarrow> length q \<le> length p"
  using value_start_length [of key p] by simp_all

lemma to_quote_Cons: "to_quote s = c # p \<Longrightarrow> length p < length s"
  using length_to_quote [of s] by simp

function findJsonString_loop :: "string \<Rightarrow> string \<Rightarrow> string option" where
  "findJsonString_loop key s =
     (case to_quote s of
        [] \<Rightarrow> None
      | _ # p \<Rightarrow>
          if length p < length key + 2 then None
          else if key_here key p then
            (case value_start key p of
               Inl q \<Rightarrow> findJsonString_loop key q
             | Inr q \<Rightarrow>
                 if hd q \<noteq> quote then findJsonString_loop key q
                 else if quote \<notin> set (tl q) then None
                 else Some (takeWhile (\<lambda>c. c \<noteq> quote) (tl q)))
          else findJsonString_loop key (to_quote p))"
  by pat_completeness auto
termination
  by (relation "measure (\<lambda>(_, s). length s)")
    (auto dest!: to_quote_Cons value_start_Inl value_start_Inr intro: le_less_trans length_to_quote)

declare findJsonString_loop.simps [simp del]

definition findJsonString :: "string \<Rightarrow> string \<Rightarrow> string option" where
  "findJsonString json key = (if length json < length key + 3 then None else findJsonString_loop key json)"

text \<open>\<^verbatim>\<open>strtol\<close> in base 10 with the 32-bit \<^verbatim>\<open>long\<close> of the target: the value saturates.\<close>

definition strtol_digits :: "string \<Rightarrow> int" where
  "strtol_digits s = int (digits_val (takeWhile is_digit s))"

definition strtol32 :: "string \<Rightarrow> i32" where
  "strtol32 s =
     (let z = (case s of c # cs \<Rightarrow> if c = CHR ''-'' then - strtol_digits cs else strtol_digits s | [] \<Rightarrow> 0)
      in word_of_int (max (- (2 ^ 31)) (min (2 ^ 31 - 1) z)))"

function findJsonInt :: "string \<Rightarrow> string \<Rightarrow> i32 option" where
  "findJsonInt key s =
     (case to_quote s of
        [] \<Rightarrow> None
      | _ # p \<Rightarrow>
          if length p < length key + 2 then None
          else if key_here key p then
            (case value_start key p of
               Inl q \<Rightarrow> findJsonInt key q
             | Inr q \<Rightarrow>
                 let q1 = (if hd q = CHR ''-'' then tl q else q)
                 in if q1 = [] \<or> \<not> is_digit (hd q1) then findJsonInt key q1
                    else Some (strtol32 q))
          else findJsonInt key (to_quote p))"
  by pat_completeness auto
termination
  by (relation "measure (\<lambda>(_, s). length s)")
    (auto dest!: to_quote_Cons value_start_Inl value_start_Inr intro: le_less_trans length_to_quote)

declare findJsonInt.simps [simp del]

text \<open>A value that is neither \<^verbatim>\<open>true\<close> nor \<^verbatim>\<open>false\<close> is skipped up to the next quotation mark.\<close>

function findJsonBool :: "string \<Rightarrow> string \<Rightarrow> bool option" where
  "findJsonBool key s =
     (case to_quote s of
        [] \<Rightarrow> None
      | _ # p \<Rightarrow>
          if length p < length key + 2 then None
          else if key_here key p then
            (case value_start key p of
               Inl q \<Rightarrow> findJsonBool key q
             | Inr q \<Rightarrow>
                 if take 4 q = ''true'' then Some True
                 else if take 5 q = ''false'' then Some False
                 else findJsonBool key (to_quote q))
          else findJsonBool key (to_quote p))"
  by pat_completeness auto
termination
  by (relation "measure (\<lambda>(_, s). length s)")
    (auto dest!: to_quote_Cons value_start_Inl value_start_Inr intro: le_less_trans length_to_quote)

declare findJsonBool.simps [simp del]

subsection \<open>The scanners find the fields of an object\<close>

datatype jval = JStr string | JInt int | JBool bool

fun jval_text :: "jval \<Rightarrow> string" where
  "jval_text (JStr v) = quote # v @ [quote]"
| "jval_text (JInt n) = int_str n"
| "jval_text (JBool b) = (if b then ''true'' else ''false'')"

fun fields_text :: "(string \<times> jval) list \<Rightarrow> string" where
  "fields_text [] = ''}''"
| "fields_text ((k, v) # fs) =
     quote # k @ quote # CHR '':'' # jval_text v @ (if fs = [] then ''}'' else CHR '','' # fields_text fs)"

definition object_text :: "(string \<times> jval) list \<Rightarrow> string" where
  "object_text fs = CHR ''{'' # fields_text fs"

definition key_ok :: "string \<Rightarrow> bool" where
  "key_ok k \<longleftrightarrow> k \<noteq> [] \<and> quote \<notin> set k \<and> hd k \<notin> {CHR '':'', CHR '','', CHR ''}''}"

fun jval_ok :: "jval \<Rightarrow> bool" where
  "jval_ok (JStr v) = (quote \<notin> set v)"
| "jval_ok _ = True"

text \<open>Every scanner is the same loop around its own reading of the value text: \<open>Inr\<close> an answer, or
  \<open>Inl\<close> the place where the search continues.\<close>

locale key_scanner =
  fixes loop :: "string \<Rightarrow> string \<Rightarrow> 'a option"
    and read_val :: "string \<Rightarrow> string + 'a option"
  assumes unfold_loop: "loop key s =
     (case to_quote s of
        [] \<Rightarrow> None
      | _ # p \<Rightarrow>
          if length p < length key + 2 then None
          else if key_here key p then
            (case value_start key p of
               Inl q \<Rightarrow> loop key q
             | Inr q \<Rightarrow> (case read_val q of Inl q' \<Rightarrow> loop key q' | Inr r \<Rightarrow> r))
          else loop key (to_quote p))"
begin

lemma loop_to_quote: "loop key (to_quote s) = loop key s"
  by (subst (1 2) unfold_loop) (simp add: to_quote_def)

lemma loop_prefix:
  assumes "quote \<notin> set pre"
  shows "loop key (pre @ s) = loop key s"
proof -
  have "to_quote (pre @ s) = to_quote s"
    unfolding to_quote_def using assms by (intro dropWhile_append2) auto
  then show ?thesis by (metis loop_to_quote)
qed

lemma loop_other:
  assumes "\<not> key_here key p" and "length key + 2 \<le> length p"
  shows "loop key (quote # p) = loop key p"
  using assms by (subst unfold_loop) (simp add: to_quote_def loop_to_quote [unfolded to_quote_def])

lemma loop_value:
  assumes "key_here key p" and "length key + 2 \<le> length p" and "value_start key p = Inr q"
    and "read_val q = Inr r"
  shows "loop key (quote # p) = r"
  using assms by (subst unfold_loop) (simp add: to_quote_def)

lemma loop_no_value:
  assumes "key_here key p" and "length key + 2 \<le> length p" and "value_start key p = Inl q"
  shows "loop key (quote # p) = loop key q"
  using assms by (subst unfold_loop) (simp add: to_quote_def)

end

lemma key_here_other:
  assumes "quote \<notin> set k" and "quote \<notin> set key" and "k \<noteq> key"
  shows "\<not> key_here key (k @ quote # rest)"
proof
  assume h: "key_here key (k @ quote # rest)"
  show False
  proof (cases "length key \<le> length k")
    case True
    then have "take (length key) k = key" using h by (simp add: key_here_def)
    moreover have "length key \<noteq> length k" using calculation assms(3) by auto
    ultimately have "k ! length key = quote" and "length key < length k"
      using h True by (auto simp: key_here_def nth_append)
    then have "quote \<in> set k" using nth_mem [of "length key" k] by simp
    then show False using assms(1) by simp
  next
    case False
    have "key ! length k = take (length key) (k @ quote # rest) ! length k"
      using h by (simp add: key_here_def)
    also have "\<dots> = quote" using False by (simp add: nth_append)
    finally have "quote \<in> set key" using False nth_mem [of "length k" key] by simp
    then show False using assms(2) by simp
  qed
qed

lemma key_here_self: "key_here key (key @ quote # rest)"
  by (simp add: key_here_def)

lemma key_here_hd: "key_ok key \<Longrightarrow> c \<in> {CHR '':'', CHR '','', CHR ''}''} \<Longrightarrow> \<not> key_here key (c # rest)"
  by (cases key) (auto simp: key_here_def key_ok_def)

lemma fields_length: "length (fields_text fs) \<ge> 1"
  by (induction fs rule: fields_text.induct) auto

lemma field_room:
  "map_of fs key = Some v \<Longrightarrow> length key + 4 \<le> length (fields_text fs)"
  by (induction fs rule: fields_text.induct) (auto split: if_splits)

lemma value_start_field:
  assumes "jval_text v = x # xs" and "\<not> is_ws x"
  shows "value_start key (key @ quote # CHR '':'' # jval_text v @ rest) = Inr (jval_text v @ rest)"
  using assms by (simp add: value_start_def skip_ws_def is_ws_def)

lemma value_start_sep:
  "c \<in> {CHR '','', CHR ''}''} \<Longrightarrow> value_start key (key @ quote # c # rest) = Inl (c # rest)"
  by (auto simp: value_start_def skip_ws_def is_ws_def)

lemma is_digit_not: "is_digit c \<Longrightarrow> \<not> is_ws c \<and> c \<noteq> quote \<and> c \<noteq> CHR ''-''"
  by (auto simp: is_digit_def is_ws_def quote_def)

lemma nat_str_Cons: "\<exists>c cs. nat_str n = c # cs \<and> is_digit c"
  using nat_str_digits [of n] nat_str_nonempty [of n] by (cases "nat_str n") auto

lemma int_str_Cons: "\<exists>c cs. int_str n = c # cs \<and> \<not> is_ws c"
proof (cases "n < 0")
  case False
  obtain c cs where "nat_str (nat n) = c # cs" "is_digit c" using nat_str_Cons by blast
  then show ?thesis using False is_digit_not [of c] by (simp add: int_str_def)
qed (simp add: int_str_def is_ws_def)

lemma jval_text_Cons: "\<exists>x xs. jval_text v = x # xs \<and> \<not> is_ws x"
  using int_str_Cons by (cases v) (auto simp: quote_def is_ws_def)

lemma int_str_no_quote: "quote \<notin> set (int_str n)"
proof -
  have "quote \<notin> set (nat_str m)" for m
    using nat_str_digits [of m] is_digit_not [of quote] by blast
  then show ?thesis by (simp add: int_str_def quote_def)
qed

definition rest_of :: "(string \<times> jval) list \<Rightarrow> string" where
  "rest_of fs = (if fs = [] then ''}'' else CHR '','' # fields_text fs)"

lemma fields_text_rest:
  "fields_text ((k, v) # fs) = quote # k @ quote # CHR '':'' # jval_text v @ rest_of fs"
  by (simp add: rest_of_def)

lemma rest_of_Cons: "\<exists>c r. rest_of fs = c # r \<and> c \<in> {CHR '','', CHR ''}''}"
  by (simp add: rest_of_def)

context key_scanner
begin

text \<open>A field with another key is passed over, also when its text value is the key.\<close>

lemma loop_skip_field:
  assumes k: "key_ok k" "key_ok key" "k \<noteq> key" and v: "jval_ok v"
    and room: "length key + 2 \<le> length (rest_of fs)"
  shows "loop key (fields_text ((k, v) # fs)) = loop key (rest_of fs)"
proof -
  obtain c r where c: "rest_of fs = c # r" "c \<in> {CHR '','', CHR ''}''}" using rest_of_Cons by blast
  have kq: "quote \<notin> set k" "quote \<notin> set key" using k by (simp_all add: key_ok_def)
  have sep: "loop key (quote # rest_of fs) = loop key (rest_of fs)"
    using key_here_hd [OF k(2), of c r] c room by (intro loop_other) auto
  have "loop key (fields_text ((k, v) # fs)) = loop key (k @ quote # CHR '':'' # jval_text v @ rest_of fs)"
    unfolding fields_text_rest using room key_here_other [OF kq k(3)] by (intro loop_other) auto
  also have "\<dots> = loop key (quote # CHR '':'' # jval_text v @ rest_of fs)"
    by (rule loop_prefix [OF kq(1)])
  also have "\<dots> = loop key (CHR '':'' # jval_text v @ rest_of fs)"
    using room key_here_hd [OF k(2), of "CHR '':''"] by (intro loop_other) auto
  also have "\<dots> = loop key (jval_text v @ rest_of fs)"
    using loop_prefix [of "[CHR '':'']"] by (simp add: quote_def)
  also have "\<dots> = loop key (rest_of fs)"
  proof (cases v)
    case (JStr t)
    have t: "quote \<notin> set t" using v JStr by simp
    show ?thesis
    proof (cases "t = key")
      case True
      have "loop key (quote # key @ quote # rest_of fs) = loop key (rest_of fs)"
        using c room value_start_sep [OF c(2), of key r]
        by (intro loop_no_value) (simp_all add: key_here_self)
      then show ?thesis using JStr True by simp
    next
      case False
      have "loop key (quote # t @ quote # rest_of fs) = loop key (t @ quote # rest_of fs)"
        using room key_here_other [OF t kq(2) False] by (intro loop_other) auto
      also have "\<dots> = loop key (quote # rest_of fs)" by (rule loop_prefix [OF t])
      finally show ?thesis using JStr sep by simp
    qed
  next
    case (JInt n)
    then show ?thesis using loop_prefix [OF int_str_no_quote] by simp
  next
    case (JBool b)
    then show ?thesis using loop_prefix [of "jval_text v"] by (simp add: quote_def)
  qed
  finally show ?thesis .
qed

lemma loop_finds_field:
  assumes "key_ok key" and "list_all (\<lambda>(k, v). key_ok k \<and> jval_ok v) fs" and "map_of fs key = Some v"
    and "\<And>rest. rest \<noteq> [] \<Longrightarrow> hd rest \<in> {CHR '','', CHR ''}''} \<Longrightarrow> read_val (jval_text v @ rest) = Inr r"
    and "quote \<notin> set pre"
  shows "loop key (pre @ fields_text fs) = r"
  using assms(2,3,5)
proof (induction fs arbitrary: pre)
  case (Cons f fs)
  obtain k w where f: "f = (k, w)" by (cases f)
  have pre: "loop key (pre @ fields_text (f # fs)) = loop key (fields_text (f # fs))"
    by (rule loop_prefix [OF Cons.prems(3)])
  show ?case
  proof (cases "k = key")
    case True
    then have w: "w = v" using Cons.prems(2) f by simp
    obtain x xs where x: "jval_text v = x # xs" "\<not> is_ws x" using jval_text_Cons by blast
    obtain c rr where c: "rest_of fs = c # rr" "c \<in> {CHR '','', CHR ''}''}" using rest_of_Cons by blast
    have "loop key (quote # key @ quote # CHR '':'' # jval_text v @ rest_of fs) = r"
      using value_start_field [OF x, of key "rest_of fs"] assms(4) [of "rest_of fs"] c x
      by (intro loop_value) (simp_all add: key_here_self)
    then show ?thesis using pre f w True by (simp add: fields_text_rest del: fields_text.simps)
  next
    case False
    then have m: "map_of fs key = Some v" using Cons.prems(2) f by simp
    then have ne: "fs \<noteq> []" by auto
    have "length key + 2 \<le> length (rest_of fs)" using field_room [OF m] ne by (simp add: rest_of_def)
    then have "loop key (fields_text (f # fs)) = loop key (rest_of fs)"
      using Cons.prems(1) assms(1) False unfolding f by (intro loop_skip_field) simp_all
    moreover have "loop key (rest_of fs) = r"
      using Cons.IH [of "'',''"] Cons.prems(1) m ne by (simp add: rest_of_def quote_def)
    ultimately show ?thesis using pre by simp
  qed
qed simp

end

text \<open>The value readings of the three scanners.\<close>

definition str_val :: "string \<Rightarrow> string + string option" where
  "str_val q =
     (if hd q \<noteq> quote then Inl q
      else Inr (if quote \<notin> set (tl q) then None else Some (takeWhile (\<lambda>c. c \<noteq> quote) (tl q))))"

definition int_val :: "string \<Rightarrow> string + i32 option" where
  "int_val q =
     (let q1 = (if hd q = CHR ''-'' then tl q else q)
      in if q1 = [] \<or> \<not> is_digit (hd q1) then Inl q1 else Inr (Some (strtol32 q)))"

definition bool_val :: "string \<Rightarrow> string + bool option" where
  "bool_val q =
     (if take 4 q = ''true'' then Inr (Some True)
      else if take 5 q = ''false'' then Inr (Some False) else Inl (to_quote q))"

interpretation str_scan: key_scanner findJsonString_loop str_val
  by unfold_locales
    (subst findJsonString_loop.simps, auto simp: str_val_def split: list.splits sum.splits)

interpretation int_scan: key_scanner findJsonInt int_val
  by unfold_locales
    (subst findJsonInt.simps, auto simp: int_val_def Let_def split: list.splits sum.splits)

interpretation bool_scan: key_scanner findJsonBool bool_val
  by unfold_locales
    (subst findJsonBool.simps, auto simp: bool_val_def split: list.splits sum.splits)

lemma takeWhile_digits:
  assumes "rest \<noteq> []" and "hd rest \<in> {CHR '','', CHR ''}''}"
  shows "takeWhile is_digit (nat_str m @ rest) = nat_str m"
proof -
  have "\<not> is_digit (hd rest)" using assms(2) by (auto simp: is_digit_def)
  then have "takeWhile is_digit rest = []" using assms(1) by (cases rest) auto
  then show ?thesis using nat_str_digits [of m] by (subst takeWhile_append2) auto
qed

lemma int_val_int_str:
  assumes "rest \<noteq> []" and "hd rest \<in> {CHR '','', CHR ''}''}" and "- (2 ^ 31) \<le> n" and "n < 2 ^ 31"
  shows "int_val (int_str n @ rest) = Inr (Some (word_of_int n))"
proof -
  obtain c cs where c: "nat_str (nat \<bar>n\<bar>) = c # cs" "is_digit c" using nat_str_Cons by blast
  have cm: "c \<noteq> CHR ''-''" using is_digit_not [OF c(2)] by simp
  have d: "strtol_digits (nat_str m @ rest) = int m" for m
    by (simp add: strtol_digits_def takeWhile_digits [OF assms(1,2)] digits_val_nat_str)
  show ?thesis
  proof (cases "n < 0")
    case True
    then have i: "int_str n @ rest = CHR ''-'' # nat_str (nat \<bar>n\<bar>) @ rest" by (simp add: int_str_def)
    have "strtol32 (int_str n @ rest) = word_of_int n"
      using True assms(3) unfolding i strtol32_def Let_def by (simp add: d)
    then show ?thesis using c unfolding int_val_def i by (simp add: Let_def)
  next
    case False
    then have i: "int_str n @ rest = nat_str (nat \<bar>n\<bar>) @ rest" by (simp add: int_str_def)
    have i2: "nat_str (nat \<bar>n\<bar>) @ rest = c # cs @ rest" using c by simp
    have "strtol32 (c # cs @ rest) = word_of_int n"
      using False assms(4) cm d [of "nat \<bar>n\<bar>"] unfolding strtol32_def Let_def i2 by simp
    then show ?thesis using c cm unfolding int_val_def i i2 by (simp add: Let_def)
  qed
qed

lemma takeWhile_quote: "quote \<notin> set t \<Longrightarrow> takeWhile (\<lambda>c. c \<noteq> quote) (t @ quote # rest) = t"
  by (induction t) auto

fun fits32 :: "jval \<Rightarrow> bool" where
  "fits32 (JInt n) = (- (2 ^ 31) \<le> n \<and> n < 2 ^ 31)"
| "fits32 _ = True"

text \<open>On the compact text of any JSON object whose keys and text values hold no quotation
  mark, each scanner finds exactly the value of the first field with the key it looks for:
  the text of a string field, the value of an integer field in the 32-bit range, or the value
  of a boolean field, whatever the other fields are, even text values equal to the key.\<close>

theorem scanners_find_fields:
  assumes "key_ok key" and "list_all (\<lambda>(k, v). key_ok k \<and> jval_ok v) fs" and "map_of fs key = Some v" and "fits32 v"
  shows "case v of
      JStr t \<Rightarrow> findJsonString (object_text fs) key = Some t
    | JInt n \<Rightarrow> findJsonInt key (object_text fs) = Some (word_of_int n)
    | JBool b \<Rightarrow> findJsonBool key (object_text fs) = Some b"
proof -
  have pre: "quote \<notin> set ''{''" by (simp add: quote_def)
  have room: "length key + 4 \<le> length (fields_text fs)" by (rule field_room [OF assms(3)])
  have ok: "jval_ok v" using assms(2,3) by (auto dest!: map_of_SomeD simp: list_all_iff)
  show ?thesis
  proof (cases v)
    case (JStr t)
    have "str_val (jval_text v @ rest) = Inr (Some t)" for rest
      using ok JStr by (simp add: str_val_def takeWhile_quote)
    from str_scan.loop_finds_field [OF assms(1-3) this pre] room JStr show ?thesis
      by (simp add: findJsonString_def object_text_def)
  next
    case (JInt n)
    then have "int_val (jval_text v @ rest) = Inr (Some (word_of_int n))"
      if "rest \<noteq> []" "hd rest \<in> {CHR '','', CHR ''}''}" for rest
      using int_val_int_str [OF that] assms(4) by simp
    from int_scan.loop_finds_field [OF assms(1-3) this pre] JInt show ?thesis
      by (simp add: object_text_def)
  next
    case (JBool b)
    have "bool_val (jval_text v @ rest) = Inr (Some b)" for rest
      using JBool by (simp add: bool_val_def)
    from bool_scan.loop_finds_field [OF assms(1-3) this pre] JBool show ?thesis
      by (simp add: object_text_def)
  qed
qed

theorem scanners_find_fields_witness:
  "findJsonInt ''steps''
     (object_text [(''cmd'', JStr ''steps''), (''steps'', JInt (- 200)), (''x'', JBool True)]) = Some (- 200)"
  using scanners_find_fields
    [of "''steps''" "[(''cmd'', JStr ''steps''), (''steps'', JInt (- 200)), (''x'', JBool True)]" "JInt (- 200)"]
  by (simp add: key_ok_def quote_def)

subsection \<open>The form that configures WiFi\<close>

definition quoted :: "string \<Rightarrow> string" where
  "quoted s = quote # s @ [quote]"

definition wifi_form :: "string \<Rightarrow> string \<Rightarrow> string" where
  "wifi_form ssid pass =
     CHR ''{'' # quoted ''ssid'' @ CHR '':'' # quoted ssid @ CHR '','' # quoted ''password'' @ CHR '':''
       # quoted pass @ ''}''"

lemma strstr_skip:
  assumes "quote \<notin> set pre"
  shows "strstr (pre @ quote # s) (quote # pat) = strstr (quote # s) (quote # pat)"
  using assms by (induction pre) auto

lemma strstr_here: "strstr (quote # pat @ s) (quote # pat) = Some (quote # pat @ s)"
  by simp

lemma findJsonField_value:
  assumes "strstr json field = Some (field @ CHR '':'' # quoted v @ rest)" and "quote \<notin> set v"
  shows "findJsonField json field = Some v"
  using assms by (simp add: findJsonField_def quoted_def quote_def takeWhile_quote [unfolded quote_def])

lemma take_snoc: "take (n + 1) xs = pat @ [q] \<Longrightarrow> n = length pat \<Longrightarrow> take n xs = pat \<and> xs ! n = q"
proof -
  assume t: "take (n + 1) xs = pat @ [q]" and n: "n = length pat"
  then have "length (take (n + 1) xs) = n + 1" by simp
  then have "n < length xs" by simp
  with t n show ?thesis by (simp add: take_Suc_conv_app_nth)
qed

lemma not_password_prefix:
  assumes "quote \<notin> set s" and "s \<noteq> pat" and "quote \<notin> set pat"
  shows "take (length pat + 1) (s @ quote # r) \<noteq> pat @ [quote]"
proof
  assume "take (length pat + 1) (s @ quote # r) = pat @ [quote]"
  then have "key_here pat (s @ quote # r)"
    using take_snoc [of "length pat" "s @ quote # r" pat quote] by (simp add: key_here_def del: take_append)
  then show False using key_here_other [OF assms(1,3,2)] by simp
qed

lemma wifi_form_parsed:
  assumes "quote \<notin> set ssid" and "quote \<notin> set pass"
  shows "findJsonField (wifi_form ssid pass) (quoted ''ssid'') = Some ssid
    \<and> findJsonField (wifi_form ssid pass) (quoted ''password'') =
        (if ssid = ''password'' then None else Some pass)"
proof
  have f: "wifi_form ssid pass =
      ''{'' @ quoted ''ssid'' @ CHR '':'' # quoted ssid @ CHR '','' # quoted ''password'' @ CHR '':'' # quoted pass @ ''}''"
    by (simp add: wifi_form_def)
  have "strstr (wifi_form ssid pass) (quoted ''ssid'') =
      Some (quoted ''ssid'' @ CHR '':'' # quoted ssid @ CHR '','' # quoted ''password'' @ CHR '':'' # quoted pass @ ''}'')"
    by (simp add: f quoted_def quote_def)
  then show "findJsonField (wifi_form ssid pass) (quoted ''ssid'') = Some ssid"
    by (rule findJsonField_value [OF _ assms(1)])
next
  define P where "P = ''password'' @ [quote]"
  define tail where "tail = CHR '':'' # quoted pass @ ''}''"
  define s4 where "s4 = CHR '','' # quote # P @ tail"
  define s3 where "s3 = ssid @ quote # s4"
  have qP: "quoted ''password'' = quote # P" by (simp add: quoted_def P_def)
  have "strstr (wifi_form ssid pass) (quote # P) = strstr (quote # s3) (quote # P)"
    by (simp add: wifi_form_def s3_def s4_def tail_def P_def quoted_def quote_def)
  also have "\<dots> = (if ssid = ''password'' then Some (quote # s3) else Some (quote # P @ tail))"
  proof (cases "ssid = ''password''")
    case True
    then show ?thesis by (simp add: s3_def P_def)
  next
    case False
    have "take (length P) s3 \<noteq> P"
      using not_password_prefix [OF assms(1) False, of s4] by (simp add: P_def s3_def quote_def)
    then have "strstr (quote # s3) (quote # P) = strstr s3 (quote # P)" by simp
    also have "\<dots> = strstr (quote # s4) (quote # P)"
      unfolding s3_def by (rule strstr_skip [OF assms(1)])
    also have "\<dots> = Some (quote # P @ tail)" by (simp add: s4_def P_def quote_def)
    finally show ?thesis using False by simp
  qed
  finally have "strstr (wifi_form ssid pass) (quoted ''password'') =
      (if ssid = ''password'' then Some (quote # s3) else Some (quote # P @ tail))"
    unfolding qP .
  then show "findJsonField (wifi_form ssid pass) (quoted ''password'') =
      (if ssid = ''password'' then None else Some pass)"
    using findJsonField_value [of "wifi_form ssid pass" "quoted ''password''" pass "''}''"] assms(2)
    by (auto simp: findJsonField_def s3_def s4_def tail_def qP P_def)
qed

text \<open>From the form that carries a network name and a password, neither holding a quotation
  mark, the extractor returns the name, and the password exactly when the network is not
  itself named \<open>password\<close>: in that case it finds no password.\<close>

theorem wifi_form_fields:
  assumes "quote \<notin> set ssid" and "quote \<notin> set pass"
  shows "findJsonField (wifi_form ssid pass) (quoted ''ssid'') = Some ssid
    \<and> findJsonField (wifi_form ssid pass) (quoted ''password'') =
        (if ssid = ''password'' then None else Some pass)"
  by (rule wifi_form_parsed [OF assms])

theorem wifi_form_fields_witness:
  "findJsonField (wifi_form ''lab'' ''s3cret'') (quoted ''password'') = Some ''s3cret''
   \<and> findJsonField (wifi_form ''password'' ''s3cret'') (quoted ''password'') = None"
  using wifi_form_fields [of "''lab''" "''s3cret''"] wifi_form_fields [of "''password''" "''s3cret''"]
  by (simp add: quote_def)

end
