(* ===== verification/Response.thy ===== *)
theory Response
  imports Json_Text Calibration
begin

text \<open>
  Building and serializing responses: the response makers and \<^verbatim>\<open>serializeToBuffer\<close> of
  \<^verbatim>\<open>application/command.cpp\<close> and the formatter of state-machine results of
  \<^verbatim>\<open>application/response.cpp\<close>.  A response body is the text written to the front of its
  zeroed 2048-byte array together with the length the code records, which may exceed what was
  stored when the text was truncated.
\<close>

declare One_nat_def [simp del]

subsection \<open>Response makers\<close>

definition jkey :: "string \<Rightarrow> string" where
  "jkey s = quoted s @ '':''"

definition ok_prefix :: string where
  "ok_prefix = ''{'' @ jkey ''status'' @ quoted ''ok'' @ '','' @ jkey ''data''"

definition makeSingleResponse :: "string \<Rightarrow> CommandResponse" where
  "makeSingleResponse payload =
     (let (b, n) = snprintf MAX_RSP_SIZE (ok_prefix @ takeWhile (\<lambda>c. c \<noteq> CHR 0x00) payload @ ''}'')
      in (response_init ResponseKind.Single)\<lparr>r_body := b, r_bodySize := n\<rparr>)"

definition error_prefix :: string where
  "error_prefix = ''{'' @ jkey ''status'' @ quoted ''error'' @ '','' @ jkey ''message'' @ [quote]"

definition backslash :: char where "backslash = CHR 0x5C"

text \<open>The escaping loop stops when fewer than three bytes are left.\<close>

fun escape_into :: "string \<Rightarrow> string \<Rightarrow> string" where
  "escape_into [] body = body"
| "escape_into (c # cs) body =
     (if length body < MAX_RSP_SIZE - 2
      then escape_into cs (body @ (if c = quote \<or> c = backslash then [backslash, c] else [c]))
      else body)"

definition makeErrorResponse :: "string \<Rightarrow> CommandResponse" where
  "makeErrorResponse message =
     (let body1 = escape_into message error_prefix;
          body2 = (if length body1 < MAX_RSP_SIZE - 1 then body1 @ [quote, CHR ''}''] else body1)
      in (response_init ResponseKind.Error)\<lparr>r_body := body2, r_bodySize := length body2\<rparr>)"

definition accepted_text :: string where
  "accepted_text = ok_prefix @ ''{'' @ jkey ''status'' @ quoted ''accepted'' @ ''}}''"

definition makeAckThenResponse :: CommandResponse where
  "makeAckThenResponse =
     (response_init ResponseKind.AckThen)\<lparr>r_body := accepted_text, r_bodySize := length accepted_text\<rparr>"

text \<open>The status text; the unused parameters of the source are left out.  \<open>w\<close> writes at the
  offset and keeps it below the capacity.\<close>

definition write_at :: "string \<Rightarrow> string \<Rightarrow> string" where
  "write_at buf s =
     (if length buf \<ge> MAX_RSP_SIZE then buf else buf @ take (MAX_RSP_SIZE - length buf - 1) s)"

definition serializeStatusJson :: "string \<Rightarrow> BuretteState \<Rightarrow> fp \<Rightarrow> bool \<Rightarrow> string" where
  "serializeStatusJson buf st volumeMl volumeIsNull =
     (let stateStr = (if st = BuretteState.Homing then ''working'' else buretteStateStr st);
          speed = jkey ''speed_ml_min'' @ fmt_fixed 1 (f64_lit 0 1)
      in if volumeIsNull
         then write_at buf (jkey ''status'' @ quoted stateStr @ '','' @ jkey ''volume_ml'' @ ''null,'' @ speed)
         else write_at buf (jkey ''status'' @ quoted stateStr @ '','' @ jkey ''volume_ml'' @ fmt_fixed 2 volumeMl
                            @ '','' @ speed))"

definition makeStatusResponse :: "u64 \<Rightarrow> BuretteState \<Rightarrow> fp \<Rightarrow> bool \<Rightarrow> CommandResponse" where
  "makeStatusResponse cmdId st volumeMl volumeIsNull =
     (let body1 = serializeStatusJson (ok_prefix @ ''{'') st volumeMl volumeIsNull;
          body2 = (if length body1 < MAX_RSP_SIZE - 1 then body1 @ ''}}'' else body1)
      in (response_init ResponseKind.Single)\<lparr>r_id := cmdId, r_body := body2, r_bodySize := length body2\<rparr>)"

subsection \<open>Serialization\<close>

text \<open>The first \<open>n\<close> bytes of the body array.\<close>

definition body_bytes :: "CommandResponse \<Rightarrow> nat \<Rightarrow> string" where
  "body_bytes rsp n = take n (r_body rsp @ replicate MAX_RSP_SIZE (CHR 0x00))"

definition id_prefix :: "u64 \<Rightarrow> string" where
  "id_prefix i = ''{'' @ id_key @ nat_str (unat i) @ '',''"

definition minimal_text :: "ResponseKind \<Rightarrow> string" where
  "minimal_text k =
     (case k of
        ResponseKind.Single \<Rightarrow> ''{}''
      | ResponseKind.Error \<Rightarrow> ''{'' @ jkey ''status'' @ quoted ''error'' @ '','' @ jkey ''message'' @ quoted ''unknown'' @ ''}''
      | ResponseKind.AckThen \<Rightarrow> accepted_text
      | ResponseKind.NoResponse \<Rightarrow> '''')"

text \<open>The bytes written to the buffer; their number is the result.\<close>

definition serializeToBuffer :: "CommandResponse \<Rightarrow> string" where
  "serializeToBuffer rsp =
     (if r_kind rsp = ResponseKind.NoResponse then ''''
      else if 0 < r_bodySize rsp \<and> r_bodySize rsp \<le> MAX_RSP_SIZE then
        (let idStr = id_prefix (r_id rsp);
             totalSize = length idStr + r_bodySize rsp - 1
         in if r_id rsp \<noteq> 0 \<and> body_bytes rsp 1 = ''{'' \<and> totalSize < MAX_RSP_SIZE
            then idStr @ tl (body_bytes rsp (r_bodySize rsp))
            else body_bytes rsp (r_bodySize rsp))
      else minimal_text (r_kind rsp))"

subsection \<open>Results of the state machines\<close>

text \<open>\<open>cal\<close> is what \<^verbatim>\<open>calibrationRead\<close> returns, \<^term>\<open>None\<close> on error.\<close>

definition result_head :: "u64 \<Rightarrow> string" where
  "result_head i = ''{'' @ jkey ''id'' @ nat_str (unat i) @ '',''"

definition formatSmResult :: "CalibrationData option \<Rightarrow> u64 \<Rightarrow> SmResult \<Rightarrow> string" where
  "formatSmResult cal resultId r =
     (let head = result_head resultId;
          ok = head @ jkey ''status'' @ quoted ''ok'' @ '','' @ jkey ''data'' @ ''{'';
          vol = (case cal of
                   None \<Rightarrow> fp_zero f32 False
                 | Some c \<Rightarrow> f_div f32 (f_of_int f32 (sint (sm_stepsTaken r))) (stepsPerMl c));
          dispensed = ok @ jkey ''volume_dispensed_ml'' @ fmt_fixed 2 vol @ ''}}''
      in if sm_type r = SmResultType.None' \<and> 0 < sint (sm_stepsTaken r) then dispensed
         else if sm_type r = SmResultType.RinseComplete then ok @ jkey ''cycles_completed'' @ ''1}}''
         else if sm_type r = SmResultType.CalDoseComplete then dispensed
         else if sm_type r = SmResultType.CalSpeedComplete
         then ok @ jkey ''speed_ml_min'' @ fmt_fixed 2 (sm_measuredSpeedMlMin r) @ ''}}''
         else if sm_type r = SmResultType.CalSpeedSeqComplete
         then ok @ jkey ''status'' @ quoted ''complete'' @ ''}}''
         else if sm_type r = SmResultType.Error
         then head @ jkey ''status'' @ quoted ''error'' @ '','' @ jkey ''message'' @ quoted ''start_failed'' @ ''}''
         else ok @ jkey ''status'' @ quoted ''complete'' @ ''}}'')"

subsection \<open>Error messages survive escaping\<close>

definition escape :: "string \<Rightarrow> string" where
  "escape m = concat (map (\<lambda>c. if c = quote \<or> c = backslash then [backslash, c] else [c]) m)"

text \<open>A JSON reader's view of a string literal: up to the first quotation mark that is not escaped.\<close>

fun read_literal :: "string \<Rightarrow> (string \<times> string) option" where
  "read_literal [] = None"
| "read_literal [c] = (if c = quote then Some ([], []) else None)"
| "read_literal (c # d # s) =
     (if c = quote then Some ([], d # s)
      else if c = backslash then map_option (\<lambda>(m, r). (d # m, r)) (read_literal s)
      else map_option (\<lambda>(m, r). (c # m, r)) (read_literal (d # s)))"

lemma escape_simps [simp]:
  "escape [] = []"
  "escape (c # m) = (if c = quote \<or> c = backslash then [backslash, c] else [c]) @ escape m"
  by (simp_all add: escape_def)

lemma read_literal_plain:
  "c \<noteq> quote \<Longrightarrow> c \<noteq> backslash \<Longrightarrow> s \<noteq> [] \<Longrightarrow>
     read_literal (c # s) = map_option (\<lambda>(m, r). (c # m, r)) (read_literal s)"
  by (cases s) auto

lemma read_literal_escape: "read_literal (escape m @ quote # rest) = Some (m, rest)"
proof (induction m)
  case Nil
  show ?case by (cases rest) simp_all
next
  case (Cons c m)
  have bq: "backslash \<noteq> quote" by (simp add: backslash_def quote_def)
  show ?case
  proof (cases "c = quote \<or> c = backslash")
    case True
    then show ?thesis using Cons bq by auto
  next
    case False
    then show ?thesis using Cons by (simp add: read_literal_plain)
  qed
qed

lemma escape_into_fits:
  "length body + length (escape m) \<le> MAX_RSP_SIZE - 2 \<Longrightarrow> escape_into m body = body @ escape m"
proof (induction m arbitrary: body)
  case (Cons c m)
  then have "length body < MAX_RSP_SIZE - 2" by (auto split: if_splits)
  then show ?case using Cons.IH [of "body @ (if c = quote \<or> c = backslash then [backslash, c] else [c])"] Cons.prems
    by (auto split: if_splits)
qed simp

lemma escape_into_bounded: "length body \<le> MAX_RSP_SIZE - 1 \<Longrightarrow> length (escape_into m body) \<le> MAX_RSP_SIZE - 1"
  by (induction m arbitrary: body) auto

lemma error_prefix_length: "length error_prefix = 29"
  by (simp add: error_prefix_def jkey_def quoted_def)

text \<open>An error response never exceeds its 2048-byte body, and it stores as many characters as
  the length it records.  A message whose escaped text has at most 2017 characters is stored
  whole: a JSON reader gets exactly the message back, behind it the closing brace.\<close>

theorem error_response_text:
  "length (r_body (makeErrorResponse m)) = r_bodySize (makeErrorResponse m)
   \<and> r_bodySize (makeErrorResponse m) \<le> MAX_RSP_SIZE
   \<and> (if length (escape m) \<le> 2017
      then take 29 (r_body (makeErrorResponse m)) = error_prefix
        \<and> read_literal (drop 29 (r_body (makeErrorResponse m))) = Some (m, ''}'')
      else True)"
proof -
  have b: "length (escape_into m error_prefix) \<le> MAX_RSP_SIZE - 1"
    by (rule escape_into_bounded) (simp add: error_prefix_length MAX_RSP_SIZE_def)
  moreover have "escape_into m error_prefix = error_prefix @ escape m" if "length (escape m) \<le> 2017"
    by (rule escape_into_fits) (use that in \<open>simp add: error_prefix_length MAX_RSP_SIZE_def\<close>)
  ultimately show ?thesis
    by (auto simp: makeErrorResponse_def Let_def MAX_RSP_SIZE_def error_prefix_length response_init_def
        read_literal_escape)
qed

subsection \<open>Serialized responses carry their id\<close>

lemma accumulate_digits:
  assumes "\<forall>d \<in> set ds. is_digit d" and "\<not> is_digit c"
  shows "accumulate (word_of_nat a) (ds @ c # r) = word_of_nat (foldl (\<lambda>v c. v * 10 + char_digit c) a ds)"
  using assms
proof (induction ds arbitrary: a)
  case (Cons d ds)
  have "word_of_nat a * 10 + word_of_nat (char_digit d) = (word_of_nat (a * 10 + char_digit d) :: u64)"
    by simp
  then show ?case using Cons by (simp del: of_nat_add of_nat_mult)
qed simp

lemma extract_id_prefix: "extractCmdId (id_prefix i @ rest) = i"
proof -
  obtain c cs where c: "nat_str (unat i) = c # cs" "is_digit c" using nat_str_Cons by blast
  have "strstr (id_prefix i @ rest) id_key = Some (id_key @ nat_str (unat i) @ '','' @ rest)"
    by (simp add: id_prefix_def id_key_def quote_def)
  moreover have "dropWhile (\<lambda>c. c = CHR '' '' \<or> c = CHR 0x09) (nat_str (unat i) @ '','' @ rest)
      = nat_str (unat i) @ '','' @ rest"
    using c is_digit_not [OF c(2)] by (simp add: is_ws_def)
  moreover have "accumulate 0 (nat_str (unat i) @ CHR '','' # rest) = i"
    using accumulate_digits [OF nat_str_digits, of "CHR '',''" 0 "unat i" rest]
    by (simp add: digits_val_def [symmetric] digits_val_nat_str is_digit_def)
  ultimately show ?thesis using c by (simp add: extractCmdId_def id_key_def)
qed

text \<open>The serialized text of a response fits its buffer, and a client that scans it for the
  command id finds the id of the response whenever the response has a non-zero id and an object
  as its body, and the text with the id still fits; the rest of the text is the body without
  its opening brace.\<close>

theorem serialized_response_carries_id:
  assumes "r_kind rsp \<noteq> ResponseKind.NoResponse" and "r_id rsp \<noteq> 0"
    and "r_body rsp = CHR ''{'' # body" and "r_bodySize rsp = length body + 1"
    and "length (id_prefix (r_id rsp)) + length body < MAX_RSP_SIZE"
  shows "extractCmdId (serializeToBuffer rsp) = r_id rsp
    \<and> serializeToBuffer rsp = id_prefix (r_id rsp) @ body
    \<and> length (serializeToBuffer rsp) < MAX_RSP_SIZE"
proof -
  have "serializeToBuffer rsp = id_prefix (r_id rsp) @ body"
    using assms by (auto simp: serializeToBuffer_def body_bytes_def Let_def One_nat_def)
  then show ?thesis using extract_id_prefix assms(5) by simp
qed

theorem serialized_response_carries_id_witness:
  "extractCmdId (serializeToBuffer (makeAckThenResponse\<lparr>r_id := 4711\<rparr>)) = 4711"
proof -
  have p: "id_prefix 4711 = ''{'' @ id_key @ ''4711,''"
    by (simp add: id_prefix_def nat_str_eval digit_char_def)
  define R where "R = makeAckThenResponse\<lparr>r_id := 4711\<rparr>"
  have t: "accepted_text = CHR ''{'' # tl accepted_text" and n: "length accepted_text = 44"
    by (simp_all add: accepted_text_def ok_prefix_def jkey_def quoted_def)
  then have len: "length accepted_text = length (tl accepted_text) + 1" by (metis length_Cons Suc_eq_plus1)
  have "r_kind R \<noteq> ResponseKind.NoResponse" "r_id R \<noteq> 0" "r_bodySize R = length (tl accepted_text) + 1"
    "r_body R = CHR ''{'' # tl accepted_text" "r_id R = 4711"
    using t len by (simp_all add: R_def makeAckThenResponse_def response_init_def)
  moreover have "length (id_prefix 4711) + length (tl accepted_text) < MAX_RSP_SIZE"
    by (simp add: p n id_key_def MAX_RSP_SIZE_def)
  ultimately show ?thesis
    using serialized_response_carries_id [of R "tl accepted_text"] unfolding R_def by metis
qed

end
