(* ===== verification/Ring_Buffers.thy ===== *)
theory Ring_Buffers
  imports Response
begin

text \<open>
  The ring of pre-mortem events (\<^verbatim>\<open>diag/black_box.hpp\<close>, \<^verbatim>\<open>black_box.cpp\<close>) with the
  components that record into it, and the interface that every ring buffer of the firmware
  satisfies: a bounded memory of the newest entries.
\<close>

declare One_nat_def [simp del]

lemma unat_ucast_up: "LENGTH('a) \<le> LENGTH('b) \<Longrightarrow> unat (ucast x :: 'b::len word) = unat (x :: 'a::len word)"
  by (simp add: unsigned_ucast_eq take_bit_nat_eq_self_iff)
    (meson less_le_trans one_le_numeral power_increasing unsigned_less)

subsection \<open>The newest entries of a circular array\<close>

definition newest :: "'a list \<Rightarrow> nat \<Rightarrow> 'a list" where
  "newest xs n = map (\<lambda>i. xs ! ((n - Suc i) mod length xs)) [0 ..< min n (length xs)]"

lemma newest_0 [simp]: "newest xs 0 = []"
  by (simp add: newest_def)

lemma length_newest [simp]: "length (newest xs n) = min n (length xs)"
  by (simp add: newest_def)

lemma ring_index_neq:
  assumes "i < n" and "Suc i < c"
  shows "(n - Suc i) mod c \<noteq> n mod (c::nat)"
proof
  assume "(n - Suc i) mod c = n mod c"
  then have "c dvd n - (n - Suc i)"
    by (metis mod_eq_dvd_iff_nat diff_le_self)
  moreover have "n - (n - Suc i) = Suc i" using assms by simp
  ultimately show False using assms(2) by (auto dest: dvd_imp_le)
qed

lemma newest_put:
  assumes "0 < length xs"
  shows "newest (xs[n mod length xs := x]) (Suc n) = take (length xs) (x # newest xs n)"
proof -
  let ?c = "length xs"
  obtain d where d: "?c = Suc d" using assms by (cases ?c) auto
  have "newest (xs[n mod ?c := x]) (Suc n)
      = map (\<lambda>i. (xs[n mod ?c := x]) ! ((n - i) mod ?c)) [0 ..< Suc (min n d)]"
    by (simp add: newest_def d min_Suc_Suc)
  also have "\<dots> = x # map (\<lambda>i. (xs[n mod ?c := x]) ! ((n - Suc i) mod ?c)) [0 ..< min n d]"
    by (subst map_upt_Suc_Cons) (use assms in simp)
  also have "map (\<lambda>i. (xs[n mod ?c := x]) ! ((n - Suc i) mod ?c)) [0 ..< min n d]
      = map (\<lambda>i. xs ! ((n - Suc i) mod ?c)) [0 ..< min n d]"
  proof (rule map_cong)
    fix i assume "i \<in> set [0 ..< min n d]"
    then have "(n - Suc i) mod ?c \<noteq> n mod ?c" by (intro ring_index_neq) (auto simp: d)
    then show "(xs[n mod ?c := x]) ! ((n - Suc i) mod ?c) = xs ! ((n - Suc i) mod ?c)" by simp
  qed simp
  also have "x # map (\<lambda>i. xs ! ((n - Suc i) mod ?c)) [0 ..< min n d] = take ?c (x # newest xs n)"
    by (auto simp: newest_def d take_map min_def)
  finally show ?thesis .
qed

subsection \<open>The interface of a ring\<close>

text \<open>
  \<open>inv n s\<close>: \<open>s\<close> is a ring into which \<open>n\<close> entries were put; below \<open>limit\<close> entries, putting one
  more keeps the \<open>cap\<close> newest.  \<open>stored\<close> is what the ring keeps of an entry (a stamp is added,
  a text is cut).
\<close>

locale ring_buffer =
  fixes inv :: "nat \<Rightarrow> 's \<Rightarrow> bool"
    and ok :: "'a \<Rightarrow> bool"
    and put :: "'a \<Rightarrow> 's \<Rightarrow> 's"
    and stored :: "'a \<Rightarrow> 'e"
    and recent :: "'s \<Rightarrow> 'e list"
    and cap :: nat
    and limit :: nat
  assumes put_inv: "inv n s \<Longrightarrow> Suc n < limit \<Longrightarrow> ok a \<Longrightarrow> inv (Suc n) (put a s)"
    and recent_put: "inv n s \<Longrightarrow> Suc n < limit \<Longrightarrow> ok a \<Longrightarrow> recent (put a s) = take cap (stored a # recent s)"
begin

lemma puts_inv:
  "inv n s \<Longrightarrow> n + length as < limit \<Longrightarrow> (\<forall>a \<in> set as. ok a) \<Longrightarrow> inv (n + length as) (fold put as s)"
proof (induction as arbitrary: n s)
  case (Cons a as)
  then have "inv (Suc n) (put a s)" by (intro put_inv [of n]) auto
  then show ?case using Cons.IH [of "Suc n" "put a s"] Cons.prems by simp
qed simp

lemma recent_puts:
  assumes "inv n s" "n + length as < limit" "\<forall>a \<in> set as. ok a" "length (recent s) \<le> cap"
  shows "recent (fold put as s) = take cap (rev (map stored as) @ recent s)"
  using assms
proof (induction as arbitrary: n s)
  case (Cons a as)
  then have p: "recent (put a s) = take cap (stored a # recent s)" by (intro recent_put [of n]) auto
  have "inv (Suc n) (put a s)" using Cons.prems by (intro put_inv [of n]) auto
  moreover have "length (recent (put a s)) \<le> cap" by (simp add: p)
  ultimately have "recent (fold put as (put a s)) = take cap (rev (map stored as) @ recent (put a s))"
    using Cons.prems Cons.IH [of "Suc n" "put a s"] by simp
  then show ?case by (simp add: p min_def)
qed simp

corollary recent_last:
  assumes "inv 0 s" "length as < limit" "\<forall>a \<in> set as. ok a" "recent s = []"
  shows "recent (fold put as s) = take cap (rev (map stored as))"
  using recent_puts [of 0 s as] assms by simp

end

subsection \<open>Black box\<close>

datatype EventType =
  FfiEnter | FfiExit | StateTransition | ThreadStart | TickBegin | TickEnd | AllocRequest | Error
| TickDuration

fun event_code :: "EventType \<Rightarrow> nat" where
  "event_code FfiEnter = 0"
| "event_code FfiExit = 1"
| "event_code StateTransition = 2"
| "event_code ThreadStart = 3"
| "event_code TickBegin = 4"
| "event_code TickEnd = 5"
| "event_code AllocRequest = 6"
| "event_code EventType.Error = 7"
| "event_code TickDuration = 8"

record Event =
  ev_timestampUs :: u64
  ev_type :: EventType
  ev_threadId :: u8
  ev_payloadId :: u16
  ev_payloadValue :: u32

definition event_init :: Event where
  "event_init = \<lparr>ev_timestampUs = 0, ev_type = FfiEnter, ev_threadId = 0, ev_payloadId = 0,
     ev_payloadValue = 0\<rparr>"

definition RING_SIZE :: nat where "RING_SIZE = 64"

record BlackBoxRing =
  bb_ring :: "Event list"
  bb_head :: u32

definition bb_new :: BlackBoxRing where
  "bb_new = \<lparr>bb_ring = replicate RING_SIZE event_init, bb_head = 0\<rparr>"

definition bb_init :: "BlackBoxRing \<Rightarrow> BlackBoxRing" where
  "bb_init bb = bb\<lparr>bb_head := 0\<rparr>"

text \<open>\<open>now\<close> is the value of \<^verbatim>\<open>esp_timer_get_time\<close>.\<close>

definition bb_record :: "u64 \<Rightarrow> Event \<Rightarrow> BlackBoxRing \<Rightarrow> BlackBoxRing" where
  "bb_record now e bb =
     bb\<lparr>bb_ring := (bb_ring bb)[unat (bb_head bb mod 64) := e\<lparr>ev_timestampUs := now\<rparr>],
        bb_head := bb_head bb + 1\<rparr>"

definition bb_count :: "BlackBoxRing \<Rightarrow> nat" where
  "bb_count bb = (if unat (bb_head bb) < RING_SIZE then unat (bb_head bb) else RING_SIZE)"

definition dump_events :: "BlackBoxRing \<Rightarrow> Event list" where
  "dump_events bb =
     map (\<lambda>i. bb_ring bb ! unat ((bb_head bb - 1 - word_of_nat i) mod 64)) [0 ..< bb_count bb]"

text \<open>The panic-safe formatter writes digits backwards from the end of its buffer.\<close>

function fmt_loop :: "nat \<Rightarrow> u64 \<Rightarrow> string \<Rightarrow> string" where
  "fmt_loop room v s =
     (if 0 < v \<and> 0 < room then fmt_loop (room - 1) (v div 10) (digit_char (unat (v mod 10)) # s) else s)"
  by auto
termination by (relation "measure (\<lambda>(room, v, s). room)") auto

declare fmt_loop.simps [simp del]

definition fmt_uint :: "u64 \<Rightarrow> nat \<Rightarrow> string" where
  "fmt_uint v cap = (if v = 0 then ''0'' else fmt_loop (cap - 1) v [])"

definition num :: "u64 \<Rightarrow> string" where "num v = fmt_uint v 24"

definition dump_write :: "BlackBoxRing \<Rightarrow> string" where
  "dump_write bb =
     ''=== BLACK BOX ('' @ num (word_of_nat (bb_count bb)) @ '' events, newest first) ==='' @ [CHR 0x0A]
     @ concat (map (\<lambda>e. ''['' @ num (ev_timestampUs e) @ ''] t'' @ num (ucast (ev_threadId e))
          @ '' type='' @ num (word_of_nat (event_code (ev_type e))) @ '' id='' @ num (ucast (ev_payloadId e))
          @ '' val='' @ num (ucast (ev_payloadValue e)) @ [CHR 0x0A])
        (dump_events bb))"

definition dump_printf :: "BlackBoxRing \<Rightarrow> string" where
  "dump_printf bb =
     ''=== BLACK BOX ('' @ nat_str (bb_count bb) @ '' events, newest first) ==='' @ [CHR 0x0A]
     @ concat (map (\<lambda>e. ''['' @ nat_str (unat (ev_timestampUs e)) @ ''] t'' @ nat_str (unat (ev_threadId e))
          @ '' type='' @ nat_str (event_code (ev_type e)) @ '' id='' @ nat_str (unat (ev_payloadId e))
          @ '' val='' @ nat_str (unat (ev_payloadValue e)) @ [CHR 0x0A])
        (dump_events bb))"

subsection \<open>Recorders\<close>

text \<open>\<open>name\<close> is the name of the running task (\<^verbatim>\<open>pcTaskGetName\<close>).\<close>

definition known_threads :: "(string \<times> u8) list" where
  "known_threads = [(''main'', 1), (''motor'', 2), (''temp'', 3), (''net_owner'', 4), (''ble_notify'', 5),
     (''log_worker'', 6), (''Tmr Svc'', 7)]"

definition getThreadId :: "string \<Rightarrow> u8" where
  "getThreadId name = (case map_of known_threads name of Some i \<Rightarrow> i | None \<Rightarrow> 0xFF)"

definition ffi_enter :: "string \<Rightarrow> u64 \<Rightarrow> u16 \<Rightarrow> BlackBoxRing \<Rightarrow> BlackBoxRing" where
  "ffi_enter name now boundaryId =
     bb_record now (event_init\<lparr>ev_type := FfiEnter, ev_threadId := getThreadId name,
                               ev_payloadId := boundaryId, ev_payloadValue := 0\<rparr>)"

definition ffi_exit :: "bool \<Rightarrow> string \<Rightarrow> u64 \<Rightarrow> u16 \<Rightarrow> BlackBoxRing \<Rightarrow> BlackBoxRing" where
  "ffi_exit exited name now boundaryId bb =
     (if exited then bb
      else bb_record now (event_init\<lparr>ev_type := FfiExit, ev_threadId := getThreadId name,
                                     ev_payloadId := boundaryId, ev_payloadValue := 0\<rparr>) bb)"

definition logBuretteTransition :: "u64 \<Rightarrow> BlackBoxRing \<Rightarrow> BlackBoxRing" where
  "logBuretteTransition now =
     bb_record now (event_init\<lparr>ev_type := StateTransition, ev_payloadId := 0, ev_payloadValue := 0\<rparr>)"

definition logTransportTransition :: "u64 \<Rightarrow> BlackBoxRing \<Rightarrow> BlackBoxRing" where
  "logTransportTransition now =
     bb_record now (event_init\<lparr>ev_type := StateTransition, ev_payloadId := 1, ev_payloadValue := 0\<rparr>)"

definition logError :: "u64 \<Rightarrow> BlackBoxRing \<Rightarrow> BlackBoxRing" where
  "logError now =
     bb_record now (event_init\<lparr>ev_type := EventType.Error, ev_payloadId := 0, ev_payloadValue := 0\<rparr>)"

text \<open>
  The destructor of the tick watchdog: the warning (the elapsed time when it exceeds 10 ms),
  the static counter and the black box after it.
\<close>

definition tick_watchdog :: "u64 \<Rightarrow> u64 \<Rightarrow> u64 \<Rightarrow> u32 \<Rightarrow> BlackBoxRing \<Rightarrow> u64 option \<times> u32 \<times> BlackBoxRing" where
  "tick_watchdog startUs endUs now counter bb =
     (let elapsed = endUs - startUs;
          warn = (if 10000 < elapsed then Some elapsed else None);
          counter' = counter + 1
      in (warn, counter',
          if counter' mod 100 = 0
          then bb_record now (event_init\<lparr>ev_type := TickDuration, ev_payloadId := ucast (elapsed div 1000),
                                         ev_payloadValue := ucast elapsed\<rparr>) bb
          else bb))"

subsection \<open>The black box is a ring of 64\<close>

definition bb_inv :: "nat \<Rightarrow> BlackBoxRing \<Rightarrow> bool" where
  "bb_inv n bb \<longleftrightarrow> length (bb_ring bb) = 64 \<and> bb_head bb = word_of_nat n \<and> n < 2 ^ 32"

lemma dump_events_newest: "bb_inv n bb \<Longrightarrow> dump_events bb = newest (bb_ring bb) n"
proof -
  assume "bb_inv n bb"
  then have l: "length (bb_ring bb) = 64" and h: "bb_head bb = word_of_nat n" and n: "n < 2 ^ 32"
    by (auto simp: bb_inv_def)
  have u: "unat (word_of_nat n :: u32) = n" using n by (intro unat_word_of_nat) simp
  have "unat ((bb_head bb - 1 - word_of_nat i) mod 64) = (n - Suc i) mod 64" if "i < min n 64" for i
  proof -
    have "bb_head bb - 1 - word_of_nat i = word_of_nat (n - Suc i)"
      using that by (simp add: h of_nat_diff)
    moreover have "unat (word_of_nat (n - Suc i) :: u32) = n - Suc i"
      using n by (intro unat_word_of_nat) simp
    ultimately show ?thesis by (simp add: unat_mod)
  qed
  then show "dump_events bb = newest (bb_ring bb) n"
    by (auto simp: dump_events_def newest_def bb_count_def RING_SIZE_def h u l min_def)
qed

lemma bb_record_inv: "bb_inv n bb \<Longrightarrow> Suc n < 2 ^ 32 \<Longrightarrow> bb_inv (Suc n) (bb_record now e bb)"
  by (simp add: bb_inv_def bb_record_def add.commute)

lemma dump_events_record:
  assumes "bb_inv n bb" "Suc n < 2 ^ 32"
  shows "dump_events (bb_record now e bb) = take 64 (e\<lparr>ev_timestampUs := now\<rparr> # dump_events bb)"
proof -
  have u: "unat (word_of_nat n :: u32) = n" using assms by (intro unat_word_of_nat) simp
  then have "unat (bb_head bb mod 64) = n mod length (bb_ring bb)"
    using assms by (simp add: bb_inv_def unat_mod)
  moreover have "bb_ring bb \<noteq> []" "length (bb_ring bb) = 64" using assms by (auto simp: bb_inv_def)
  ultimately show ?thesis
    using newest_put [of "bb_ring bb" n "e\<lparr>ev_timestampUs := now\<rparr>"] assms
    by (simp add: dump_events_newest [OF bb_record_inv] dump_events_newest [of n]) (simp add: bb_record_def)
qed

interpretation black_box: ring_buffer bb_inv "\<lambda>_. True" "\<lambda>(now, e). bb_record now e"
  "\<lambda>(now, e). e\<lparr>ev_timestampUs := now\<rparr>" dump_events 64 "2 ^ 32"
  by unfold_locales (auto simp: bb_record_inv dump_events_record split: prod.splits)

text \<open>C38.  After any sequence of fewer than 2^32 records since the black box was initialised, a dump
  shows exactly the last 64 of them (all of them when there were fewer), newest first, each
  with the time it was recorded at.\<close>

theorem black_box_keeps_last_64:
  assumes "length es < 2 ^ 32" and "length (bb_ring bb) = 64"
  shows "dump_events (fold (\<lambda>(now, e). bb_record now e) es (bb_init bb))
    = take 64 (rev (map (\<lambda>(now, e). e\<lparr>ev_timestampUs := now\<rparr>) es))"
  by (rule black_box.recent_last) (use assms in \<open>auto simp: bb_inv_def bb_init_def dump_events_def bb_count_def RING_SIZE_def\<close>)

theorem black_box_keeps_last_64_witness:
  "dump_events (logError 5 (ffi_enter ''motor'' 3 30 (bb_init bb_new)))
   = [event_init\<lparr>ev_type := EventType.Error, ev_timestampUs := 5\<rparr>,
      event_init\<lparr>ev_threadId := 2, ev_payloadId := 30, ev_timestampUs := 3\<rparr>]"
  using black_box_keeps_last_64 [of "[(3, event_init\<lparr>ev_type := FfiEnter, ev_threadId := getThreadId ''motor'',
      ev_payloadId := 30, ev_payloadValue := 0\<rparr>), (5, event_init\<lparr>ev_type := EventType.Error,
      ev_payloadId := 0, ev_payloadValue := 0\<rparr>)]" bb_new]
  by (simp add: bb_new_def RING_SIZE_def logError_def ffi_enter_def getThreadId_def known_threads_def event_init_def)

subsection \<open>Both dumps print the same text\<close>

lemma fmt_loop_nat_str:
  "unat v < 10 ^ room \<Longrightarrow> 0 < v \<Longrightarrow> fmt_loop room v s = nat_str (unat v) @ s"
proof (induction room arbitrary: v s)
  case 0
  then show ?case by (simp add: word_gt_0 unat_eq_zero)
next
  case (Suc room)
  have m: "unat (v mod 10) = unat v mod 10" and d: "unat (v div 10) = unat v div 10"
    by (simp_all add: unat_mod unat_div)
  show ?case
  proof (cases "unat v < 10")
    case True
    then have "v div 10 = 0" using d by (simp add: unat_eq_zero)
    then show ?thesis using Suc.prems True m
      by (subst fmt_loop.simps, subst nat_str.simps) (simp add: fmt_loop.simps)
  next
    case False
    then have "0 < v div 10" using d by (simp add: word_gt_0 unat_eq_zero [symmetric])
    moreover have "unat (v div 10) < 10 ^ room" using Suc.prems d
      by (simp add: less_mult_imp_div_less mult.commute)
    ultimately show ?thesis using Suc.IH [of "v div 10"] Suc.prems False m d
      by (subst fmt_loop.simps, subst nat_str.simps) simp
  qed
qed

lemma num_nat_str: "num v = nat_str (unat v)"
proof (cases "v = 0")
  case True
  then show ?thesis by (simp add: num_def fmt_uint_def text_simps)
next
  case False
  have "unat v < 10 ^ 23" using unsigned_less [of v, where ?'a = nat] by simp
  then show ?thesis using False fmt_loop_nat_str [of v 23 "[]"]
    by (simp add: num_def fmt_uint_def word_gt_0)
qed

lemma event_code_small: "event_code t < 9"
  by (cases t) simp_all

text \<open>C39.  The panic-safe dump, which formats numbers by hand, writes the same text as the dump that
  uses \<^verbatim>\<open>printf\<close>.\<close>

theorem dumps_agree: "dump_write bb = dump_printf bb"
proof -
  have "unat (word_of_nat (event_code t) :: u64) = event_code t" for t
    by (rule unat_word_of_nat) (use event_code_small [of t] in simp)
  moreover have "unat (word_of_nat (bb_count bb) :: u64) = bb_count bb"
    by (rule unat_word_of_nat) (simp add: bb_count_def RING_SIZE_def)
  ultimately show ?thesis
    by (simp add: dump_write_def dump_printf_def num_nat_str unat_ucast_up)
qed

end
