(* ===== verification/Logs.thy ===== *)
theory Logs
  imports Ring_Buffers
begin

text \<open>
  Log storage and its two ends: the circular log buffer with its worker
  (\<^verbatim>\<open>domain/log_buffer.hpp\<close>, \<^verbatim>\<open>log_buffer.cpp\<close>), and the capture hook and the web-socket
  callback of \<^verbatim>\<open>main/log_capture.cpp\<close>.
\<close>

declare One_nat_def [simp del]

subsection \<open>Log buffer\<close>

record LogEntry =
  le_timestampMs :: u32
  le_level :: string
  le_message :: string

definition MAX_MSG_LEN :: nat where "MAX_MSG_LEN = 128"
definition LOG_QUEUE_LENGTH :: nat where "LOG_QUEUE_LENGTH = 16"

text \<open>
  A slot has the fields of an entry; a timestamp of zero marks it empty.  The queue is absent
  until the first push creates it.
\<close>

record LogBuffer =
  lb_slots :: "LogEntry list"
  lb_capacity :: u32
  lb_head :: u32
  lb_pushing :: bool
  lb_queue :: "nat list option"
  lb_initialized :: bool

definition slot_init :: LogEntry where
  "slot_init = \<lparr>le_timestampMs = 0, le_level = [], le_message = []\<rparr>"

definition lb_new :: LogBuffer where
  "lb_new = \<lparr>lb_slots = [], lb_capacity = 0, lb_head = 0, lb_pushing = False, lb_queue = None,
     lb_initialized = False\<rparr>"

definition lb_init :: "nat \<Rightarrow> LogBuffer \<Rightarrow> LogBuffer" where
  "lb_init capacity lb =
     (if lb_initialized lb then lb
      else lb\<lparr>lb_slots := replicate capacity slot_init, lb_capacity := word_of_nat capacity,
              lb_queue := None, lb_initialized := True\<rparr>)"

text \<open>\<open>created\<close> is the result of \<^verbatim>\<open>xQueueCreate\<close>, used when there is no queue yet.\<close>

definition ensureQueue :: "bool \<Rightarrow> nat list option \<Rightarrow> nat list option" where
  "ensureQueue created q = (case q of None \<Rightarrow> if created then Some [] else None | Some q \<Rightarrow> Some q)"

definition queue_send :: "nat \<Rightarrow> 'a \<Rightarrow> 'a list \<Rightarrow> 'a list" where
  "queue_send depth x q = (if length q < depth then q @ [x] else q)"

text \<open>The slot index is \<^verbatim>\<open>head % capacity\<close>; the firmware only ever sets the positive capacity
  \<^const>\<open>LOG_BUF_ENTRIES\<close>.\<close>

definition stored_entry :: "LogEntry \<Rightarrow> LogEntry" where
  "stored_entry e = \<lparr>le_timestampMs = le_timestampMs e, le_level = strncpy_z 8 (le_level e),
     le_message = strncpy_z MAX_MSG_LEN (le_message e)\<rparr>"

definition lb_push :: "bool \<Rightarrow> LogEntry \<Rightarrow> LogBuffer \<Rightarrow> LogBuffer" where
  "lb_push created e lb =
     (if \<not> lb_initialized lb then lb
      else if lb_pushing lb then lb
      else let idx = unat (lb_head lb mod lb_capacity lb)
           in lb\<lparr>lb_head := lb_head lb + 1,
                 lb_slots := (lb_slots lb)[idx := stored_entry e],
                 lb_queue := map_option (queue_send LOG_QUEUE_LENGTH idx) (ensureQueue created (lb_queue lb)),
                 lb_pushing := False\<rparr>)"

text \<open>One round of the worker: the entry handed to the callback, if any.\<close>

definition worker_step :: "LogBuffer \<Rightarrow> LogEntry option \<times> LogBuffer" where
  "worker_step lb =
     (case lb_queue lb of
        Some (idx # q) \<Rightarrow>
          (let slot = lb_slots lb ! idx; lb' = lb\<lparr>lb_queue := Some q\<rparr>
           in if le_timestampMs slot = 0 then (None, lb') else (Some (stored_entry slot), lb'))
      | _ \<Rightarrow> (None, lb))"

fun worker_run :: "nat \<Rightarrow> LogBuffer \<Rightarrow> LogEntry list \<times> LogBuffer" where
  "worker_run 0 lb = ([], lb)"
| "worker_run (Suc k) lb =
     (let (e, lb1) = worker_step lb; (es, lb2) = worker_run k lb1
      in (case e of None \<Rightarrow> es | Some e \<Rightarrow> e # es, lb2))"

text \<open>One round of the worker's loop, with the report of the stacks that is due once a minute: a slot that
  was cleared in the meantime skips it.  The result tells whether the report is made, and when the
  last one was.\<close>

definition workerTask_round :: "u32 \<Rightarrow> u32 \<Rightarrow> LogBuffer \<Rightarrow> LogEntry option \<times> bool \<times> u32 \<times> LogBuffer" where
  "workerTask_round now lastWmLog lb =
     (let (e, lb1) = worker_step lb;
          cleared = (lb_queue lb \<noteq> lb_queue lb1 \<and> e = None);
          due = (\<not> cleared \<and> now - lastWmLog \<ge> 60000)
      in (e, due, if due then now else lastWmLog, lb1))"

definition lb_clear :: "LogBuffer \<Rightarrow> LogBuffer" where
  "lb_clear lb =
     (if \<not> lb_initialized lb then lb
      else lb\<lparr>lb_slots := map (\<lambda>s. s\<lparr>le_timestampMs := 0, le_level := [], le_message := []\<rparr>) (lb_slots lb),
              lb_head := 0\<rparr>)"

definition fetch_index :: "LogBuffer \<Rightarrow> u32 \<Rightarrow> nat" where
  "fetch_index lb offset =
     unat (if lb_head lb \<ge> offset then (lb_head lb - offset) mod lb_capacity lb
           else (lb_capacity lb + lb_head lb - offset) mod lb_capacity lb)"

text \<open>The scan over the offsets stops when \<open>maxCount\<close> entries are written; an empty filter
  (or none) accepts every level.\<close>

fun fetch_scan :: "LogBuffer \<Rightarrow> string \<Rightarrow> nat \<Rightarrow> u32 list \<Rightarrow> LogEntry list" where
  "fetch_scan lb flt maxCount [] = []"
| "fetch_scan lb flt maxCount (offset # offsets) =
     (if maxCount = 0 then []
      else let slot = lb_slots lb ! fetch_index lb offset
           in if le_timestampMs slot = 0 then fetch_scan lb flt maxCount offsets
              else if flt \<noteq> [] \<and> le_level slot \<noteq> flt then fetch_scan lb flt maxCount offsets
              else stored_entry slot # fetch_scan lb flt (maxCount - 1) offsets)"

definition lb_fetch :: "LogBuffer \<Rightarrow> nat \<Rightarrow> string \<Rightarrow> LogEntry list" where
  "lb_fetch lb maxCount flt =
     (if \<not> lb_initialized lb then []
      else fetch_scan lb flt maxCount (map word_of_nat [1 ..< unat (lb_capacity lb) + 1]))"

subsection \<open>Log capture\<close>

definition WS_BUF_SIZE :: nat where "WS_BUF_SIZE = 384"

definition line_level :: "string \<Rightarrow> string" where
  "line_level buf =
     (if take 2 buf = ''W '' then ''WARN''
      else if take 2 buf = ''E '' then ''ERROR''
      else if take 2 buf = ''D '' then ''DEBUG''
      else ''INFO'')"

text \<open>
  \<open>text\<close> is the whole formatted line.  The result is the number of bytes passed to
  \<^verbatim>\<open>fwrite\<close>: for a line longer than the buffer it exceeds what the buffer holds, which is the
  undefined case.
\<close>

definition logVprintf :: "bool \<Rightarrow> u32 \<Rightarrow> string \<Rightarrow> LogBuffer \<Rightarrow> (string \<times> LogBuffer) outcome" where
  "logVprintf created ticks line lb =
     (let (buf, n) = snprintf WS_BUF_SIZE line;
          lb' = (if 0 < n \<and> n < WS_BUF_SIZE
                 then lb_push created \<lparr>le_timestampMs = ticks, le_level = line_level buf, le_message = buf\<rparr> lb
                 else lb)
      in if n \<le> length buf + 1 then Some (take n (buf @ [CHR 0x00]), lb') else None)"

definition ws_prefix :: "string \<Rightarrow> string" where
  "ws_prefix level = ''{'' @ jkey ''event'' @ quoted ''log'' @ '','' @ jkey ''data'' @ ''{'' @ jkey ''level''
     @ quoted level @ '','' @ jkey ''msg'' @ [quote]"

definition ws_char :: "char \<Rightarrow> string" where
  "ws_char c =
     (if c = quote then [CHR 0x27]
      else if c = backslash then ''/''
      else if c = CHR 0x0A then [backslash, CHR ''n'']
      else if c = CHR 0x0D then [backslash, CHR ''r'']
      else if c = CHR 0x09 then [backslash, CHR ''t'']
      else [c])"

fun ws_copy :: "string \<Rightarrow> string \<Rightarrow> string" where
  "ws_copy [] buf = buf"
| "ws_copy (c # src) buf =
     (if c \<noteq> CHR 0x00 \<and> length buf < WS_BUF_SIZE - 6 then ws_copy src (buf @ ws_char c) else buf)"

definition ws_event :: "LogEntry \<Rightarrow> string" where
  "ws_event entry =
     (let buf = ws_copy (le_message entry) (fst (snprintf WS_BUF_SIZE (ws_prefix (le_level entry))));
          text = buf @ fst (snprintf (WS_BUF_SIZE - length buf) (quote # ''}}''))
      in if length text > WS_BUF_SIZE - 1 then take (WS_BUF_SIZE - 1) text else text)"

definition WS_SEND_QUEUE_DEPTH :: nat where "WS_SEND_QUEUE_DEPTH = 16"

definition wsLogCallback :: "LogEntry \<Rightarrow> string list option \<Rightarrow> string list option" where
  "wsLogCallback entry = map_option (\<lambda>q. if ws_event entry = [] then q
     else queue_send WS_SEND_QUEUE_DEPTH (ws_event entry) q)"

subsection \<open>The buffer is a ring\<close>

definition entry_ok :: "LogEntry \<Rightarrow> bool" where
  "entry_ok e \<longleftrightarrow> le_timestampMs e \<noteq> 0"

definition lb_inv :: "nat \<Rightarrow> LogBuffer \<Rightarrow> bool" where
  "lb_inv n lb \<longleftrightarrow> lb_initialized lb \<and> \<not> lb_pushing lb \<and> 0 < length (lb_slots lb)
     \<and> length (lb_slots lb) = LOG_BUF_ENTRIES \<and> lb_capacity lb = word_of_nat LOG_BUF_ENTRIES
     \<and> n < 2 ^ 31 \<and> lb_head lb = word_of_nat n
     \<and> (\<forall>i < LOG_BUF_ENTRIES. le_timestampMs (lb_slots lb ! i) = 0 \<longleftrightarrow> n \<le> i)
     \<and> (\<forall>s \<in> set (lb_slots lb). stored_entry s = s)"

lemma strncpy_z_idem [simp]: "strncpy_z n (strncpy_z n s) = strncpy_z n s"
proof -
  have "\<forall>c \<in> set (take (n - 1) (takeWhile (\<lambda>c. c \<noteq> CHR 0x00) s)). c \<noteq> CHR 0x00"
    by (auto dest!: in_set_takeD set_takeWhileD)
  then have "takeWhile (\<lambda>c. c \<noteq> CHR 0x00) (take (n - 1) (takeWhile (\<lambda>c. c \<noteq> CHR 0x00) s))
      = take (n - 1) (takeWhile (\<lambda>c. c \<noteq> CHR 0x00) s)"
    by (rule takeWhile_eq_all_conv [THEN iffD2])
  then show ?thesis by (simp only: strncpy_z_def take_take min.idem)
qed

lemma stored_entry_idem [simp]: "stored_entry (stored_entry e) = stored_entry e"
  by (simp add: stored_entry_def)

lemma stored_entry_timestamp [simp]: "le_timestampMs (stored_entry e) = le_timestampMs e"
  by (simp add: stored_entry_def)

lemma LOG_BUF_ENTRIES_pos [simp]: "0 < LOG_BUF_ENTRIES"
  by (simp add: LOG_BUF_ENTRIES_def)

lemma lb_inv_head: "lb_inv n lb \<Longrightarrow> unat (lb_head lb) = n \<and> unat (lb_capacity lb) = LOG_BUF_ENTRIES"
  by (auto simp: lb_inv_def LOG_BUF_ENTRIES_def unat_word_of_nat)

lemma lb_push_inv:
  assumes "lb_inv n lb" "Suc n < 2 ^ 31" "entry_ok e"
  shows "lb_inv (Suc n) (lb_push created e lb)"
proof -
  have idx: "unat (lb_head lb mod lb_capacity lb) = n mod LOG_BUF_ENTRIES"
    using lb_inv_head [OF assms(1)] by (simp add: unat_mod)
  have A: "le_timestampMs ((lb_slots lb)[n mod LOG_BUF_ENTRIES := stored_entry e] ! i) = 0 \<longleftrightarrow> Suc n \<le> i"
    if "i < LOG_BUF_ENTRIES" for i
  proof (cases "i = n mod LOG_BUF_ENTRIES")
    case True
    then have "i \<le> n" by simp
    moreover have "\<not> Suc n \<le> n mod LOG_BUF_ENTRIES" by (simp add: not_le le_imp_less_Suc)
    ultimately show ?thesis using assms that True by (simp add: lb_inv_def entry_ok_def)
  next
    case False
    then have "i \<noteq> n" using that by auto
    then show ?thesis using assms(1) that False by (auto simp: lb_inv_def)
  qed
  have B: "\<forall>s \<in> set ((lb_slots lb)[n mod LOG_BUF_ENTRIES := stored_entry e]). stored_entry s = s"
  proof (rule ballI)
    fix s assume "s \<in> set ((lb_slots lb)[n mod LOG_BUF_ENTRIES := stored_entry e])"
    then have "s = stored_entry e \<or> s \<in> set (lb_slots lb)" using set_update_subset_insert by fast
    moreover have "\<forall>s \<in> set (lb_slots lb). stored_entry s = s" using assms(1) by (simp add: lb_inv_def)
    ultimately show "stored_entry s = s" using stored_entry_idem by blast
  qed
  have P: "lb_push created e lb
      = lb\<lparr>lb_head := lb_head lb + 1, lb_slots := (lb_slots lb)[n mod LOG_BUF_ENTRIES := stored_entry e],
           lb_queue := map_option (queue_send LOG_QUEUE_LENGTH (n mod LOG_BUF_ENTRIES)) (ensureQueue created (lb_queue lb)),
           lb_pushing := False\<rparr>"
    using assms(1) unfolding lb_push_def Let_def idx by (simp add: lb_inv_def)
  have H: "lb_head lb + 1 = word_of_nat (Suc n)" using assms by (simp add: lb_inv_def add.commute)
  have C: "lb_initialized lb" "0 < length (lb_slots lb)" "length (lb_slots lb) = LOG_BUF_ENTRIES"
      "lb_capacity lb = word_of_nat LOG_BUF_ENTRIES"
    using assms(1) by (auto simp: lb_inv_def)
  show ?thesis
    unfolding lb_inv_def P
    by (intro conjI) (use A B C H assms(2) in \<open>simp_all del: of_nat_Suc\<close>)
qed

definition log_recent :: "LogBuffer \<Rightarrow> LogEntry list" where
  "log_recent lb = newest (lb_slots lb) (unat (lb_head lb))"

lemma log_recent_push:
  assumes "lb_inv n lb" "Suc n < 2 ^ 31"
  shows "log_recent (lb_push created e lb) = take LOG_BUF_ENTRIES (stored_entry e # log_recent lb)"
proof -
  have h: "unat (lb_head lb) = n" "unat (lb_head lb mod lb_capacity lb) = n mod length (lb_slots lb)"
    using lb_inv_head [OF assms(1)] assms by (auto simp: unat_mod lb_inv_def)
  have "lb_head lb + 1 = word_of_nat (Suc n)" using assms by (simp add: lb_inv_def add.commute)
  moreover have "unat (word_of_nat (Suc n) :: u32) = Suc n" using assms by (intro unat_word_of_nat) simp
  ultimately have s: "unat (lb_head lb + 1) = Suc n" by (simp only:)
  have "lb_initialized lb" "\<not> lb_pushing lb" "0 < length (lb_slots lb)" "length (lb_slots lb) = LOG_BUF_ENTRIES"
    using assms by (auto simp: lb_inv_def)
  then show ?thesis
    using newest_put [of "lb_slots lb" n "stored_entry e"]
    by (simp add: log_recent_def lb_push_def Let_def h s)
qed

interpretation log_buffer: ring_buffer lb_inv "\<lambda>(created, e). entry_ok e" "\<lambda>(created, e). lb_push created e"
  "\<lambda>(created, e). stored_entry e" log_recent LOG_BUF_ENTRIES "2 ^ 31"
  by unfold_locales (auto simp: lb_push_inv log_recent_push split: prod.splits)

subsection \<open>Fetching reads the ring\<close>

lemma fetch_scan_filter:
  assumes "\<forall>s \<in> set (lb_slots lb). stored_entry s = s"
    and "\<forall>o' \<in> set os. fetch_index lb o' < length (lb_slots lb)"
  shows "fetch_scan lb flt m os = take m (filter (\<lambda>s. le_timestampMs s \<noteq> 0 \<and> (flt = [] \<or> le_level s = flt))
     (map (\<lambda>o'. lb_slots lb ! fetch_index lb o') os))"
  using assms(2)
proof (induction os arbitrary: m)
  case (Cons o' os)
  then have "stored_entry (lb_slots lb ! fetch_index lb o') = lb_slots lb ! fetch_index lb o'"
    using assms(1) by simp
  then show ?case using Cons by (cases m) (auto simp: Let_def)
qed simp

lemma unat_offset: "i < LOG_BUF_ENTRIES \<Longrightarrow> unat (word_of_nat (i + 1) :: u32) = i + 1"
  by (rule unat_word_of_nat) (simp add: LOG_BUF_ENTRIES_def)

lemma fetch_index_low:
  assumes "lb_inv n lb" "i < n" "i < LOG_BUF_ENTRIES"
  shows "fetch_index lb (word_of_nat (i + 1)) = (n - Suc i) mod LOG_BUF_ENTRIES"
proof -
  have n: "n < 2 ^ 31" "lb_head lb = word_of_nat n" using assms by (auto simp: lb_inv_def)
  have w: "(word_of_nat (i + 1) :: u32) \<le> word_of_nat n"
    using assms n unat_offset [of i] unat_word_of_nat [where 'a = 32, of n]
    by (simp add: word_le_nat_alt del: of_nat_add of_nat_Suc)
  have "lb_head lb - word_of_nat (i + 1) = word_of_nat (n - Suc i)"
    using assms by (simp add: n of_nat_diff)
  moreover have "unat (word_of_nat (n - Suc i) :: u32) = n - Suc i" using n by (intro unat_word_of_nat) simp
  ultimately show ?thesis
    using w lb_inv_head [OF assms(1)] by (simp add: fetch_index_def n unat_mod)
qed

lemma fetch_index_high:
  assumes "lb_inv n lb" "n \<le> i" "i < LOG_BUF_ENTRIES"
  shows "n \<le> fetch_index lb (word_of_nat (i + 1)) \<and> fetch_index lb (word_of_nat (i + 1)) < LOG_BUF_ENTRIES"
proof -
  have n: "n < 2 ^ 31" "lb_head lb = word_of_nat n" "lb_capacity lb = word_of_nat LOG_BUF_ENTRIES"
    using assms by (auto simp: lb_inv_def)
  have w: "\<not> (word_of_nat (i + 1) :: u32) \<le> word_of_nat n"
    using assms n unat_offset [of i] unat_word_of_nat [where 'a = 32, of n]
    by (simp add: word_le_nat_alt del: of_nat_add of_nat_Suc)
  have "lb_capacity lb + lb_head lb - word_of_nat (i + 1) = word_of_nat (LOG_BUF_ENTRIES + n - (i + 1))"
    using assms by (simp add: n of_nat_diff del: of_nat_Suc)
  moreover have "unat (word_of_nat (LOG_BUF_ENTRIES + n - (i + 1)) :: u32) = LOG_BUF_ENTRIES + n - (i + 1)"
    using assms by (intro unat_word_of_nat) (simp add: LOG_BUF_ENTRIES_def)
  ultimately have "fetch_index lb (word_of_nat (i + 1)) = (LOG_BUF_ENTRIES + n - (i + 1)) mod LOG_BUF_ENTRIES"
    using w lb_inv_head [OF assms(1)] by (simp add: fetch_index_def n unat_mod)
  moreover have "(LOG_BUF_ENTRIES + n - (i + 1)) mod LOG_BUF_ENTRIES = LOG_BUF_ENTRIES + n - (i + 1)"
    using assms by (intro mod_less) linarith
  ultimately show ?thesis using assms(2,3) by linarith
qed

lemma scanned_slots:
  assumes "lb_inv n lb"
  shows "filter (\<lambda>s. le_timestampMs s \<noteq> 0) (map (\<lambda>o'. lb_slots lb ! fetch_index lb o')
     (map word_of_nat [1 ..< LOG_BUF_ENTRIES + 1])) = log_recent lb"
proof -
  let ?f = "\<lambda>i. lb_slots lb ! fetch_index lb (word_of_nat (i + 1))"
  let ?k = "min n LOG_BUF_ENTRIES"
  have len: "length (lb_slots lb) = LOG_BUF_ENTRIES"
    and empty: "\<forall>i < LOG_BUF_ENTRIES. le_timestampMs (lb_slots lb ! i) = 0 \<longleftrightarrow> n \<le> i"
    using assms by (auto simp: lb_inv_def)
  have split: "[1 ..< LOG_BUF_ENTRIES + 1] = map (\<lambda>i. i + 1) ([0 ..< ?k] @ [?k ..< LOG_BUF_ENTRIES])"
    using upt_add_eq_append [of 0 ?k "LOG_BUF_ENTRIES - ?k"] map_add_upt [of 1 LOG_BUF_ENTRIES]
    by (simp add: add.commute [of 1])
  have lo: "map ?f [0 ..< ?k] = log_recent lb"
    using assms lb_inv_head [OF assms]
    by (auto simp: log_recent_def newest_def len fetch_index_low simp del: of_nat_add of_nat_Suc)
  have "filter (\<lambda>s. le_timestampMs s \<noteq> 0) (map ?f [?k ..< LOG_BUF_ENTRIES]) = []"
    using fetch_index_high [OF assms] empty by (auto simp: filter_empty_conv simp del: of_nat_add of_nat_Suc)
  moreover have "filter (\<lambda>s. le_timestampMs s \<noteq> 0) (log_recent lb) = log_recent lb"
  proof (rule filter_True, rule ballI)
    fix s assume "s \<in> set (log_recent lb)"
    then obtain i where "i < ?k" and s: "s = lb_slots lb ! ((n - Suc i) mod LOG_BUF_ENTRIES)"
      using lb_inv_head [OF assms] by (auto simp: log_recent_def newest_def len)
    then have "\<not> n \<le> (n - Suc i) mod LOG_BUF_ENTRIES"
      by (metis diff_less min_less_iff_conj mod_less_eq_dividend not_le order.strict_trans1 zero_less_Suc gr_implies_not0 gr0I)
    moreover have "(n - Suc i) mod LOG_BUF_ENTRIES < LOG_BUF_ENTRIES" by (simp add: LOG_BUF_ENTRIES_def)
    ultimately show "le_timestampMs s \<noteq> 0" using empty s by simp
  qed
  ultimately show ?thesis
    unfolding split map_append filter_append map_map o_def using lo by (simp del: of_nat_add of_nat_Suc)
qed

lemma lb_fetch_recent:
  assumes "lb_inv n lb"
  shows "lb_fetch lb m flt = take m (filter (\<lambda>s. flt = [] \<or> le_level s = flt) (log_recent lb))"
proof -
  have cap: "unat (lb_capacity lb) = LOG_BUF_ENTRIES" using lb_inv_head [OF assms] by simp
  have "fetch_index lb o' < length (lb_slots lb)" for o'
    using assms cap by (simp add: fetch_index_def lb_inv_def unat_mod LOG_BUF_ENTRIES_def)
  then have "lb_fetch lb m flt = take m (filter (\<lambda>s. le_timestampMs s \<noteq> 0 \<and> (flt = [] \<or> le_level s = flt))
      (map (\<lambda>o'. lb_slots lb ! fetch_index lb o') (map word_of_nat [1 ..< LOG_BUF_ENTRIES + 1])))"
    using assms unfolding lb_fetch_def cap by (subst fetch_scan_filter) (auto simp: lb_inv_def)
  also have "\<dots> = take m (filter (\<lambda>s. flt = [] \<or> le_level s = flt) (log_recent lb))"
    by (subst scanned_slots [OF assms, symmetric]) (simp add: conj_commute)
  finally show ?thesis .
qed

lemma lb_init_inv: "lb_inv 0 (lb_init LOG_BUF_ENTRIES lb_new)"
  by (auto simp: lb_inv_def lb_init_def lb_new_def LOG_BUF_ENTRIES_def slot_init_def stored_entry_def strncpy_z_def)

lemma lb_clear_inv: "lb_inv n lb \<Longrightarrow> lb_inv 0 (lb_clear lb) \<and> log_recent (lb_clear lb) = []"
  by (auto simp: lb_inv_def lb_clear_def stored_entry_def strncpy_z_def log_recent_def LOG_BUF_ENTRIES_def)

text \<open>C40.  After a clear of the initialised log and any pushes of entries with a non-zero timestamp,
  \<^verbatim>\<open>fetch\<close> returns the newest \<open>maxCount\<close> of the last 1000 entries that pass the level filter,
  newest first, each cut to 7 and 127 characters.\<close>

theorem log_fetch_newest_first:
  assumes "lb_inv n lb" and "length es < 2 ^ 31" and "\<forall>e \<in> set es. le_timestampMs e \<noteq> 0"
  shows "lb_fetch (fold (\<lambda>e. lb_push True e) es (lb_clear lb)) maxCount flt
    = take maxCount (filter (\<lambda>s. flt = [] \<or> le_level s = flt)
        (take LOG_BUF_ENTRIES (rev (map stored_entry es))))"
proof -
  have f: "fold (\<lambda>e. lb_push True e) es (lb_clear lb)
      = fold (\<lambda>(created, e). lb_push created e) (map (Pair True) es) (lb_clear lb)"
    by (simp add: fold_map comp_def)
  have ok: "\<forall>a \<in> set (map (Pair True) es). (case a of (created, e) \<Rightarrow> entry_ok e)"
    using assms by (auto simp: entry_ok_def)
  show ?thesis
    unfolding f
    using lb_fetch_recent [OF log_buffer.puts_inv [OF lb_clear_inv [OF assms(1), THEN conjunct1], of "map (Pair True) es"]]
      log_buffer.recent_last [OF lb_clear_inv [OF assms(1), THEN conjunct1], of "map (Pair True) es"]
      lb_clear_inv [OF assms(1)] assms ok
    by (simp add: comp_def)
qed

theorem log_fetch_newest_first_witness:
  "lb_fetch (lb_push True \<lparr>le_timestampMs = 7, le_level = ''WARN'', le_message = ''b''\<rparr>
     (lb_push True \<lparr>le_timestampMs = 5, le_level = ''INFO'', le_message = ''a''\<rparr>
       (lb_clear (lb_init LOG_BUF_ENTRIES lb_new)))) 10 ''INFO''
   = [\<lparr>le_timestampMs = 5, le_level = ''INFO'', le_message = ''a''\<rparr>]"
  using log_fetch_newest_first [OF lb_init_inv, of "[\<lparr>le_timestampMs = 5, le_level = ''INFO'', le_message = ''a''\<rparr>,
      \<lparr>le_timestampMs = 7, le_level = ''WARN'', le_message = ''b''\<rparr>]" 10 "''INFO''"]
  by (simp add: stored_entry_def strncpy_z_def LOG_BUF_ENTRIES_def MAX_MSG_LEN_def)

subsection \<open>The worker delivers what was pushed\<close>

lemma worker_run_queue:
  "lb_queue lb = Some q \<Longrightarrow> \<forall>i \<in> set q. le_timestampMs (lb_slots lb ! i) \<noteq> 0 \<Longrightarrow>
     fst (worker_run (length q) lb) = map (\<lambda>i. stored_entry (lb_slots lb ! i)) q"
proof (induction q arbitrary: lb)
  case (Cons i q)
  let ?lb = "lb\<lparr>lb_queue := Some q\<rparr>"
  have "worker_step lb = (Some (stored_entry (lb_slots lb ! i)), ?lb)"
    using Cons.prems by (simp add: worker_step_def Let_def)
  moreover have "fst (worker_run (length q) ?lb) = map (\<lambda>i. stored_entry (lb_slots lb ! i)) q"
    using Cons.IH [of ?lb] Cons.prems by simp
  ultimately show ?case by (simp add: case_prod_beta)
qed simp

lemma queue_positions:
  assumes "lb_inv n lb" "lb_queue lb = Some []" "length es \<le> LOG_QUEUE_LENGTH"
    "n + length es < 2 ^ 31" "\<forall>e \<in> set es. le_timestampMs e \<noteq> 0"
  shows "let lb' = fold (\<lambda>e. lb_push True e) es lb
         in lb_inv (n + length es) lb'
          \<and> lb_queue lb' = Some (map (\<lambda>i. (n + i) mod LOG_BUF_ENTRIES) [0 ..< length es])
          \<and> (\<forall>i < length es. lb_slots lb' ! ((n + i) mod LOG_BUF_ENTRIES) = stored_entry (es ! i))"
  using assms(3-5)
proof (induction es rule: rev_induct)
  case Nil
  then show ?case using assms(1,2) by simp
next
  case (snoc e es)
  let ?m = "fold (\<lambda>e. lb_push True e) es lb" and ?k = "length es"
  have IH: "lb_inv (n + ?k) ?m" "lb_queue ?m = Some (map (\<lambda>i. (n + i) mod LOG_BUF_ENTRIES) [0 ..< ?k])"
      "\<forall>i < ?k. lb_slots ?m ! ((n + i) mod LOG_BUF_ENTRIES) = stored_entry (es ! i)"
    using snoc by (simp_all add: Let_def)
  have k: "?k < LOG_QUEUE_LENGTH" using snoc.prems by simp
  have idx: "unat (lb_head ?m mod lb_capacity ?m) = (n + ?k) mod LOG_BUF_ENTRIES"
    using lb_inv_head [OF IH(1)] by (simp add: unat_mod)
  have inv: "lb_inv (Suc (n + ?k)) (lb_push True e ?m)"
    by (rule lb_push_inv [OF IH(1)]) (use snoc.prems in \<open>auto simp: entry_ok_def\<close>)
  have st: "lb_initialized ?m" "\<not> lb_pushing ?m" "length (lb_slots ?m) = LOG_BUF_ENTRIES"
    using IH(1) by (auto simp: lb_inv_def)
  have ne: "(n + i) mod LOG_BUF_ENTRIES \<noteq> (n + ?k) mod LOG_BUF_ENTRIES" if "i < ?k" for i
    using that k ring_index_neq [of "?k - Suc i" "n + ?k" LOG_BUF_ENTRIES]
    by (simp add: LOG_QUEUE_LENGTH_def LOG_BUF_ENTRIES_def)
  have q: "lb_queue (lb_push True e ?m) = Some (map (\<lambda>i. (n + i) mod LOG_BUF_ENTRIES) [0 ..< Suc ?k])"
    using st k IH(2) by (simp add: lb_push_def Let_def idx ensureQueue_def queue_send_def)
  have s: "lb_slots (lb_push True e ?m) = (lb_slots ?m)[(n + ?k) mod LOG_BUF_ENTRIES := stored_entry e]"
    using st by (simp add: lb_push_def Let_def idx)
  have "lb_slots (lb_push True e ?m) ! ((n + i) mod LOG_BUF_ENTRIES) = stored_entry ((es @ [e]) ! i)"
    if "i < Suc ?k" for i
    using that ne [of i] IH(3) st(3) by (cases "i = ?k") (auto simp: s nth_append)
  then show ?case using inv q by (simp add: Let_def)
qed

text \<open>Up to 16 entries pushed while the worker is busy are all handed to its callback, each once
  and in the order of the pushes.\<close>

theorem log_worker_delivers_in_order:
  assumes "lb_inv n lb" and "lb_queue lb = Some []" and "length es \<le> LOG_QUEUE_LENGTH"
    and "n + length es < 2 ^ 31" and "\<forall>e \<in> set es. le_timestampMs e \<noteq> 0"
  shows "fst (worker_run (length es) (fold (\<lambda>e. lb_push True e) es lb)) = map stored_entry es"
proof -
  let ?lb = "fold (\<lambda>e. lb_push True e) es lb"
  have Q: "lb_queue ?lb = Some (map (\<lambda>i. (n + i) mod LOG_BUF_ENTRIES) [0 ..< length es])"
    and S: "\<forall>i < length es. lb_slots ?lb ! ((n + i) mod LOG_BUF_ENTRIES) = stored_entry (es ! i)"
    using queue_positions [OF assms] by (simp_all add: Let_def)
  have "fst (worker_run (length es) ?lb)
      = map (\<lambda>i. stored_entry (lb_slots ?lb ! i)) (map (\<lambda>i. (n + i) mod LOG_BUF_ENTRIES) [0 ..< length es])"
    using worker_run_queue [OF Q] S assms(5) by simp
  also have "\<dots> = map (\<lambda>i. stored_entry (es ! i)) [0 ..< length es]" using S by simp
  also have "\<dots> = map stored_entry es" by (rule nth_equalityI) simp_all
  finally show ?thesis .
qed

theorem log_worker_delivers_in_order_witness:
  "fst (worker_run 2 (lb_push True \<lparr>le_timestampMs = 7, le_level = ''WARN'', le_message = ''b''\<rparr>
     (lb_push True \<lparr>le_timestampMs = 5, le_level = ''INFO'', le_message = ''a''\<rparr>
       (lb_init LOG_BUF_ENTRIES lb_new\<lparr>lb_queue := Some []\<rparr>))))
   = [\<lparr>le_timestampMs = 5, le_level = ''INFO'', le_message = ''a''\<rparr>,
      \<lparr>le_timestampMs = 7, le_level = ''WARN'', le_message = ''b''\<rparr>]"
proof -
  have "lb_inv 0 (lb_init LOG_BUF_ENTRIES lb_new\<lparr>lb_queue := Some []\<rparr>)"
    using lb_init_inv by (simp add: lb_inv_def)
  then show ?thesis
    using log_worker_delivers_in_order [of 0 "lb_init LOG_BUF_ENTRIES lb_new\<lparr>lb_queue := Some []\<rparr>"
      "[\<lparr>le_timestampMs = 5, le_level = ''INFO'', le_message = ''a''\<rparr>,
        \<lparr>le_timestampMs = 7, le_level = ''WARN'', le_message = ''b''\<rparr>]"]
    by (simp add: stored_entry_def strncpy_z_def LOG_QUEUE_LENGTH_def MAX_MSG_LEN_def numeral_2_eq_2 [symmetric] del: worker_run.simps)
qed

subsection \<open>Log events for the web socket\<close>

lemma length_ws_char: "length (ws_char c) \<le> 2"
  by (simp add: ws_char_def)

lemma ws_copy_fits:
  assumes "length buf + 2 * length src < WS_BUF_SIZE - 6" "\<forall>c \<in> set src. c \<noteq> CHR 0x00"
  shows "ws_copy src buf = buf @ concat (map ws_char src)"
  using assms
proof (induction src arbitrary: buf)
  case (Cons c src)
  then show ?case using length_ws_char [of c] Cons.IH [of "buf @ ws_char c"] by simp
qed simp

lemma length_concat_ws_char: "length (concat (map ws_char src)) \<le> 2 * length src"
proof (induction src)
  case (Cons c src)
  then show ?case using length_ws_char [of c] by simp
qed simp

lemma strncpy_z_props: "0 < n \<Longrightarrow> length (strncpy_z n s) < n \<and> (\<forall>c \<in> set (strncpy_z n s). c \<noteq> CHR 0x00)"
  by (auto simp: strncpy_z_def dest!: in_set_takeD set_takeWhileD)

text \<open>Every entry the log buffer stores becomes one complete event of fewer than 384 bytes: its
  level and its whole message, in which no quotation mark is left to end the text early.\<close>

theorem log_event_complete:
  "ws_event (stored_entry e)
     = ws_prefix (le_level (stored_entry e)) @ concat (map ws_char (le_message (stored_entry e))) @ quote # ''}}''
   \<and> length (ws_event (stored_entry e)) < WS_BUF_SIZE
   \<and> quote \<notin> set (concat (map ws_char (le_message (stored_entry e))))"
proof -
  let ?l = "le_level (stored_entry e)" and ?m = "le_message (stored_entry e)"
  have l: "length ?l < 8" and m: "length ?m < 128" "\<forall>c \<in> set ?m. c \<noteq> CHR 0x00"
    using strncpy_z_props [of 8] strncpy_z_props [of 128] by (auto simp: stored_entry_def MAX_MSG_LEN_def)
  have p: "length (ws_prefix ?l) < 60"
    using l by (simp add: ws_prefix_def jkey_def quoted_def)
  have c: "length (concat (map ws_char ?m)) \<le> 254" using length_concat_ws_char [of ?m] m by simp
  have "ws_copy ?m (ws_prefix ?l) = ws_prefix ?l @ concat (map ws_char ?m)"
    using p m by (intro ws_copy_fits) (auto simp: WS_BUF_SIZE_def)
  moreover have "quote \<notin> set (ws_char c)" for c
    by (auto simp: ws_char_def quote_def backslash_def)
  ultimately show ?thesis
    using p c by (auto simp: ws_event_def Let_def snprintf_fits WS_BUF_SIZE_def min_def)
qed

end
