(* ===== verification/Diagnostics.thy ===== *)
theory Diagnostics
  imports Logs
begin

text \<open>
  Run-time diagnostics: the registry of task stacks (\<^verbatim>\<open>diag/stack_monitor.hpp\<close>,
  \<^verbatim>\<open>stack_monitor.cpp\<close>) and the hardware watchdog (\<^verbatim>\<open>diag/rtc_watchdog.cpp\<close>).  Task handles
  are of an abstract type; what FreeRTOS answers (handles by name, the high-water mark of a
  handle) is an argument of the operations.
\<close>

declare One_nat_def [simp del]

subsection \<open>Stack monitor\<close>

definition MAX_THREADS :: nat where "MAX_THREADS = 16"

text \<open>The three parallel arrays and their count are one list of registered threads.\<close>

type_synonym 'h thread = "string \<times> u32 \<times> 'h"

definition registerByHandle :: "'h \<Rightarrow> string \<Rightarrow> u32 \<Rightarrow> 'h thread list \<Rightarrow> 'h thread list" where
  "registerByHandle handle name stackSize ts =
     (if length ts \<ge> MAX_THREADS then ts else ts @ [(name, stackSize, handle)])"

definition registerThread :: "'h \<Rightarrow> string \<Rightarrow> u32 \<Rightarrow> 'h thread list \<Rightarrow> 'h thread list" where
  "registerThread current name stackSize ts =
     (if length ts \<ge> MAX_THREADS then ts else ts @ [(name, stackSize, current)])"

definition internal_tasks :: "(string \<times> u32) list" where
  "internal_tasks = [(''ipc0'', 4096), (''ipc1'', 4096)]"

definition registerMainTask :: "'h \<Rightarrow> (string \<Rightarrow> 'h option) \<Rightarrow> 'h thread list \<Rightarrow> 'h thread list" where
  "registerMainTask current handle_of ts =
     fold (\<lambda>(name, stack) ts. case handle_of name of
             Some h \<Rightarrow> registerByHandle h name stack ts | None \<Rightarrow> ts)
       internal_tasks (registerThread current ''main'' 32768 ts)"

text \<open>\<open>found k\<close> is what the lookup of the WiFi task answers at attempt \<open>k\<close>; the result also tells
  the number of delays of 100 ms.\<close>

fun lazy_attempts :: "(nat \<Rightarrow> 'h option) \<Rightarrow> nat \<Rightarrow> nat \<Rightarrow> 'h option \<times> nat" where
  "lazy_attempts found 0 k = (None, 0)"
| "lazy_attempts found (Suc left) k =
     (case found k of
        Some h \<Rightarrow> (Some h, 0)
      | None \<Rightarrow> (let (r, delays) = lazy_attempts found left (Suc k) in (r, Suc delays)))"

definition registerLazyTasks :: "(nat \<Rightarrow> 'h option) \<Rightarrow> 'h thread list \<Rightarrow> 'h thread list \<times> nat" where
  "registerLazyTasks found ts =
     (case lazy_attempts found 5 0 of
        (Some h, delays) \<Rightarrow> (registerByHandle h ''wifi'' 8192 ts, delays)
      | (None, delays) \<Rightarrow> (ts, delays))"

definition used_pct :: "u32 \<Rightarrow> u32 \<Rightarrow> u32" where
  "used_pct stack wm = (let usedBytes = stack - wm in if 0 < stack then usedBytes * 100 div stack else 0)"

definition usage_line :: "string \<Rightarrow> u32 \<Rightarrow> u32 \<Rightarrow> string" where
  "usage_line name stack wm = ''Thread '' @ name @ '': cfg='' @ nat_str (unat stack) @ ''B wmark=''
     @ nat_str (unat wm) @ '' used='' @ nat_str (unat (used_pct stack wm)) @ [CHR ''%'', CHR 0x0A]"

definition low_line :: "string \<Rightarrow> u32 \<Rightarrow> u32 \<Rightarrow> string" where
  "low_line name stack wm = ''Thread '' @ name @ '': LOW STACK! ''
     @ nat_str (unat (used_pct stack wm)) @ ''% used'' @ [CHR 0x0A]"

text \<open>The lines passed to the callback: a line that does not fit its buffer is left out.\<close>

definition logAllWatermarks :: "('h \<Rightarrow> u32) \<Rightarrow> 'h thread list \<Rightarrow> string list" where
  "logAllWatermarks watermark ts =
     concat (map (\<lambda>(name, stack, h).
       (if length (usage_line name stack (watermark h)) < 128 then [usage_line name stack (watermark h)] else [])
       @ (if 90 < used_pct stack (watermark h)
          then if length (low_line name stack (watermark h)) < 64 then [low_line name stack (watermark h)] else []
          else [])) ts)"

text \<open>The report to the log, with the level of each line; its lines have no limit and no newline.\<close>

definition logAllWatermarks_log :: "('h \<Rightarrow> u32) \<Rightarrow> 'h thread list \<Rightarrow> (string \<times> string) list" where
  "logAllWatermarks_log watermark ts =
     concat (map (\<lambda>(name, stack, h).
       (''I'', butlast (usage_line name stack (watermark h)))
       # (if 90 < used_pct stack (watermark h) then [(''W'', butlast (low_line name stack (watermark h)))] else [])) ts)"

definition watermarkMain :: "'h \<Rightarrow> ('h \<Rightarrow> u32) \<Rightarrow> u32" where
  "watermarkMain current watermark = watermark current"

text \<open>Both reports give the same lines when the names are so short that all fit.\<close>

lemma reports_agree:
  assumes "\<forall>(name, stack, h) \<in> set ts. length (usage_line name stack (watermark h)) < 128
      \<and> length (low_line name stack (watermark h)) < 64"
  shows "logAllWatermarks watermark ts = map (\<lambda>(_, text). text @ [CHR 0x0A]) (logAllWatermarks_log watermark ts)"
proof -
  have ends: "butlast (usage_line n s w) @ [CHR 0x0A] = usage_line n s w" "butlast (low_line n s w) @ [CHR 0x0A] = low_line n s w"
    for n s w by (simp_all add: usage_line_def low_line_def butlast_append)
  show ?thesis using assms
    by (induction ts) (auto simp: logAllWatermarks_def logAllWatermarks_log_def ends)
qed

lemma fold_register:
  "length ts \<le> MAX_THREADS \<Longrightarrow>
     fold (\<lambda>(name, size, h). registerByHandle h name size) rs ts = take MAX_THREADS (ts @ rs)"
proof (induction rs arbitrary: ts)
  case (Cons r rs)
  obtain name size h where r: "r = (name, size, h)" by (cases r) auto
  show ?case
  proof (cases "length ts = MAX_THREADS")
    case True
    then show ?thesis using Cons.IH [of ts] by (simp add: r registerByHandle_def)
  next
    case False
    then have "length (ts @ [r]) \<le> MAX_THREADS" using Cons.prems by simp
    then show ?thesis using Cons.IH [of "ts @ [r]"] False Cons.prems by (simp add: r registerByHandle_def)
  qed
qed simp

lemma used_pct_exact:
  assumes "wm \<le> stack" and "unat stack * 100 < 2 ^ 32" and "0 < stack"
  shows "unat (used_pct stack wm) = (unat stack - unat wm) * 100 div unat stack"
proof -
  have "unat (stack - wm) = unat stack - unat wm" using assms(1) by (simp add: unat_sub)
  moreover have "(unat stack - unat wm) * 100 < 2 ^ 32" using assms(2) by simp
  ultimately have "unat ((stack - wm) * 100) = (unat stack - unat wm) * 100"
    by (subst unat_mult_lem [THEN iffD1]) simp_all
  then show ?thesis using assms(3) by (simp add: used_pct_def Let_def unat_div)
qed

text \<open>Registering any tasks keeps exactly the first sixteen in order, and the share of a stack
  reported as used is the exact percentage, at most 100, for every stack below 42 MB whose
  high-water mark does not exceed it.\<close>

theorem stack_registry_and_usage:
  assumes "wm \<le> stack" and "unat stack * 100 < 2 ^ 32" and "0 < stack"
  shows "fold (\<lambda>(name, size, h). registerByHandle h name size) rs [] = take MAX_THREADS rs
    \<and> unat (used_pct stack wm) = (unat stack - unat wm) * 100 div unat stack
    \<and> used_pct stack wm \<le> 100"
proof -
  have "(unat stack - unat wm) * 100 \<le> 100 * unat stack" by simp
  then have "(unat stack - unat wm) * 100 div unat stack \<le> 100"
    using assms(3) by (metis div_le_mono nonzero_mult_div_cancel_right unat_eq_zero word_neq_0_conv)
  then show ?thesis using used_pct_exact [OF assms] fold_register [of "[]" rs]
    by (simp add: word_le_nat_alt)
qed

theorem stack_registry_and_usage_witness:
  "unat (used_pct 8192 512) = 93 \<and> registerByHandle () ''main'' 32768 [] = [(''main'', 32768, ())]"
  using stack_registry_and_usage [of 512 8192 "[(''main'', 32768, ())]"] by (simp add: MAX_THREADS_def)

subsection \<open>Hardware watchdog\<close>

text \<open>The calls of the watchdog HAL, in order.\<close>

datatype hal_op =
  Hal_init | Protect_disable | Protect_enable | Set_flashboot bool | Config_stage nat u32 bool
| Enable | Feed | Deinit

record RtcWatchdog =
  rw_enabled :: bool
  rw_published :: bool

text \<open>The last argument of \<^const>\<open>Config_stage\<close> tells whether the stage resets the system.\<close>

definition RWDT_TIMEOUT_S :: u32 where "RWDT_TIMEOUT_S = 6"

definition rtc_wdt_new :: "u32 \<Rightarrow> hal_op list \<times> RtcWatchdog" where
  "rtc_wdt_new clk_hz =
     (let setup = [Hal_init, Protect_disable, Set_flashboot False, Config_stage 0 0 False]
      in if clk_hz = 0 then (setup @ [Protect_enable], \<lparr>rw_enabled = False, rw_published = False\<rparr>)
         else (setup @ [Config_stage 1 (RWDT_TIMEOUT_S * clk_hz) True, Enable, Protect_enable],
               \<lparr>rw_enabled = True, rw_published = True\<rparr>))"

definition rtc_wdt_delete :: "RtcWatchdog \<Rightarrow> hal_op list \<times> RtcWatchdog" where
  "rtc_wdt_delete w =
     (if rw_enabled w then ([Deinit], w\<lparr>rw_enabled := False, rw_published := False\<rparr>) else ([], w))"

definition rtc_wdt_feed :: "RtcWatchdog \<Rightarrow> hal_op list" where
  "rtc_wdt_feed w = (if \<not> rw_enabled w then [] else [Protect_disable, Feed, Protect_enable])"

text \<open>
  The register protection the calls go through: every write but the HAL's own initialisation
  needs the registers unlocked.  \<^term>\<open>None\<close> is a write to locked registers.
\<close>

fun hal_run :: "bool \<Rightarrow> hal_op list \<Rightarrow> bool option" where
  "hal_run locked [] = Some locked"
| "hal_run locked (Hal_init # ops) = hal_run True ops"
| "hal_run locked (Protect_disable # ops) = hal_run False ops"
| "hal_run locked (Protect_enable # ops) = hal_run True ops"
| "hal_run locked (Deinit # ops) = hal_run True ops"
| "hal_run locked (op # ops) = (if locked then None else hal_run locked ops)"

lemma hal_run_append: "hal_run l (xs @ ys) = Option.bind (hal_run l xs) (\<lambda>l'. hal_run l' ys)"
  by (induction l xs rule: hal_run.induct) simp_all

lemma hal_run_feeds: "hal_run True (concat (replicate n (rtc_wdt_feed w))) = Some True"
  by (cases "rw_enabled w"; induction n) (simp_all add: hal_run_append rtc_wdt_feed_def)

text \<open>Constructing the watchdog and feeding it any number of times never writes a locked
  register and leaves the registers locked; a clock below 715 MHz gives a reset stage of
  exactly six seconds.\<close>

theorem watchdog_registers_protected:
  "hal_run l (fst (rtc_wdt_new clk) @ concat (replicate n (rtc_wdt_feed (snd (rtc_wdt_new clk))))) = Some True
   \<and> (if 0 < clk \<and> clk < 715000000
      then Config_stage 1 (RWDT_TIMEOUT_S * clk) True \<in> set (fst (rtc_wdt_new clk))
         \<and> unat (RWDT_TIMEOUT_S * clk) = 6 * unat clk
      else True)"
proof -
  have "hal_run l (fst (rtc_wdt_new clk)) = Some True"
    by (simp add: rtc_wdt_new_def Let_def)
  moreover have "unat (RWDT_TIMEOUT_S * clk) = 6 * unat clk" if "clk < 715000000"
  proof -
    have "unat clk < 715000000" using that by (simp add: word_less_nat_alt)
    then show ?thesis unfolding RWDT_TIMEOUT_S_def by (subst unat_mult_lem [THEN iffD1]) simp_all
  qed
  ultimately show ?thesis
    by (simp add: hal_run_append hal_run_feeds) (simp add: rtc_wdt_new_def Let_def word_gt_0)
qed

end
