(* ===== verification/Command_Parser.thy ===== *)
theory Command_Parser
  imports Response
begin

text \<open>
  The command parser of \<^verbatim>\<open>application/src/command.cpp\<close>: the table of command names and the
  translation of a parsed JSON value into a \<^typ>\<open>Command\<close>.  The JSON library is third-party
  code: its parser is the argument \<open>parse\<close> of \<open>parseCommand\<close>, \<^term>\<open>None\<close> when the value is
  discarded, and a value is a tree with the library's number kinds (an integer without a sign is
  unsigned, any other number is signed or a \<^verbatim>\<open>double\<close>).
\<close>

declare One_nat_def [simp del]

unbundle bit_operations_syntax

datatype json =
  JNull | JBoolean bool | JInteger "64 word" | JUnsigned u64 | JFloat fp | JString string
| JArray "json list" | JObject "(string \<times> json) list"

text \<open>\<^verbatim>\<open>find\<close> answers the end iterator for anything but an object.\<close>

fun find :: "string \<Rightarrow> json \<Rightarrow> json option" where
  "find key (JObject fs) = map_of fs key"
| "find key _ = None"

fun get_double :: "json \<Rightarrow> fp option" where
  "get_double (JInteger i) = Some (f_of_int f64 (sint i))"
| "get_double (JUnsigned u) = Some (f_of_int f64 (uint u))"
| "get_double (JFloat d) = Some d"
| "get_double _ = None"

subsection \<open>Command names\<close>

definition kCmdNames :: "(string \<times> CommandType) list" where
  "kCmdNames =
    [(''burette.fill'', CommandType.Fill),
     (''burette.empty'', CommandType.Empty),
     (''burette.doseVolume'', CommandType.DoseVolume),
     (''burette.rinse'', CommandType.Rinse),
     (''burette.stop'', CommandType.Stop),
     (''burette.emergencyStop'', CommandType.EmergencyStop),
     (''burette.getStatus'', CommandType.GetStatus),
     (''burette.status'', CommandType.GetStatus),
     (''burette.moveSteps'', CommandType.MoveSteps),
     (''burette.setDirection'', CommandType.SetDirection),
     (''burette.setSpeed'', CommandType.SetSpeed),
     (''burette.setAccel'', CommandType.SetAccel),
     (''burette.cal.get'', CommandType.CalGet),
     (''burette.cal.calcVolume'', CommandType.CalCalcVolume),
     (''burette.cal.calcSpeed'', CommandType.CalCalcSpeed),
     (''burette.cal.save'', CommandType.CalSave),
     (''burette.cal.reset'', CommandType.CalReset),
     (''burette.cal.run'', CommandType.CalRun),
     (''burette.cal.getResult'', CommandType.CalGetResult),
     (''burette.cal.runSpeedSeq'', CommandType.CalRunSpeedSeq),
     (''burette.moveToStop'', CommandType.MoveToStop),
     (''temperature.read'', CommandType.TempRead),
     (''adc.cal.get'', CommandType.AdcCalGet),
     (''adc.cal.save'', CommandType.AdcCalSave),
     (''adc.cal.measure'', CommandType.AdcCalMeasure),
     (''adc.cal.compute'', CommandType.AdcCalCompute),
     (''adc.cal.reset'', CommandType.AdcCalReset),
     (''stallGuard.get'', CommandType.StallGuardGet),
     (''stallGuard.setThreshold'', CommandType.StallGuardSetThreshold),
     (''valve.setPosition'', CommandType.ValveSetPosition),
     (''valve.getState'', CommandType.ValveGetState),
     (''system.getStatus'', CommandType.SystemGetStatus),
     (''system.getFormattedLogs'', CommandType.SystemGetFormattedLogs),
     (''system.readLog'', CommandType.SystemReadLog),
     (''system.firmwareVersion'', CommandType.SystemFirmwareVersion),
     (''serial.ping'', CommandType.SerialPing),
     (''ping'', CommandType.SerialPing)]"

text \<open>The sentinel 255 is \<^term>\<open>None\<close>.\<close>

definition lookupCmdType :: "string \<Rightarrow> CommandType option" where
  "lookupCmdType name = map_of kCmdNames name"

subsection \<open>Fields\<close>

definition tolower :: "char \<Rightarrow> char" where
  "tolower c = (if 65 \<le> (of_char c :: nat) \<and> (of_char c :: nat) \<le> 90 then char_of (of_char c + 32 :: nat) else c)"

text \<open>A string of six characters lends its terminating NUL as the last character of the suffix.\<close>

definition parseDirection :: "json \<Rightarrow> string \<Rightarrow> Direction option" where
  "parseDirection j key =
     (case find key j of
        Some (JString s) \<Rightarrow>
          (if length s < 6 then None
           else if map tolower (take 3 s) = ''liq''
           then (let suffix = map tolower (take 3 (drop 4 (s @ [CHR 0x00])))
                 in if take 2 suffix = ''in'' then Some Direction.LiqIn
                    else if suffix = ''out'' then Some Direction.LiqOut
                    else None)
           else None)
      | _ \<Rightarrow> None)"

definition parseValvePosition :: "json \<Rightarrow> string \<Rightarrow> ValvePosition option" where
  "parseValvePosition j key =
     (case find key j of
        Some (JString s) \<Rightarrow>
          (if s = ''input'' then Some ValvePosition.Input
           else if s = ''output'' then Some ValvePosition.Output else None)
      | _ \<Rightarrow> None)"

definition readFloat :: "json \<Rightarrow> string \<Rightarrow> fp option" where
  "readFloat j key = (case find key j of Some v \<Rightarrow> map_option (f_cvt f32) (get_double v) | None \<Rightarrow> None)"

definition readInt :: "json \<Rightarrow> string \<Rightarrow> i32 option" where
  "readInt j key =
     (case find key j of Some (JInteger i) \<Rightarrow> Some (ucast i) | Some (JUnsigned u) \<Rightarrow> Some (ucast u) | _ \<Rightarrow> None)"

definition readU32 :: "json \<Rightarrow> string \<Rightarrow> u32 option" where
  "readU32 j key = (case find key j of Some (JUnsigned u) \<Rightarrow> Some (ucast u) | _ \<Rightarrow> None)"

definition readString :: "json \<Rightarrow> string \<Rightarrow> string option" where
  "readString j key = (case find key j of Some (JString s) \<Rightarrow> Some s | _ \<Rightarrow> None)"

definition readId :: "json \<Rightarrow> u64" where
  "readId j = (case find ''id'' j of Some (JUnsigned u) \<Rightarrow> u | _ \<Rightarrow> 0)"

definition readFreq :: "json \<Rightarrow> fp option" where
  "readFreq j =
     (let f = readFloat j ''freq_hz''
      in if f = None \<or> f_eq (the f) (fp_zero f32 False)
         then (case readFloat j ''freq'' of Some g \<Rightarrow> Some g | None \<Rightarrow> f)
         else f)"

text \<open>The two arrays: elements that do not qualify are skipped, and reading stops at sixteen.\<close>

fun read_freqs :: "nat \<Rightarrow> json list \<Rightarrow> fp list" where
  "read_freqs count [] = []"
| "read_freqs count (v # vs) =
     (if count \<ge> MAX_MEASUREMENTS then []
      else case get_double v of
             Some d \<Rightarrow> f_cvt f32 d # read_freqs (count + 1) vs
           | None \<Rightarrow> read_freqs count vs)"

fun read_measurements :: "nat \<Rightarrow> json list \<Rightarrow> (fp \<times> fp) list" where
  "read_measurements count [] = []"
| "read_measurements count (m # ms) =
     (if count \<ge> MAX_MEASUREMENTS then []
      else case (readFloat m ''freq_hz'', readFloat m ''speed_ml_min'') of
             (Some f, Some s) \<Rightarrow> (f, s) # read_measurements (count + 1) ms
           | _ \<Rightarrow> read_measurements count ms)"

definition array_at :: "string \<Rightarrow> json \<Rightarrow> json list" where
  "array_at key j = (case find key j of Some (JArray vs) \<Rightarrow> vs | _ \<Rightarrow> [])"

definition read_fields :: "json \<Rightarrow> CommandType \<Rightarrow> Command" where
  "read_fields j type =
     (command_init type)\<lparr>
       c_id := readId j,
       c_volume := readFloat j ''volume'',
       c_targetVolume := readFloat j ''targetVolume'',
       c_steps := readInt j ''steps'',
       c_direction := parseDirection j ''direction'',
       c_valvePos := parseValvePosition j ''position'',
       c_speed := readU32 j ''speed'',
       c_accel := readU32 j ''accel'',
       c_speedMlMin := readFloat j ''speed_ml_min'',
       c_sgThreshold := map_option (\<lambda>t. ucast (t AND 0xFF)) (readU32 j ''threshold''),
       c_mode := readString j ''mode'',
       c_freqHz := readFreq j,
       c_refMv := readFloat j ''ref_mv'',
       c_massG := readFloat j ''mass_g'',
       c_temperature := readFloat j ''temp_c'',
       c_pressure := readFloat j ''pressure_kpa'',
       c_freqsArray := read_freqs 0 (array_at ''freqs'' j),
       c_measurements := read_measurements 0 (array_at ''measurements'' j)\<rparr>"

definition parseCommand :: "(string \<Rightarrow> json option) \<Rightarrow> string \<Rightarrow> ProtocolError + Command" where
  "parseCommand parse jsonStr =
     (case parse jsonStr of
        None \<Rightarrow> Inl InvalidJson
      | Some j \<Rightarrow>
          (case find ''cmd'' j of
             Some (JString cmdName) \<Rightarrow>
               (case lookupCmdType cmdName of
                  None \<Rightarrow> Inl UnknownCommand
                | Some type \<Rightarrow> Inr (read_fields j type))
           | _ \<Rightarrow> Inl MissingParam))"

fun_cases find_elims: "find key j = Some v"

subsection \<open>Shape of a parsed command\<close>

lemma read_freqs_bound: "length (read_freqs k vs) \<le> MAX_MEASUREMENTS - k"
  by (induction k vs rule: read_freqs.induct) (auto split: option.splits)

lemma read_measurements_bound: "length (read_measurements k ms) \<le> MAX_MEASUREMENTS - k"
proof (induction ms arbitrary: k)
  case (Cons m ms)
  have "Suc (length (read_measurements (k + 1) ms)) \<le> MAX_MEASUREMENTS - k" if "k < MAX_MEASUREMENTS"
    using that Cons.IH [of "k + 1"] by simp
  then show ?case using Cons.IH [of k] by (auto split: option.splits simp del: One_nat_def simp: not_le)
qed simp

lemma read_freqs_filter:
  "read_freqs k vs = map (f_cvt f32) (take (MAX_MEASUREMENTS - k) (List.map_filter get_double vs))"
proof (induction k vs rule: read_freqs.induct)
  case (2 k v vs)
  show ?case
  proof (cases "k \<ge> MAX_MEASUREMENTS")
    case False
    then have "MAX_MEASUREMENTS - k = Suc (MAX_MEASUREMENTS - (k + 1))" by simp
    then show ?thesis using 2 False by (auto simp: List.map_filter_simps split: option.splits)
  qed simp
qed (simp add: List.map_filter_simps)

text \<open>
  A well-formed command: every number it carries is a \<^verbatim>\<open>float\<close> of the target, and its arrays
  respect their capacity.
\<close>

definition opt_f32 :: "fp option \<Rightarrow> bool" where
  "opt_f32 x = (case x of None \<Rightarrow> True | Some v \<Rightarrow> fp_ok f32 v)"

definition command_ok :: "Command \<Rightarrow> bool" where
  "command_ok c \<longleftrightarrow>
     list_all opt_f32 [c_volume c, c_targetVolume c, c_speedMlMin c, c_freqHz c, c_massG c, c_temperature c,
       c_pressure c, c_refMv c]
     \<and> list_all (fp_ok f32) (c_freqsArray c) \<and> length (c_freqsArray c) \<le> MAX_MEASUREMENTS
     \<and> list_all (\<lambda>(f, v). fp_ok f32 f \<and> fp_ok f32 v) (c_measurements c)
     \<and> length (c_measurements c) \<le> MAX_MEASUREMENTS"

lemma readFloat_ok: "opt_f32 (readFloat j key)"
  by (auto simp: opt_f32_def readFloat_def split: option.splits)

lemma readFloat_Some_ok: "readFloat j key = Some v \<Longrightarrow> fp_ok f32 v"
  using readFloat_ok [of j key] by (simp add: opt_f32_def)

lemma readFreq_ok: "opt_f32 (readFreq j)"
  using readFloat_ok [of j "''freq_hz''"] readFloat_ok [of j "''freq''"]
  by (auto simp: readFreq_def Let_def opt_f32_def split: option.splits)

lemma read_freqs_ok: "list_all (fp_ok f32) (read_freqs k vs)"
  by (simp add: read_freqs_filter list_all_iff)

lemma read_measurements_ok: "list_all (\<lambda>(f, v). fp_ok f32 f \<and> fp_ok f32 v) (read_measurements k ms)"
  by (induction k ms rule: read_measurements.induct) (auto split: option.splits dest: readFloat_Some_ok)

text \<open>C37.  Every command the parser returns is well-formed whatever the text and whatever the JSON
  parser makes of it: each number is a value of the target's \<^verbatim>\<open>float\<close>, at most sixteen
  frequencies and sixteen measurements are stored, and the frequencies are the first sixteen
  numbers of the array.\<close>

theorem parsed_command_well_formed:
  "case parseCommand parse text of
     Inl e \<Rightarrow> True
   | Inr c \<Rightarrow> command_ok c
       \<and> (case parse text of None \<Rightarrow> False
          | Some j \<Rightarrow> c_freqsArray c
              = map (f_cvt f32) (take MAX_MEASUREMENTS (List.map_filter get_double (array_at ''freqs'' j))))"
proof -
  have "command_ok (read_fields j t)" for j t
    using read_freqs_bound [of 0 "array_at ''freqs'' j"]
      read_measurements_bound [of 0 "array_at ''measurements'' j"]
    by (simp add: command_ok_def read_fields_def readFloat_ok readFreq_ok read_freqs_ok read_measurements_ok)
  moreover have "c_freqsArray (read_fields j t)
      = map (f_cvt f32) (take MAX_MEASUREMENTS (List.map_filter get_double (array_at ''freqs'' j)))" for j t
    by (simp add: read_fields_def read_freqs_filter)
  ultimately show ?thesis
    by (auto simp: parseCommand_def split: option.splits json.splits sum.splits)
qed

subsection \<open>Outcomes\<close>

lemma kCmdNames_distinct: "distinct (map fst kCmdNames)"
  unfolding kCmdNames_def by simp

lemma lookup_names: "(n, t) \<in> set kCmdNames \<Longrightarrow> lookupCmdType n = Some t"
  unfolding lookupCmdType_def by (rule map_of_is_SomeI [OF kCmdNames_distinct])

text \<open>The table of names is unambiguous and complete: no name occurs twice, each name is found
  with its own command, and every command of the enumeration has a name.\<close>

theorem command_names_complete:
  "distinct (map fst kCmdNames) \<and> map (lookupCmdType \<circ> fst) kCmdNames = map (Some \<circ> snd) kCmdNames
   \<and> range Some \<subseteq> range lookupCmdType"
proof -
  have "map (lookupCmdType \<circ> fst) kCmdNames = map (Some \<circ> snd) kCmdNames"
    using lookup_names by (auto simp del: split_paired_All)
  moreover have "t \<in> set (map snd kCmdNames)" for t
    by (cases t) (simp_all add: kCmdNames_def)
  then have "Some t \<in> range lookupCmdType" for t
    using lookup_names by (metis (no_types, lifting) imageE list.set_map prod.collapse rangeI)
  ultimately show ?thesis using kCmdNames_distinct by auto
qed

subsection \<open>Spellings of a direction\<close>

text \<open>In any mix of cases, \<^verbatim>\<open>liq_in\<close> and \<^verbatim>\<open>liq_out\<close> are read as the two directions, while the
  spellings \<^verbatim>\<open>liqIn\<close> and \<^verbatim>\<open>liqOut\<close>, which the motor controller uses, are not recognised.\<close>

theorem direction_spellings:
  assumes "find key j = Some (JString s)"
  shows "(if map tolower s = ''liq_in'' then parseDirection j key = Some Direction.LiqIn
          else if map tolower s = ''liq_out'' then parseDirection j key = Some Direction.LiqOut
          else if map tolower s = ''liqin'' \<or> map tolower s = ''liqout'' then parseDirection j key = None
          else True)"
proof -
  have z: "tolower (CHR 0x00) = CHR 0x00" by (simp add: tolower_def)
  have len: "map tolower s = t \<Longrightarrow> length s = length t" for t by (metis length_map)
  have parts: "map tolower (take 3 s) = take 3 (map tolower s)"
    "map tolower (take 3 (drop 4 (s @ [CHR 0x00]))) = take 3 (drop 4 (map tolower s @ [CHR 0x00]))"
    by (simp_all only: take_map [symmetric] drop_map [symmetric] map_append list.map z)
  show ?thesis
    using assms len [of "''liq_in''"] len [of "''liq_out''"] len [of "''liqin''"] len [of "''liqout''"]
    by (auto simp: parseDirection_def parts Let_def)
qed

theorem direction_spellings_witness:
  "parseDirection (JObject [(''direction'', JString ''liq_in'')]) ''direction'' = Some Direction.LiqIn"
  using direction_spellings [of "''direction''" "JObject [(''direction'', JString ''liq_in'')]" "''liq_in''"]
  by (simp add: tolower_def)

end
