(* ===== verification/Nvs_Store.thy ===== *)
theory Nvs_Store
  imports Command_Parser
begin

text \<open>
  Persistent settings (\<^verbatim>\<open>infrastructure/src/storage/nvs.cpp\<close>, \<^verbatim>\<open>nvs.hpp\<close>): the typed
  accessors of a namespace and the readers and writers of the burette calibration, the ADC
  calibration, the StallGuard threshold and the WiFi credentials.

  The flash library of ESP-IDF is an argument: a record of its calls over an abstract flash
  \<open>'w\<close>.  What the code relies on is the predicate \<open>nvs_laws\<close>: a value that was set is the value
  that is read, under its key only, and neither opening nor committing changes a value.
\<close>

declare One_nat_def [simp del]

unbundle bit_operations_syntax

subsection \<open>The flash library\<close>

datatype nvs_val = NU8 u8 | NU32 u32 | NI32 i32 | NStr string

datatype 'a nvs_get = Found 'a | NotFound | Failed

record 'w nvs_api =
  nvs_open :: "string \<Rightarrow> bool \<Rightarrow> 'w \<Rightarrow> bool \<times> 'w"
  nvs_get_u8 :: "string \<Rightarrow> string \<Rightarrow> 'w \<Rightarrow> u8 nvs_get"
  nvs_get_u32 :: "string \<Rightarrow> string \<Rightarrow> 'w \<Rightarrow> u32 nvs_get"
  nvs_get_i32 :: "string \<Rightarrow> string \<Rightarrow> 'w \<Rightarrow> i32 nvs_get"
  nvs_get_str :: "string \<Rightarrow> string \<Rightarrow> nat \<Rightarrow> 'w \<Rightarrow> string nvs_get"
  nvs_set :: "string \<Rightarrow> string \<Rightarrow> nvs_val \<Rightarrow> 'w \<Rightarrow> bool \<times> 'w"
  nvs_commit :: "string \<Rightarrow> 'w \<Rightarrow> bool \<times> 'w"
  nvs_erase_key :: "string \<Rightarrow> string \<Rightarrow> 'w \<Rightarrow> bool \<times> 'w"
  nvs_erase_all :: "string \<Rightarrow> 'w \<Rightarrow> bool \<times> 'w"

text \<open>The documented behaviour, for a view of the flash as a map.\<close>

definition nvs_laws :: "'w nvs_api \<Rightarrow> ('w \<Rightarrow> string \<times> string \<Rightarrow> nvs_val option) \<Rightarrow> bool" where
  "nvs_laws api view \<longleftrightarrow>
     (\<forall>ns rw w. view (snd (nvs_open api ns rw w)) = view w)
     \<and> (\<forall>ns w. view (snd (nvs_commit api ns w)) = view w)
     \<and> (\<forall>ns k v w. fst (nvs_set api ns k v w) \<longrightarrow> view (snd (nvs_set api ns k v w)) = (view w)((ns, k) \<mapsto> v))
     \<and> (\<forall>ns k w v. view w (ns, k) = Some (NU32 v) \<longrightarrow> nvs_get_u32 api ns k w = Found v)
     \<and> (\<forall>ns k w v. view w (ns, k) = Some (NI32 v) \<longrightarrow> nvs_get_i32 api ns k w = Found v)
     \<and> (\<forall>ns k w v. view w (ns, k) = Some (NU8 v) \<longrightarrow> nvs_get_u8 api ns k w = Found v)
     \<and> (\<forall>ns k w v n. view w (ns, k) = Some (NStr v) \<and> length v < n \<longrightarrow> nvs_get_str api ns k n w = Found v)
     \<and> (\<forall>ns k w. view w (ns, k) = None \<longrightarrow> nvs_get_u32 api ns k w = NotFound \<and> nvs_get_u8 api ns k w = NotFound)"

subsection \<open>Accessors\<close>

type_synonym 'a res = "ResourceError + 'a"

fun of_get :: "'a nvs_get \<Rightarrow> 'a option res" where
  "of_get (Found v) = Inr (Some v)"
| "of_get NotFound = Inr None"
| "of_get Failed = Inl NvsOpenFailed"

definition getU8 :: "'w nvs_api \<Rightarrow> string \<Rightarrow> string \<Rightarrow> 'w \<Rightarrow> u8 option res" where
  "getU8 api ns key w = of_get (nvs_get_u8 api ns key w)"

definition getU32 :: "'w nvs_api \<Rightarrow> string \<Rightarrow> string \<Rightarrow> 'w \<Rightarrow> u32 option res" where
  "getU32 api ns key w = of_get (nvs_get_u32 api ns key w)"

definition getI32 :: "'w nvs_api \<Rightarrow> string \<Rightarrow> string \<Rightarrow> 'w \<Rightarrow> i32 option res" where
  "getI32 api ns key w = of_get (nvs_get_i32 api ns key w)"

definition getF32 :: "'w nvs_api \<Rightarrow> string \<Rightarrow> string \<Rightarrow> 'w \<Rightarrow> fp option res" where
  "getF32 api ns key w =
     (case nvs_get_u32 api ns key w of
        NotFound \<Rightarrow> Inr None
      | Failed \<Rightarrow> Inl NvsOpenFailed
      | Found bits \<Rightarrow> Inr (Some (f32_of_bits bits)))"

definition getStr :: "'w nvs_api \<Rightarrow> string \<Rightarrow> string \<Rightarrow> nat \<Rightarrow> 'w \<Rightarrow> string option res" where
  "getStr api ns key bufSize w = of_get (nvs_get_str api ns key bufSize w)"

text \<open>Every setter writes and commits; either failure is reported.\<close>

definition set_commit :: "'w nvs_api \<Rightarrow> string \<Rightarrow> string \<Rightarrow> nvs_val \<Rightarrow> 'w \<Rightarrow> unit res \<times> 'w" where
  "set_commit api ns key v w =
     (let (ok, w1) = nvs_set api ns key v w
      in if \<not> ok then (Inl NvsOpenFailed, w1)
         else let (ok2, w2) = nvs_commit api ns w1
              in if \<not> ok2 then (Inl NvsOpenFailed, w2) else (Inr (), w2))"

definition setU8 :: "'w nvs_api \<Rightarrow> string \<Rightarrow> string \<Rightarrow> u8 \<Rightarrow> 'w \<Rightarrow> unit res \<times> 'w" where
  "setU8 api ns key v = set_commit api ns key (NU8 v)"

definition setU32 :: "'w nvs_api \<Rightarrow> string \<Rightarrow> string \<Rightarrow> u32 \<Rightarrow> 'w \<Rightarrow> unit res \<times> 'w" where
  "setU32 api ns key v = set_commit api ns key (NU32 v)"

definition setI32 :: "'w nvs_api \<Rightarrow> string \<Rightarrow> string \<Rightarrow> i32 \<Rightarrow> 'w \<Rightarrow> unit res \<times> 'w" where
  "setI32 api ns key v = set_commit api ns key (NI32 v)"

definition setF32 :: "'w nvs_api \<Rightarrow> string \<Rightarrow> string \<Rightarrow> fp \<Rightarrow> 'w \<Rightarrow> unit res \<times> 'w" where
  "setF32 api ns key v = set_commit api ns key (NU32 (f32_bits v))"

definition setStr :: "'w nvs_api \<Rightarrow> string \<Rightarrow> string \<Rightarrow> string \<Rightarrow> 'w \<Rightarrow> unit res \<times> 'w" where
  "setStr api ns key v = set_commit api ns key (NStr v)"

definition eraseKey :: "'w nvs_api \<Rightarrow> string \<Rightarrow> string \<Rightarrow> 'w \<Rightarrow> unit res \<times> 'w" where
  "eraseKey api ns key w =
     (let (ok, w1) = nvs_erase_key api ns key w
      in if \<not> ok then (Inl NvsOpenFailed, w1)
         else let (ok2, w2) = nvs_commit api ns w1
              in if \<not> ok2 then (Inl NvsOpenFailed, w2) else (Inr (), w2))"

definition eraseAll :: "'w nvs_api \<Rightarrow> string \<Rightarrow> 'w \<Rightarrow> unit res \<times> 'w" where
  "eraseAll api ns w =
     (let (ok, w1) = nvs_erase_all api ns w
      in if \<not> ok then (Inl NvsOpenFailed, w1)
         else let (ok2, w2) = nvs_commit api ns w1
              in if \<not> ok2 then (Inl NvsOpenFailed, w2) else (Inr (), w2))"

subsection \<open>The stored settings\<close>

text \<open>The flash with the run-time copies the accessors keep: the cached calibration
  (\<^verbatim>\<open>gCalCache\<close>) and the ADC coefficients.\<close>

record 'w store =
  st_flash :: 'w
  gCalCache :: "CalibrationData option"
  gCoeffAX1000 :: u16
  gCoeffB :: i16

definition NS_CAL :: string where "NS_CAL = ''burette_cal''"
definition NS_ADC :: string where "NS_ADC = ''adc_cal''"
definition NS_SG :: string where "NS_SG = ''stallguard''"
definition NS_WIFI :: string where "NS_WIFI = ''wifi''"
definition K_SPM :: string where "K_SPM = ''steps_per_ml''"
definition K_NOM :: string where "K_NOM = ''nominal_vol''"
definition K_COEFF :: string where "K_COEFF = ''speed_coeff''"
definition K_MIN :: string where "K_MIN = ''min_freq''"
definition K_MAX :: string where "K_MAX = ''max_freq''"
definition K_DATE :: string where "K_DATE = ''cal_date''"
definition K_AX :: string where "K_AX = ''a_x1000''"
definition K_B :: string where "K_B = ''b''"
definition K_SG :: string where "K_SG = ''threshold''"
definition K_COUNT :: string where "K_COUNT = ''count''"

lemmas nvs_names = NS_CAL_def NS_ADC_def NS_SG_def NS_WIFI_def K_SPM_def K_NOM_def K_COEFF_def K_MIN_def K_MAX_def
  K_DATE_def K_AX_def K_B_def K_SG_def K_COUNT_def

text \<open>A value read for use: the default when the read fails or the key is absent.\<close>

definition value_or_default :: "'a \<Rightarrow> 'a option res \<Rightarrow> 'a" where
  "value_or_default d r = (case r of Inr (Some v) \<Rightarrow> v | _ \<Rightarrow> d)"

definition absent :: "'a option res \<Rightarrow> bool" where
  "absent r = (case r of Inr None \<Rightarrow> True | _ \<Rightarrow> False)"

definition nvs_init_cal :: "'w nvs_api \<Rightarrow> 'w \<Rightarrow> 'w" where
  "nvs_init_cal api w0 =
     (let (valid, w) = nvs_open api NS_CAL True w0
      in if valid \<and> absent (getF32 api NS_CAL K_SPM w)
         then let w1 = snd (setF32 api NS_CAL K_SPM (stepsPerMl cal_zero) w);
                  w2 = snd (setF32 api NS_CAL K_NOM (nominalVolumeMl cal_zero) w1);
                  w3 = snd (setF32 api NS_CAL K_COEFF (speedCoeff cal_zero) w2);
                  w4 = snd (setU32 api NS_CAL K_MIN (ucast (minFreqHz cal_zero)) w3);
                  w5 = snd (setU32 api NS_CAL K_MAX (ucast (maxFreqHz cal_zero)) w4)
              in snd (setI32 api NS_CAL K_DATE 0 w5)
         else w)"

definition nvs_init_adc :: "'w nvs_api \<Rightarrow> 'w \<Rightarrow> 'w" where
  "nvs_init_adc api w0 =
     (let (valid, w) = nvs_open api NS_ADC True w0
      in if valid \<and> absent (getU32 api NS_ADC K_AX w)
         then let w1 = snd (setU32 api NS_ADC K_AX 1000 w) in snd (setI32 api NS_ADC K_B 0 w1)
         else w)"

definition nvs_init_sg :: "'w nvs_api \<Rightarrow> 'w \<Rightarrow> 'w" where
  "nvs_init_sg api w0 =
     (let (valid, w) = nvs_open api NS_SG True w0
      in if valid \<and> absent (getU32 api NS_SG K_SG w) then snd (setU32 api NS_SG K_SG 0 w) else w)"

definition nvsInit :: "'w nvs_api \<Rightarrow> 'w \<Rightarrow> 'w" where
  "nvsInit api w = nvs_init_sg api (nvs_init_adc api (nvs_init_cal api w))"

definition stallguardReadThreshold :: "'w nvs_api \<Rightarrow> 'w \<Rightarrow> u8 \<times> 'w" where
  "stallguardReadThreshold api w0 =
     (let (valid, w) = nvs_open api NS_SG False w0
      in if \<not> valid then (0, w)
         else (ucast (value_or_default 0 (getU32 api NS_SG K_SG w) AND 0xFF), w))"

definition stallguardWriteThreshold :: "'w nvs_api \<Rightarrow> u8 \<Rightarrow> 'w \<Rightarrow> unit res \<times> 'w" where
  "stallguardWriteThreshold api v w0 =
     (let (valid, w) = nvs_open api NS_SG True w0
      in if \<not> valid then (Inl NvsOpenFailed, w) else setU32 api NS_SG K_SG (ucast v) w)"

definition wifiReadStr :: "'w nvs_api \<Rightarrow> string \<Rightarrow> nat \<Rightarrow> 'w \<Rightarrow> string option res \<times> 'w" where
  "wifiReadStr api key bufSize w0 =
     (let (valid, w) = nvs_open api NS_WIFI False w0
      in if \<not> valid then (Inl NvsOpenFailed, w) else (getStr api NS_WIFI key bufSize w, w))"

definition wifiWriteStr :: "'w nvs_api \<Rightarrow> string \<Rightarrow> string \<Rightarrow> 'w \<Rightarrow> unit res \<times> 'w" where
  "wifiWriteStr api key v w0 =
     (let (valid, w) = nvs_open api NS_WIFI True w0
      in if \<not> valid then (Inl NvsOpenFailed, w) else setStr api NS_WIFI key v w)"

definition wifiErase :: "'w nvs_api \<Rightarrow> string \<Rightarrow> 'w \<Rightarrow> unit res \<times> 'w" where
  "wifiErase api key w0 =
     (let (valid, w) = nvs_open api NS_WIFI True w0
      in if \<not> valid then (Inl NvsOpenFailed, w) else eraseKey api NS_WIFI key w)"

definition wifiReadCount :: "'w nvs_api \<Rightarrow> 'w \<Rightarrow> u8 res \<times> 'w" where
  "wifiReadCount api w0 =
     (let (valid, w) = nvs_open api NS_WIFI False w0
      in if \<not> valid then (Inl NvsOpenFailed, w)
         else ((case getU8 api NS_WIFI K_COUNT w of
                  Inl e \<Rightarrow> Inl e | Inr None \<Rightarrow> Inr 0 | Inr (Some c) \<Rightarrow> Inr c), w))"

definition wifiWriteCount :: "'w nvs_api \<Rightarrow> u8 \<Rightarrow> 'w \<Rightarrow> unit res \<times> 'w" where
  "wifiWriteCount api count w0 =
     (let (valid, w) = nvs_open api NS_WIFI True w0
      in if \<not> valid then (Inl NvsOpenFailed, w) else setU8 api NS_WIFI K_COUNT count w)"

definition cal_from_flash :: "'w nvs_api \<Rightarrow> 'w \<Rightarrow> CalibrationData" where
  "cal_from_flash api w =
     \<lparr>stepsPerMl = value_or_default kDefaultStepsPerMl (getF32 api NS_CAL K_SPM w),
      nominalVolumeMl = value_or_default kDefaultNominalVolumeMl (getF32 api NS_CAL K_NOM w),
      speedCoeff = value_or_default kDefaultSpeedCoeff (getF32 api NS_CAL K_COEFF w),
      minFreqHz = (case getU32 api NS_CAL K_MIN w of
                     Inr (Some v) \<Rightarrow> ucast (v AND 0xFFFF) | _ \<Rightarrow> kDefaultMinFreqHz),
      maxFreqHz = (case getU32 api NS_CAL K_MAX w of
                     Inr (Some v) \<Rightarrow> ucast (v AND 0xFFFF) | _ \<Rightarrow> kDefaultMaxFreqHz)\<rparr>"

definition calibrationRead :: "'w nvs_api \<Rightarrow> 'w store \<Rightarrow> CalibrationData res \<times> 'w store" where
  "calibrationRead api s =
     (let (valid, w) = nvs_open api NS_CAL False (st_flash s)
      in if \<not> valid then (Inl NvsOpenFailed, s\<lparr>st_flash := w\<rparr>)
         else let cal = cal_from_flash api w
              in (Inr cal, s\<lparr>st_flash := w, gCalCache := Some cal\<rparr>))"

text \<open>A sequence of writes that stops at the first failure.\<close>

fun write_all :: "('w \<Rightarrow> unit res \<times> 'w) list \<Rightarrow> 'w \<Rightarrow> unit res \<times> 'w" where
  "write_all [] w = (Inr (), w)"
| "write_all (f # fs) w =
     (let (r, w1) = f w in case r of Inl e \<Rightarrow> (Inl e, w1) | Inr _ \<Rightarrow> write_all fs w1)"

definition calibrationWrite :: "'w nvs_api \<Rightarrow> CalibrationData \<Rightarrow> 'w store \<Rightarrow> unit res \<times> 'w store" where
  "calibrationWrite api cal s =
     (let (valid, w) = nvs_open api NS_CAL True (st_flash s)
      in if \<not> valid then (Inl NvsOpenFailed, s\<lparr>st_flash := w\<rparr>)
         else let (r, w1) = write_all
                    [setF32 api NS_CAL K_SPM (stepsPerMl cal),
                     setF32 api NS_CAL K_NOM (nominalVolumeMl cal),
                     setF32 api NS_CAL K_COEFF (speedCoeff cal),
                     setU32 api NS_CAL K_MIN (ucast (minFreqHz cal)),
                     setU32 api NS_CAL K_MAX (ucast (maxFreqHz cal)),
                     setI32 api NS_CAL K_DATE 0] w
              in case r of
                   Inl e \<Rightarrow> (Inl e, s\<lparr>st_flash := w1\<rparr>)
                 | Inr _ \<Rightarrow> (Inr (), s\<lparr>st_flash := w1, gCalCache := Some cal\<rparr>))"

definition adcCalibrationRead :: "'w nvs_api \<Rightarrow> 'w store \<Rightarrow> (u16 \<times> i16) \<times> 'w store" where
  "adcCalibrationRead api s =
     (let (valid, w) = nvs_open api NS_ADC False (st_flash s)
      in if \<not> valid then ((1000, 0), s\<lparr>st_flash := w\<rparr>)
         else ((case getU32 api NS_ADC K_AX w of Inr (Some v) \<Rightarrow> ucast (v AND 0xFFFF) | _ \<Rightarrow> 1000,
                case getI32 api NS_ADC K_B w of Inr (Some v) \<Rightarrow> ucast v | _ \<Rightarrow> 0),
               s\<lparr>st_flash := w\<rparr>))"

definition adcCalibrationWrite :: "'w nvs_api \<Rightarrow> u16 \<Rightarrow> i16 \<Rightarrow> 'w store \<Rightarrow> unit res \<times> 'w store" where
  "adcCalibrationWrite api aX1000 b s =
     (let (valid, w) = nvs_open api NS_ADC True (st_flash s)
      in if \<not> valid then (Inl NvsOpenFailed, s\<lparr>st_flash := w\<rparr>)
         else let (r, w1) = write_all
                    [setU32 api NS_ADC K_AX (ucast aX1000), setI32 api NS_ADC K_B (scast b)] w
              in case r of
                   Inl e \<Rightarrow> (Inl e, s\<lparr>st_flash := w1\<rparr>)
                 | Inr _ \<Rightarrow> (Inr (), s\<lparr>st_flash := w1, gCoeffAX1000 := aX1000, gCoeffB := b\<rparr>))"

subsection \<open>What a write leaves in flash\<close>

lemma laws_set:
  "nvs_laws api view \<Longrightarrow> fst (nvs_set api ns k v w) \<Longrightarrow> view (snd (nvs_set api ns k v w)) = (view w)((ns, k) \<mapsto> v)"
  by (simp add: nvs_laws_def)

lemma laws_commit: "nvs_laws api view \<Longrightarrow> view (snd (nvs_commit api ns w)) = view w"
  by (simp add: nvs_laws_def)

lemma set_commit_view:
  assumes "nvs_laws api view" and "fst (set_commit api ns k v w) = Inr ()"
  shows "view (snd (set_commit api ns k v w)) = (view w)((ns, k) \<mapsto> v)"
proof -
  obtain ok w1 where s: "nvs_set api ns k v w = (ok, w1)" by (cases "nvs_set api ns k v w") auto
  obtain ok2 w2 where c: "nvs_commit api ns w1 = (ok2, w2)" by (cases "nvs_commit api ns w1") auto
  have ok: "ok" and r: "snd (set_commit api ns k v w) = w2"
    using assms(2) by (auto simp: set_commit_def s c split: if_splits)
  have "view w1 = (view w)((ns, k) \<mapsto> v)"
    using laws_set [OF assms(1), of ns k v w] s ok by simp
  moreover have "view w2 = view w1"
    using laws_commit [OF assms(1), of ns w1] c by simp
  ultimately show ?thesis by (simp add: r)
qed

lemma write_all_Cons:
  "fst (write_all (f # fs) w) = Inr () \<longleftrightarrow> fst (f w) = Inr () \<and> fst (write_all fs (snd (f w))) = Inr ()"
  "fst (f w) = Inr () \<Longrightarrow> snd (write_all (f # fs) w) = snd (write_all fs (snd (f w)))"
  by (auto simp: case_prod_beta split: sum.splits)

lemma write_all_view:
  assumes "nvs_laws api view"
  shows "fst (write_all (map (\<lambda>((ns, k), v). set_commit api ns k v) kvs) w) = Inr () \<Longrightarrow>
    view (snd (write_all (map (\<lambda>((ns, k), v). set_commit api ns k v) kvs) w))
      = foldl (\<lambda>m ((ns, k), v). m((ns, k) \<mapsto> v)) (view w) kvs"
proof (induction kvs arbitrary: w)
  case (Cons kv kvs)
  obtain ns k v where kv: "kv = ((ns, k), v)" by (metis prod.collapse)
  have ok: "fst (set_commit api ns k v w) = Inr ()"
    and rest: "fst (write_all (map (\<lambda>((ns, k), v). set_commit api ns k v) kvs) (snd (set_commit api ns k v w))) = Inr ()"
    using Cons.prems by (simp_all add: kv write_all_Cons del: write_all.simps)
  show ?case
    using Cons.IH [OF rest] set_commit_view [OF assms ok] ok
    by (simp add: kv write_all_Cons del: write_all.simps)
qed simp

lemma cal_writes_eq:
  "[setF32 api NS_CAL K_SPM (stepsPerMl cal), setF32 api NS_CAL K_NOM (nominalVolumeMl cal),
    setF32 api NS_CAL K_COEFF (speedCoeff cal), setU32 api NS_CAL K_MIN (ucast (minFreqHz cal)),
    setU32 api NS_CAL K_MAX (ucast (maxFreqHz cal)), setI32 api NS_CAL K_DATE 0]
   = map (\<lambda>((ns, k), v). set_commit api ns k v)
       [((NS_CAL, K_SPM), NU32 (f32_bits (stepsPerMl cal))), ((NS_CAL, K_NOM), NU32 (f32_bits (nominalVolumeMl cal))),
        ((NS_CAL, K_COEFF), NU32 (f32_bits (speedCoeff cal))), ((NS_CAL, K_MIN), NU32 (ucast (minFreqHz cal))),
        ((NS_CAL, K_MAX), NU32 (ucast (maxFreqHz cal))), ((NS_CAL, K_DATE), NI32 0)]"
  by (simp add: setF32_def setU32_def setI32_def)

lemma adc_writes_eq:
  "[setU32 api NS_ADC K_AX a, setI32 api NS_ADC K_B b]
   = map (\<lambda>((ns, k), v). set_commit api ns k v) [((NS_ADC, K_AX), NU32 a), ((NS_ADC, K_B), NI32 b)]"
  by (simp add: setU32_def setI32_def)

lemma open_view: "nvs_laws api view \<Longrightarrow> view (snd (nvs_open api ns rw w)) = view w"
  by (simp add: nvs_laws_def)

lemma getF32_view:
  "nvs_laws api view \<Longrightarrow> view w (ns, k) = Some (NU32 (f32_bits x)) \<Longrightarrow> fp_ok f32 x \<Longrightarrow> getF32 api ns k w = Inr (Some x)"
  by (simp add: nvs_laws_def getF32_def f32_bits_roundtrip)

lemma getU32_view: "nvs_laws api view \<Longrightarrow> view w (ns, k) = Some (NU32 x) \<Longrightarrow> getU32 api ns k w = Inr (Some x)"
  by (simp add: nvs_laws_def getU32_def)

lemma getI32_view: "nvs_laws api view \<Longrightarrow> view w (ns, k) = Some (NI32 x) \<Longrightarrow> getI32 api ns k w = Inr (Some x)"
  by (simp add: nvs_laws_def getI32_def)

lemma ucast16_roundtrip: "ucast ((ucast (x :: u16) :: u32) AND 0xFFFF) = x"
proof -
  have m: "(0xFFFF :: u32) = mask 16" by (simp add: mask_eq_exp_minus_1)
  show ?thesis
    unfolding m by (rule bit_word_eqI) (auto simp: bit_simps)
qed

definition cal_storable :: "CalibrationData \<Rightarrow> bool" where
  "cal_storable cal \<longleftrightarrow> fp_ok f32 (stepsPerMl cal) \<and> fp_ok f32 (nominalVolumeMl cal) \<and> fp_ok f32 (speedCoeff cal)"

lemma calibration_roundtrip:
  assumes "nvs_laws api view" and "cal_storable cal"
    and "fst (calibrationWrite api cal s) = Inr ()"
    and "fst (nvs_open api NS_CAL False (st_flash (snd (calibrationWrite api cal s))))"
  shows "fst (calibrationRead api (snd (calibrationWrite api cal s))) = Inr cal
    \<and> gCalCache (snd (calibrationWrite api cal s)) = Some cal"
proof -
  obtain w where o1: "nvs_open api NS_CAL True (st_flash s) = (True, w)"
    using assms(3) by (cases "nvs_open api NS_CAL True (st_flash s)")
      (auto simp: calibrationWrite_def split: if_splits)
  define kvs where "kvs = [((NS_CAL, K_SPM), NU32 (f32_bits (stepsPerMl cal))),
      ((NS_CAL, K_NOM), NU32 (f32_bits (nominalVolumeMl cal))),
      ((NS_CAL, K_COEFF), NU32 (f32_bits (speedCoeff cal))), ((NS_CAL, K_MIN), NU32 (ucast (minFreqHz cal))),
      ((NS_CAL, K_MAX), NU32 (ucast (maxFreqHz cal))), ((NS_CAL, K_DATE), NI32 0)]"
  let ?run = "write_all (map (\<lambda>((ns, k), v). set_commit api ns k v) kvs) w"
  have W: "calibrationWrite api cal s = (case fst ?run of
      Inl e \<Rightarrow> (Inl e, s\<lparr>st_flash := snd ?run\<rparr>)
    | Inr _ \<Rightarrow> (Inr (), s\<lparr>st_flash := snd ?run, gCalCache := Some cal\<rparr>))"
    unfolding calibrationWrite_def o1 cal_writes_eq kvs_def [symmetric] by (simp add: case_prod_beta)
  have ok: "fst ?run = Inr ()" using assms(3) by (auto simp: W split: sum.splits)
  then have s': "snd (calibrationWrite api cal s) = s\<lparr>st_flash := snd ?run, gCalCache := Some cal\<rparr>"
    by (simp add: W)
  obtain w' where o2: "nvs_open api NS_CAL False (snd ?run) = (True, w')"
    using assms(4) by (cases "nvs_open api NS_CAL False (snd ?run)") (simp add: s')
  have V: "view w' = foldl (\<lambda>m ((ns, k), v). m((ns, k) \<mapsto> v)) (view w) kvs"
    using open_view [OF assms(1), of NS_CAL False "snd ?run"] write_all_view [OF assms(1) ok] by (simp add: o2)
  have "cal_from_flash api w' = cal"
  proof -
    have "getF32 api NS_CAL K_SPM w' = Inr (Some (stepsPerMl cal))"
        "getF32 api NS_CAL K_NOM w' = Inr (Some (nominalVolumeMl cal))"
        "getF32 api NS_CAL K_COEFF w' = Inr (Some (speedCoeff cal))"
      using assms(2)
      by (auto intro!: getF32_view [OF assms(1)] simp: cal_storable_def V kvs_def nvs_names)
    moreover have "getU32 api NS_CAL K_MIN w' = Inr (Some (ucast (minFreqHz cal)))"
        "getU32 api NS_CAL K_MAX w' = Inr (Some (ucast (maxFreqHz cal)))"
      by (auto intro!: getU32_view [OF assms(1)] simp: V kvs_def nvs_names)
    ultimately show ?thesis
      by (simp add: cal_from_flash_def value_or_default_def ucast16_roundtrip)
  qed
  then show ?thesis by (simp add: calibrationRead_def s' o2)
qed

text \<open>A calibration that was written successfully is the calibration every later read returns,
  bit for bit, and the one the cache publishes, as long as the namespace can be opened: nothing
  is lost in the conversion to the stored integers.\<close>

theorem calibration_write_read:
  assumes "nvs_laws api view" and "cal_storable cal"
    and "fst (calibrationWrite api cal s) = Inr ()"
    and "fst (nvs_open api NS_CAL False (st_flash (snd (calibrationWrite api cal s))))"
  shows "fst (calibrationRead api (snd (calibrationWrite api cal s))) = Inr cal
    \<and> gCalCache (snd (calibrationWrite api cal s)) = Some cal"
  by (rule calibration_roundtrip [OF assms])

subsection \<open>A reference flash\<close>

text \<open>A flash that is a map and whose calls always succeed satisfies the laws.\<close>

definition typed_get :: "(nvs_val \<Rightarrow> 'a option) \<Rightarrow> nvs_val option \<Rightarrow> 'a nvs_get" where
  "typed_get f v = (case v of None \<Rightarrow> NotFound | Some x \<Rightarrow> (case f x of Some y \<Rightarrow> Found y | None \<Rightarrow> Failed))"

fun as_u8 :: "nvs_val \<Rightarrow> u8 option" where "as_u8 (NU8 v) = Some v" | "as_u8 _ = None"
fun as_u32 :: "nvs_val \<Rightarrow> u32 option" where "as_u32 (NU32 v) = Some v" | "as_u32 _ = None"
fun as_i32 :: "nvs_val \<Rightarrow> i32 option" where "as_i32 (NI32 v) = Some v" | "as_i32 _ = None"
fun as_str :: "nat \<Rightarrow> nvs_val \<Rightarrow> string option" where
  "as_str n (NStr v) = (if length v < n then Some v else None)" | "as_str n _ = None"

definition ref_nvs :: "(string \<times> string \<Rightarrow> nvs_val option) nvs_api" where
  "ref_nvs =
     \<lparr>nvs_open = (\<lambda>ns rw w. (True, w)),
      nvs_get_u8 = (\<lambda>ns k w. typed_get as_u8 (w (ns, k))),
      nvs_get_u32 = (\<lambda>ns k w. typed_get as_u32 (w (ns, k))),
      nvs_get_i32 = (\<lambda>ns k w. typed_get as_i32 (w (ns, k))),
      nvs_get_str = (\<lambda>ns k n w. typed_get (as_str n) (w (ns, k))),
      nvs_set = (\<lambda>ns k v w. (True, w((ns, k) \<mapsto> v))),
      nvs_commit = (\<lambda>ns w. (True, w)),
      nvs_erase_key = (\<lambda>ns k w. (w (ns, k) \<noteq> None, w((ns, k) := None))),
      nvs_erase_all = (\<lambda>ns w. (True, \<lambda>(n, k). if n = ns then None else w (n, k)))\<rparr>"

lemma ref_nvs_laws: "nvs_laws ref_nvs (\<lambda>w. w)"
  by (simp add: nvs_laws_def ref_nvs_def typed_get_def)

definition ref_store :: "(string \<times> string \<Rightarrow> nvs_val option) store" where
  "ref_store = \<lparr>st_flash = (\<lambda>_. None), gCalCache = None, gCoeffAX1000 = 1000, gCoeffB = 0\<rparr>"

lemma ref_set_commit: "set_commit ref_nvs ns k v w = (Inr (), w((ns, k) \<mapsto> v))"
  by (simp add: set_commit_def ref_nvs_def)

lemma ref_open: "nvs_open ref_nvs ns rw w = (True, w)"
  by (simp add: ref_nvs_def)

lemma cal_defaults_storable: "cal_storable cal_defaults"
  by (simp add: cal_storable_def cal_defaults_def kDefaultStepsPerMl_def kDefaultNominalVolumeMl_def
      kDefaultSpeedCoeff_def)

theorem calibration_write_read_witness:
  "fst (calibrationRead ref_nvs (snd (calibrationWrite ref_nvs cal_defaults ref_store))) = Inr cal_defaults"
  using calibration_write_read [OF ref_nvs_laws cal_defaults_storable, of ref_store]
  by (simp add: calibrationWrite_def ref_open ref_set_commit setF32_def setU32_def setI32_def)

subsection \<open>First boot\<close>

text \<open>The first boot on an empty flash stores zeros, not the documented defaults, for the
  calibration: the next read returns a calibration whose steps per millilitre, nominal volume
  and speed coefficient are all zero.\<close>

theorem first_boot_stores_zeros:
  "fst (calibrationRead ref_nvs (ref_store\<lparr>st_flash := nvsInit ref_nvs (\<lambda>_. None)\<rparr>)) = Inr cal_zero
   \<and> cal_zero \<noteq> cal_defaults"
proof -
  let ?cal = "(\<lambda>_. None)((NS_CAL, K_SPM) \<mapsto> NU32 0, (NS_CAL, K_NOM) \<mapsto> NU32 0, (NS_CAL, K_COEFF) \<mapsto> NU32 0,
      (NS_CAL, K_MIN) \<mapsto> NU32 0, (NS_CAL, K_MAX) \<mapsto> NU32 0, (NS_CAL, K_DATE) \<mapsto> NI32 0)"
  have u32: "getU32 ref_nvs ns k w = of_get (typed_get as_u32 (w (ns, k)))"
    and fl: "getF32 ref_nvs ns k w = (case typed_get as_u32 (w (ns, k)) of
        NotFound \<Rightarrow> Inr None | Failed \<Rightarrow> Inl NvsOpenFailed | Found bits \<Rightarrow> Inr (Some (f32_of_bits bits)))" for ns k w
    by (simp_all add: getU32_def getF32_def ref_nvs_def)
  have z: "f32_bits (fp_zero f32 False) = 0" "f32_of_bits 0 = fp_zero f32 False"
    by (simp_all add: fp_zero_def f32_def f32_of_bits_def)
  have "nvs_init_cal ref_nvs (\<lambda>_. None) = ?cal"
    by (simp add: nvs_init_cal_def ref_open fl typed_get_def absent_def setF32_def setU32_def setI32_def
        ref_set_commit cal_zero_def z)
  then have "nvsInit ref_nvs (\<lambda>_. None)
      = ?cal((NS_ADC, K_AX) \<mapsto> NU32 1000, (NS_ADC, K_B) \<mapsto> NI32 0, (NS_SG, K_SG) \<mapsto> NU32 0)"
    by (simp add: nvsInit_def nvs_init_adc_def nvs_init_sg_def ref_open u32 typed_get_def absent_def
        setU32_def setI32_def ref_set_commit nvs_names)
  then have "fst (calibrationRead ref_nvs (ref_store\<lparr>st_flash := nvsInit ref_nvs (\<lambda>_. None)\<rparr>)) = Inr cal_zero"
    by (simp add: calibrationRead_def ref_open cal_from_flash_def u32 fl typed_get_def value_or_default_def
        nvs_names cal_zero_def z Let_def)
  moreover have "minFreqHz cal_zero \<noteq> minFreqHz cal_defaults"
    by (simp add: cal_zero_def cal_defaults_def kDefaultMinFreqHz_def)
  ultimately show ?thesis by metis
qed

end
