(* ===== verification/App_State.thy ===== *)
theory App_State
  imports Nvs_Store
begin

text \<open>
  The state the command handlers share: the published atomics with the settings store, the
  queues between the tasks, the valve driver with its settle timer
  (\<^verbatim>\<open>infrastructure/src/drivers/valve.cpp\<close>) and the pending calibration data of the handlers;
  and the motor controller (\<^verbatim>\<open>infrastructure/src/motor/motor_controller_impl.cpp\<close>), the
  application's side of the motor queues.

  A FreeRTOS queue is absent (a null handle) or the list of its items, oldest first, of bounded
  length; a send with a timeout of zero fails when it is full.  A one-shot \<^verbatim>\<open>esp_timer\<close> is the
  flag that it is running: starting a running timer is an error, stopping a stopped one is
  reported and ignored by the code.
\<close>

declare One_nat_def [simp del]

subsection \<open>Queues\<close>

definition xQueueSend :: "nat \<Rightarrow> 'a \<Rightarrow> 'a list option \<Rightarrow> bool \<times> 'a list option" where
  "xQueueSend depth x q =
     (case q of
        None \<Rightarrow> (False, None)
      | Some xs \<Rightarrow> if length xs < depth then (True, Some (xs @ [x])) else (False, Some xs))"

definition xQueuePeek :: "'a list option \<Rightarrow> 'a option" where
  "xQueuePeek q = (case q of Some (x # _) \<Rightarrow> Some x | _ \<Rightarrow> None)"

definition xQueueReceive :: "'a list option \<Rightarrow> 'a option \<times> 'a list option" where
  "xQueueReceive q = (case q of Some (x # xs) \<Rightarrow> (Some x, Some xs) | _ \<Rightarrow> (None, q))"

definition MOTOR_CMD_QUEUE_LEN :: nat where "MOTOR_CMD_QUEUE_LEN = 4"
definition WS_BROADCAST_QUEUE_DEPTH :: nat where "WS_BROADCAST_QUEUE_DEPTH = 8"
definition STEP_FREQ_MIN_HZ :: nat where "STEP_FREQ_MIN_HZ = 30"
definition STEP_FREQ_MAX_HZ :: nat where "STEP_FREQ_MAX_HZ = 3000"

subsection \<open>The state\<close>

text \<open>\<open>v_timer\<close> is the argument the settle timer was created with, \<open>v_running\<close> whether it runs.\<close>

record Valve =
  v_level :: bool
  v_position :: ValvePosition
  v_timer :: "ValvePosition option"
  v_armed :: bool
  v_running :: bool

record AdcCalPoint =
  pt_ref_mv :: fp
  pt_raw_mv :: u16
  pt_collected :: bool

record 'w app = globals +
  ap_store :: "'w store"
  ap_motorQueue :: "MotorCommand list option"
  ap_resultQueue :: "SmResult list option"
  ap_wsQueue :: "string list option"
  ap_valve :: Valve
  ap_pendingCal :: CalibrationData
  ap_points :: "AdcCalPoint list"
  ap_pointCount :: nat
  ap_pendingAX1000 :: u16
  ap_pendingB :: i16
  ap_controller :: bool

subsection \<open>Valve driver\<close>

definition valve_init :: Valve where
  "valve_init = \<lparr>v_level = False, v_position = ValvePosition.Input, v_timer = None, v_armed = False,
     v_running = False\<rparr>"

definition setPosition :: "ValvePosition \<Rightarrow> Valve \<Rightarrow> Valve" where
  "setPosition p v =
     (case p of
        ValvePosition.Input \<Rightarrow> v\<lparr>v_level := False, v_position := p\<rparr>
      | ValvePosition.Output \<Rightarrow> v\<lparr>v_level := True, v_position := p\<rparr>)"

text \<open>\<^term>\<open>None\<close> is the abort of \<^verbatim>\<open>ESP_ERROR_CHECK\<close> on starting a running timer.\<close>

definition armValveSettleTimer :: "ValvePosition \<Rightarrow> Valve \<Rightarrow> Valve outcome" where
  "armValveSettleTimer pos v =
     (let v1 = (case v_timer v of
                  None \<Rightarrow> v\<lparr>v_timer := Some (if pos = ValvePosition.Input then ValvePosition.Input else ValvePosition.Output)\<rparr>
                | Some _ \<Rightarrow>
                    (if v_armed v then v\<lparr>v_armed := True, v_running := False\<rparr> else v\<lparr>v_armed := True\<rparr>))
      in if v_running v1 then None else Some (v1\<lparr>v_running := True\<rparr>))"

definition cancelValveSettleTimer :: "Valve \<Rightarrow> Valve" where
  "cancelValveSettleTimer v =
     (if v_armed v
      then (case v_timer v of None \<Rightarrow> v\<lparr>v_armed := False\<rparr> | Some _ \<Rightarrow> v\<lparr>v_armed := False, v_running := False\<rparr>)
      else v)"

definition position_str :: "ValvePosition \<Rightarrow> string" where
  "position_str p = (if p = ValvePosition.Input then ''input'' else ''output'')"

definition settled_event :: "ValvePosition \<Rightarrow> string" where
  "settled_event p = ''{'' @ jkey ''event'' @ quoted ''valve_settled'' @ '','' @ jkey ''position''
     @ quoted (position_str p) @ ''}''"

text \<open>The timer fires: the event reports the argument of the timer's creation.\<close>

definition valveSettleCallback :: "'w app \<Rightarrow> 'w app" where
  "valveSettleCallback s =
     (case v_timer (ap_valve s) of
        None \<Rightarrow> s
      | Some pos \<Rightarrow>
          s\<lparr>ap_wsQueue := snd (xQueueSend WS_BROADCAST_QUEUE_DEPTH (settled_event pos) (ap_wsQueue s)),
            gValveIsSettling := False,
            ap_valve := (ap_valve s)\<lparr>v_armed := False, v_running := False\<rparr>\<rparr>)"

text \<open>The state after boot, with its queues created.\<close>

definition app_init :: "'w store \<Rightarrow> 'w app" where
  "app_init st = globals.extend globals_init
     (app.fields st (Some []) (Some []) (Some []) valve_init cal_defaults
       (replicate 5 \<lparr>pt_ref_mv = fp_zero f32 False, pt_raw_mv = 0, pt_collected = False\<rparr>) 0 1000 0 True)"

lemma app_init_simps [simp]:
  "ap_store (app_init st) = st" "ap_motorQueue (app_init st) = Some []" "ap_resultQueue (app_init st) = Some []"
  "ap_wsQueue (app_init st) = Some []" "ap_valve (app_init st) = valve_init" "ap_pendingCal (app_init st) = cal_defaults"
  "ap_points (app_init st) = replicate 5 \<lparr>pt_ref_mv = fp_zero f32 False, pt_raw_mv = 0, pt_collected = False\<rparr>"
  "ap_pointCount (app_init st) = 0" "ap_pendingAX1000 (app_init st) = 1000" "ap_pendingB (app_init st) = 0"
  "ap_controller (app_init st)" "gBuretteState (app_init st) = BuretteState.Idle"
  "gValveIsSettling (app_init st) = False" "gSpeed (app_init st) = DEFAULT_SPEED_HZ"
  "gAccel (app_init st) = DEFAULT_ACCEL_HZ_PER_S" "gVolumeMl (app_init st) = DEFAULT_VOLUME_ML"
  by (simp_all add: app_init_def globals.defs app.defs globals_init_def)

subsection \<open>Motor controller\<close>

definition sendMotorCommand :: "MotorCommand \<Rightarrow> 'w app \<Rightarrow> bool \<times> 'w app" where
  "sendMotorCommand cmd s =
     (let (ok, q) = xQueueSend MOTOR_CMD_QUEUE_LEN cmd (ap_motorQueue s) in (ok, s\<lparr>ap_motorQueue := q\<rparr>))"

definition direction_value :: "string \<Rightarrow> Direction option" where
  "direction_value v =
     (if 5 \<le> length v \<and> take 5 v = ''liqIn'' then Some Direction.LiqIn
      else if 6 \<le> length v \<and> take 6 v = ''liqOut'' then Some Direction.LiqOut
      else None)"

definition motor_cmd_now :: "'w app \<Rightarrow> MotorCommand" where
  "motor_cmd_now s = motor_cmd_init\<lparr>mc_speedHz := gSpeed s, mc_accelHzPerS := gAccel s\<rparr>"

text \<open>The command a JSON text asks for, \<^term>\<open>None\<close> where the code returns false.\<close>

definition move_steps_cmd :: "string \<Rightarrow> 'w app \<Rightarrow> MotorCommand option" where
  "move_steps_cmd json s =
     (case findJsonInt ''steps'' json of
        None \<Rightarrow> None
      | Some steps \<Rightarrow>
          let c0 = (motor_cmd_now s)\<lparr>mc_type := MotorCommandType.MoveSteps, mc_steps := steps\<rparr>
          in case (case findJsonString json ''direction'' of
                     None \<Rightarrow> Some (c0\<lparr>mc_direction := gDirection s\<rparr>)
                   | Some v \<Rightarrow> map_option (\<lambda>d. c0\<lparr>mc_direction := d\<rparr>) (direction_value v)) of
               None \<Rightarrow> None
             | Some c1 \<Rightarrow>
                 let c2 = (case findJsonInt ''speedHz'' json of Some v \<Rightarrow> c1\<lparr>mc_speedHz := v\<rparr> | None \<Rightarrow> c1)
                 in Some (case findJsonInt ''accelHzPerS'' json of Some v \<Rightarrow> c2\<lparr>mc_accelHzPerS := v\<rparr> | None \<Rightarrow> c2))"

definition set_speed_cmd :: "string \<Rightarrow> 'w app \<Rightarrow> MotorCommand option" where
  "set_speed_cmd json s =
     (case findJsonInt ''speedHz'' json of
        None \<Rightarrow> None
      | Some v \<Rightarrow>
          if sint v < int STEP_FREQ_MIN_HZ \<or> int STEP_FREQ_MAX_HZ < sint v then None
          else Some ((motor_cmd_now s)\<lparr>mc_type := MotorCommandType.SetSpeed, mc_speedHz := v\<rparr>))"

definition build_motor_cmd :: "string \<Rightarrow> string \<Rightarrow> 'w app \<Rightarrow> MotorCommand option" where
  "build_motor_cmd name json s =
     (let c = motor_cmd_now s
      in if name = ''stop'' then Some (c\<lparr>mc_type := MotorCommandType.Stop\<rparr>)
         else if name = ''emergencyStop'' then Some (c\<lparr>mc_type := MotorCommandType.EmergencyStop\<rparr>)
         else if name = ''home'' then Some (c\<lparr>mc_type := MotorCommandType.Home\<rparr>)
         else if name = ''setDirection'' then
           (case findJsonString json ''direction'' of
              None \<Rightarrow> None
            | Some v \<Rightarrow> map_option (\<lambda>d. c\<lparr>mc_type := MotorCommandType.SetDirection, mc_direction := d\<rparr>)
                          (direction_value v))
         else if name = ''setSpeed'' then set_speed_cmd json s
         else if name = ''setAccel'' then
           map_option (\<lambda>v. c\<lparr>mc_type := MotorCommandType.SetAccel, mc_accelHzPerS := v\<rparr>)
             (findJsonInt ''accelHzPerS'' json)
         else if name = ''moveSteps'' then move_steps_cmd json s
         else if name = ''setStallThreshold'' then
           map_option (\<lambda>v. c\<lparr>mc_type := MotorCommandType.SetStallThreshold, mc_stallThreshold := ucast v\<rparr>)
             (findJsonInt ''threshold'' json)
         else None)"

definition sendCommand :: "string \<Rightarrow> 'w app \<Rightarrow> bool \<times> 'w app" where
  "sendCommand json s =
     (case findJsonString json ''cmd'' of
        None \<Rightarrow> (False, s)
      | Some v \<Rightarrow>
          if v = [] \<or> 31 < length v then (False, s)
          else case build_motor_cmd (takeWhile (\<lambda>c. c \<noteq> CHR 0x00) v) json s of
                 None \<Rightarrow> (False, s)
               | Some cmd \<Rightarrow> sendMotorCommand cmd s)"

definition readTmcRegister :: "u8 \<Rightarrow> 'w app \<Rightarrow> bool \<times> 'w app" where
  "readTmcRegister reg s =
     sendMotorCommand (motor_cmd_init\<lparr>mc_type := MotorCommandType.ReadTmcRegister,
                                      mc_readTmcReg := \<lparr>rtr_reg = reg\<rparr>\<rparr>) s"

definition peekResult :: "'w app \<Rightarrow> SmResult option" where
  "peekResult s = xQueuePeek (ap_resultQueue s)"

text \<open>The wait of the main loop, with a timeout of zero.\<close>

definition waitResult :: "'w app \<Rightarrow> SmResult option \<times> 'w app" where
  "waitResult s = (let (r, q) = xQueueReceive (ap_resultQueue s) in (r, s\<lparr>ap_resultQueue := q\<rparr>))"

subsection \<open>Properties\<close>

definition motor_queue :: "'w app \<Rightarrow> MotorCommand list" where
  "motor_queue s = (case ap_motorQueue s of None \<Rightarrow> [] | Some q \<Rightarrow> q)"

lemma queue_self [simp]: "s\<lparr>ap_motorQueue := ap_motorQueue s\<rparr> = s"
  by (cases s) simp

lemma sendMotorCommand_eq:
  "sendMotorCommand c s =
     (case ap_motorQueue s of
        Some q \<Rightarrow> if length q < MOTOR_CMD_QUEUE_LEN then (True, s\<lparr>ap_motorQueue := Some (q @ [c])\<rparr>) else (False, s)
      | None \<Rightarrow> (False, s))"
proof (cases "ap_motorQueue s")
  case None
  then show ?thesis using queue_self [of s] by (simp add: sendMotorCommand_def xQueueSend_def)
next
  case (Some q)
  then show ?thesis using queue_self [of s] by (simp add: sendMotorCommand_def xQueueSend_def)
qed

lemma sendMotorCommand_queue:
  "motor_queue (snd (sendMotorCommand c s)) = motor_queue s @ (if fst (sendMotorCommand c s) then [c] else [])"
  "globals.truncate (snd (sendMotorCommand c s)) = globals.truncate s"
  by (simp_all add: sendMotorCommand_eq motor_queue_def globals.truncate_def split: option.splits)

lemma unat_of_small_sint: "0 \<le> sint v \<Longrightarrow> int (unat v) = sint (v :: i32)"
  using sint_less [of v] by (simp add: uint_sint take_bit_int_eq_self)

lemma set_speed_limits:
  "set_speed_cmd json s = Some c \<Longrightarrow>
     STEP_FREQ_MIN_HZ \<le> unat (mc_speedHz c) \<and> unat (mc_speedHz c) \<le> STEP_FREQ_MAX_HZ"
proof -
  assume "set_speed_cmd json s = Some c"
  then obtain v where v: "mc_speedHz c = v" "int STEP_FREQ_MIN_HZ \<le> sint v" "sint v \<le> int STEP_FREQ_MAX_HZ"
    by (auto simp: set_speed_cmd_def split: option.splits if_splits)
  then have "int (unat v) = sint v" by (intro unat_of_small_sint) linarith
  then show ?thesis using v by (metis of_nat_le_iff)
qed

lemma build_set_speed:
  assumes "build_motor_cmd name json s = Some c" and "mc_type c = MotorCommandType.SetSpeed"
  shows "STEP_FREQ_MIN_HZ \<le> unat (mc_speedHz c) \<and> unat (mc_speedHz c) \<le> STEP_FREQ_MAX_HZ"
proof -
  have "set_speed_cmd json s = Some c"
    using assms unfolding build_motor_cmd_def Let_def move_steps_cmd_def
    by (auto split: if_splits option.splits)
  then show ?thesis by (rule set_speed_limits)
qed

text \<open>The motor controller never queues a speed outside the motor's limits under the name of a
  speed setting: whatever the text, an accepted request adds exactly one command to the queue, a
  rejected one none, the published state is untouched, and an added \<^verbatim>\<open>SetSpeed\<close> command lies
  within 30 and 3000 Hz.\<close>

theorem send_command_queues_valid:
  "motor_queue (snd (sendCommand json s)) = motor_queue s @ (if fst (sendCommand json s) then [last (motor_queue (snd (sendCommand json s)))] else [])
   \<and> globals.truncate (snd (sendCommand json s)) = globals.truncate s
   \<and> (if fst (sendCommand json s) \<and> mc_type (last (motor_queue (snd (sendCommand json s)))) = MotorCommandType.SetSpeed
      then unat (mc_speedHz (last (motor_queue (snd (sendCommand json s))))) \<in> {STEP_FREQ_MIN_HZ .. STEP_FREQ_MAX_HZ}
      else True)"
proof (cases "\<exists>c name. build_motor_cmd name json s = Some c \<and> sendCommand json s = sendMotorCommand c s")
  case False
  then have "sendCommand json s = (False, s)"
    unfolding sendCommand_def by (auto split: option.splits if_splits)
  then show ?thesis by simp
next
  case True
  then obtain c name where c: "build_motor_cmd name json s = Some c" "sendCommand json s = sendMotorCommand c s"
    by blast
  show ?thesis
    unfolding c(2) sendMotorCommand_queue using build_set_speed [OF c(1)] by simp
qed

text \<open>Every \<^verbatim>\<open>valve_settled\<close> event reports the position of the first setting since boot: once
  the timer exists, setting another position and letting the timer fire announces the old one.\<close>

theorem valve_event_reports_first_position:
  assumes "v_timer v = Some p0" and "armValveSettleTimer p (setPosition p v) = Some v'"
    and "ap_wsQueue s = Some q" and "length q < WS_BROADCAST_QUEUE_DEPTH"
  shows "ap_wsQueue (valveSettleCallback (s\<lparr>ap_valve := v'\<rparr>)) = Some (q @ [settled_event p0])
    \<and> v_position v' = p \<and> v_level v' = (p = ValvePosition.Output)"
  using assms
  by (cases p) (auto simp: armValveSettleTimer_def setPosition_def valveSettleCallback_def xQueueSend_def Let_def
      split: if_splits)

theorem valve_event_reports_first_position_witness:
  "ap_wsQueue (valveSettleCallback ((app_init ref_store)\<lparr>ap_valve :=
     valve_init\<lparr>v_timer := Some ValvePosition.Input, v_armed := True, v_running := True, v_level := True,
                v_position := ValvePosition.Output\<rparr>\<rparr>)) = Some [settled_event ValvePosition.Input]"
  using valve_event_reports_first_position [of "valve_init\<lparr>v_timer := Some ValvePosition.Input\<rparr>" ValvePosition.Input
      ValvePosition.Output _ "app_init ref_store" "[]"]
  by (simp add: armValveSettleTimer_def setPosition_def valve_init_def WS_BROADCAST_QUEUE_DEPTH_def)

end
