(* ===== verification/Burette_Handlers.thy ===== *)
theory Burette_Handlers
  imports App_State
begin

text \<open>
  The burette commands of \<^verbatim>\<open>application/src/handlers/burette_ops.cpp\<close>.  A handler maps the
  shared state to a response and the new state; \<^term>\<open>None\<close> is undefined behaviour (a conversion
  of a value that does not fit).  No handler of the source returns an error value: failures are
  error responses.
\<close>

declare One_nat_def [simp del]

type_synonym 'w handler = "'w app \<Rightarrow> (CommandResponse \<times> 'w app) outcome"

definition MIN_STEPS_THRESHOLD :: int where "MIN_STEPS_THRESHOLD = 10"
definition RINSE_DEFAULT_SPEED_ML_MIN :: fp where "RINSE_DEFAULT_SPEED_ML_MIN = f32_lit 500 1"

definition kStatusOk :: string where
  "kStatusOk = ''{'' @ jkey ''status'' @ quoted ''ok'' @ ''}''"

definition status_text :: "string \<Rightarrow> string" where
  "status_text t = ''{'' @ jkey ''status'' @ quoted t @ ''}''"

definition fail :: "string \<Rightarrow> 'w app \<Rightarrow> (CommandResponse \<times> 'w app) outcome" where
  "fail msg s = Some (makeErrorResponse msg, s)"

text \<open>The claim on the burette that opens every motion handler.\<close>

definition claim :: "BuretteState \<Rightarrow> ('w app \<Rightarrow> (CommandResponse \<times> 'w app) outcome) \<Rightarrow> 'w handler" where
  "claim d k s =
     (if gValveIsSettling s then fail ''burette_busy'' s
      else let (ok, s1) = claim_burette d s in if \<not> ok then fail ''burette_busy'' s1 else k s1)"

text \<open>The end of every motion handler: queue the command or release the burette.\<close>

definition start_motion :: "MotorCommand \<Rightarrow> 'w handler" where
  "start_motion cmd s =
     (let (ok, s1) = sendMotorCommand cmd s
      in if \<not> ok then fail ''busy'' (s1\<lparr>gBuretteState := BuretteState.Idle\<rparr>)
         else Some (makeAckThenResponse, s1))"

definition with_cal :: "(CalibrationData \<Rightarrow> 'w handler) \<Rightarrow> 'w handler" where
  "with_cal k s = (case gCalCache (ap_store s) of None \<Rightarrow> fail ''start_failed'' s | Some cal \<Rightarrow> k cal s)"

definition move_cmd :: "i32 \<Rightarrow> Direction \<Rightarrow> u32 \<Rightarrow> u32 \<Rightarrow> MotorCommand" where
  "move_cmd steps dir speed accel =
     motor_cmd_init\<lparr>mc_type := MotorCommandType.MoveSteps, mc_steps := steps, mc_direction := dir,
       mc_speedHz := speed, mc_accelHzPerS := accel\<rparr>"

definition full_stroke :: "CalibrationData \<Rightarrow> i32 outcome" where
  "full_stroke cal = lround_i32 (f_mul f32 (nominalVolumeMl cal) (stepsPerMl cal))"

definition handleFill :: "'w handler" where
  "handleFill =
     claim BuretteState.Filling (with_cal (\<lambda>cal s.
       case full_stroke cal of
         None \<Rightarrow> None
       | Some steps \<Rightarrow>
           let s1 = s\<lparr>gDirection := Direction.LiqIn\<rparr>
           in start_motion (move_cmd steps Direction.LiqIn (gSpeed s1) (gAccel s1)) s1))"

definition handleEmpty :: "'w handler" where
  "handleEmpty =
     claim BuretteState.Emptying (with_cal (\<lambda>cal s.
       case lround_i32 (f_mul f32 (gVolumeMl s) (stepsPerMl cal)) of
         None \<Rightarrow> None
       | Some steps0 \<Rightarrow>
           (case (if sint steps0 < MIN_STEPS_THRESHOLD then full_stroke cal else Some steps0) of
              None \<Rightarrow> None
            | Some steps \<Rightarrow>
                let s1 = s\<lparr>gDirection := Direction.LiqOut\<rparr>
                in start_motion (move_cmd steps Direction.LiqOut (gSpeed s1) (gAccel s1)) s1)))"

definition dose_speed :: "fp option \<Rightarrow> CalibrationData \<Rightarrow> 'w app \<Rightarrow> u32 outcome" where
  "dose_speed speedMlMin cal s =
     (case speedMlMin of
        None \<Rightarrow> Some (gSpeed s)
      | Some v \<Rightarrow> if f_lt (f32_lit 1 1) v then speedMlMinToHz v cal else Some (gSpeed s))"

definition handleDoseVolume :: "fp option \<Rightarrow> fp option \<Rightarrow> 'w handler" where
  "handleDoseVolume volume speedMlMin s0 =
     (case volume of
        None \<Rightarrow> fail ''invalid_params'' s0
      | Some vol \<Rightarrow>
          claim BuretteState.Dosing (with_cal (\<lambda>cal s.
            case planDose vol (gVolumeMl s) cal of
              None \<Rightarrow> None
            | Some plan \<Rightarrow>
                if \<not> dp_valid plan then fail ''invalid_params'' s
                else (case dose_speed speedMlMin cal s of
                        None \<Rightarrow> None
                      | Some speedHz \<Rightarrow>
                          (case lround_i32 (f_mul f32 (dp_firstCycleVolMl plan) (stepsPerMl cal)) of
                             None \<Rightarrow> None
                           | Some steps \<Rightarrow>
                               let s1 = s\<lparr>gDirection := Direction.LiqIn\<rparr>
                               in start_motion (move_cmd steps Direction.LiqIn speedHz (gAccel s1)) s1)))) s0)"

definition rinse_cmd :: "u32 \<Rightarrow> MotorCommand" where
  "rinse_cmd cycles =
     motor_cmd_init\<lparr>mc_type := MotorCommandType.StartRinse,
       mc_startRinse := \<lparr>sr_cycles = ucast cycles, sr_speedMlMin = RINSE_DEFAULT_SPEED_ML_MIN\<rparr>\<rparr>"

definition handleRinse :: "u32 option \<Rightarrow> 'w handler" where
  "handleRinse cycles s0 =
     (case cycles of
        None \<Rightarrow> fail ''invalid_params'' s0
      | Some n \<Rightarrow>
          if n = 0 then fail ''invalid_params'' s0
          else claim BuretteState.Rinsing (with_cal (\<lambda>cal. start_motion (rinse_cmd n))) s0)"

definition freq_of :: "fp option \<Rightarrow> u16 outcome" where
  "freq_of freqHz =
     (case freqHz of
        None \<Rightarrow> Some 0
      | Some f \<Rightarrow> if f_lt (fp_zero f32 False) f then map_option ucast (lround_i32 f) else Some 0)"

definition mode_text :: "string \<Rightarrow> string" where
  "mode_text mode = takeWhile (\<lambda>c. c \<noteq> CHR 0x00) (take (if 7 < length mode then 7 else length mode) mode)"

definition cal_run_cmd :: "CalRunPlan \<Rightarrow> MotorCommand" where
  "cal_run_cmd plan =
     (if crp_action plan = CalRunAction.CalDose
      then motor_cmd_init\<lparr>mc_type := MotorCommandType.StartCalDose,
             mc_startCalDose := \<lparr>scd_speedMlMin = crp_speedMlMin plan\<rparr>\<rparr>
      else motor_cmd_init\<lparr>mc_type := MotorCommandType.StartCalSpeed,
             mc_startCalSpeed := \<lparr>scs_speedMlMin = crp_speedMlMin plan, scs_testFreqHz = crp_freqHz plan\<rparr>\<rparr>)"

text \<open>The conversion of the rounded frequency to 16 bits keeps its low bits.\<close>

definition handleCalRun :: "string option \<Rightarrow> fp option \<Rightarrow> fp option \<Rightarrow> 'w handler" where
  "handleCalRun mode freqHz speedMlMin s =
     (case mode of
        None \<Rightarrow> fail ''invalid_params'' s
      | Some m \<Rightarrow>
          if gValveIsSettling s then fail ''burette_busy'' s
          else with_cal (\<lambda>cal s.
            case freq_of freqHz of
              None \<Rightarrow> None
            | Some freq \<Rightarrow>
                (case planCalRun (Some (mode_text m)) (case speedMlMin of Some v \<Rightarrow> v | None \<Rightarrow> fp_zero f32 False)
                        freq (f_of_int f32 (uint (maxFreqHz cal))) (speedCoeff cal)
                        (gBuretteState s \<noteq> BuretteState.Idle) of
                   None \<Rightarrow> None
                 | Some plan \<Rightarrow>
                     if crp_action plan = CalRunAction.Reject
                     then fail (if crp_rejectReason plan = CalRunRejectReason.BuretteBusy
                                then ''burette_busy'' else ''invalid_params'') s
                     else let (ok, s1) = claim_burette BuretteState.Dosing s
                          in if \<not> ok then fail ''burette_busy'' s1
                             else start_motion (cal_run_cmd plan) s1)) s)"

definition handleStop :: "'w handler" where
  "handleStop s =
     (if gValveIsSettling s then fail ''valve_settling_try_again'' s
      else let (ok, s1) = claim_burette BuretteState.Stopping s
           in if \<not> ok then fail ''burette_busy'' s1
              else let (sent, s2) = sendMotorCommand (motor_cmd_init\<lparr>mc_type := MotorCommandType.Stop\<rparr>) s1
                   in if \<not> sent then fail ''busy'' (s2\<lparr>gBuretteState := BuretteState.Idle\<rparr>)
                      else Some (makeSingleResponse (status_text ''stopped''), s2))"

definition handleEmergencyStop :: "'w handler" where
  "handleEmergencyStop s =
     (let s1 = s\<lparr>ap_valve := cancelValveSettleTimer (ap_valve s), gValveIsSettling := False\<rparr>;
          s2 = snd (claim_burette BuretteState.Error s1)\<lparr>gStopFull := True\<rparr>;
          (sent, s3) = sendMotorCommand (motor_cmd_init\<lparr>mc_type := MotorCommandType.EmergencyStop\<rparr>) s2
      in if \<not> sent then fail ''busy'' s3 else Some (makeSingleResponse (status_text ''emergency_stopped''), s3))"

definition handleGetStatus :: "BuretteState \<Rightarrow> fp \<Rightarrow> 'w handler" where
  "handleGetStatus st volumeMl s =
     Some (makeStatusResponse 0 st volumeMl (st = BuretteState.Homing), s)"

definition handleMoveSteps :: "i32 option \<Rightarrow> 'w handler" where
  "handleMoveSteps steps s =
     (case steps of
        None \<Rightarrow> fail ''invalid_params'' s
      | Some n \<Rightarrow> claim BuretteState.Dosing
          (start_motion (motor_cmd_init\<lparr>mc_type := MotorCommandType.MoveSteps, mc_steps := n\<rparr>)) s)"

text \<open>The setters: refused while the valve settles or the burette is not idle.\<close>

definition when_idle :: "'w handler \<Rightarrow> 'w handler" where
  "when_idle k s =
     (if gValveIsSettling s then fail ''burette_busy'' s
      else if gBuretteState s \<noteq> BuretteState.Idle then fail ''burette_busy'' s
      else k s)"

definition send_setting :: "MotorCommand \<Rightarrow> 'w handler" where
  "send_setting cmd s =
     (let (sent, s1) = sendMotorCommand cmd s
      in if \<not> sent then fail ''busy'' s1 else Some (makeSingleResponse kStatusOk, s1))"

definition handleSetDirection :: "Direction option \<Rightarrow> 'w handler" where
  "handleSetDirection dir s =
     (case dir of
        None \<Rightarrow> fail ''invalid_params'' s
      | Some d \<Rightarrow> when_idle (\<lambda>s. send_setting
          (motor_cmd_init\<lparr>mc_type := MotorCommandType.SetDirection, mc_direction := d\<rparr>) (s\<lparr>gDirection := d\<rparr>)) s)"

definition handleSetSpeed :: "u32 option \<Rightarrow> 'w handler" where
  "handleSetSpeed speedHz s =
     (case speedHz of
        None \<Rightarrow> fail ''invalid_params'' s
      | Some v \<Rightarrow> when_idle (\<lambda>s. send_setting
          (motor_cmd_init\<lparr>mc_type := MotorCommandType.SetSpeed, mc_speedHz := v\<rparr>) (s\<lparr>gSpeed := v\<rparr>)) s)"

definition handleSetAccel :: "u32 option \<Rightarrow> 'w handler" where
  "handleSetAccel accelSteps s =
     (case accelSteps of
        None \<Rightarrow> fail ''invalid_params'' s
      | Some v \<Rightarrow> when_idle (\<lambda>s. send_setting
          (motor_cmd_init\<lparr>mc_type := MotorCommandType.SetAccel, mc_accelHzPerS := v\<rparr>) (s\<lparr>gAccel := v\<rparr>)) s)"

definition handleMoveContinuous :: "Direction option \<Rightarrow> u32 option \<Rightarrow> 'w handler" where
  "handleMoveContinuous dir freqHz s =
     (case (dir, freqHz) of
        (Some d, Some f) \<Rightarrow>
          if f = 0 then fail ''invalid_params'' s
          else claim BuretteState.Dosing
            (start_motion (motor_cmd_init\<lparr>mc_type := MotorCommandType.MoveContinuous, mc_direction := d,
               mc_speedHz := f\<rparr>)) s
      | _ \<Rightarrow> fail ''invalid_params'' s)"

end
