(* ===== verification/Calibration_Handlers.thy ===== *)
theory Calibration_Handlers
  imports Burette_Handlers
begin

text \<open>
  The calibration commands of \<^verbatim>\<open>application/src/handlers/burette_cal.cpp\<close>.  The callbacks that
  read and write the stored calibration are arguments of the handlers, as in the source.
  \<open>put\<close> appends formatted text to a response body at its running offset; \<^term>\<open>None\<close> is an
  offset past the body, which would make the next write undefined.
\<close>

declare One_nat_def [simp del]

definition put :: "string \<Rightarrow> string \<Rightarrow> string outcome" where
  "put b t = (if length b + length t < MAX_RSP_SIZE then Some (b @ t) else None)"

definition single_body :: "string \<Rightarrow> CommandResponse" where
  "single_body b = (response_init ResponseKind.Single)\<lparr>r_body := b, r_bodySize := length b\<rparr>"

type_synonym 'w read_cal = "'w store \<Rightarrow> CalibrationData res \<times> 'w store"
type_synonym 'w write_cal = "CalibrationData \<Rightarrow> 'w store \<Rightarrow> unit res \<times> 'w store"

definition FILL_DEFAULT_SPEED_ML_MIN :: fp where "FILL_DEFAULT_SPEED_ML_MIN = f32_lit 200 1"
definition MAX_CAL_SEQ_POINTS :: nat where "MAX_CAL_SEQ_POINTS = 3"

definition makeCalResponse :: "string \<Rightarrow> CommandResponse outcome" where
  "makeCalResponse fs =
     (case put (ok_prefix @ ''{'') fs of
        None \<Rightarrow> None
      | Some b \<Rightarrow>
          (case put b ''}'' of
             None \<Rightarrow> None
           | Some b2 \<Rightarrow> Some (single_body (if length b2 < MAX_RSP_SIZE - 1 then b2 @ ''}'' else b2))))"

definition field_fixed :: "string \<Rightarrow> nat \<Rightarrow> fp \<Rightarrow> string" where
  "field_fixed name k x = jkey name @ fmt_fixed k x"

definition field_u16 :: "string \<Rightarrow> u16 \<Rightarrow> string" where
  "field_u16 name v = jkey name @ nat_str (unat v)"

definition calibration_text :: "CalibrationData \<Rightarrow> string" where
  "calibration_text cal =
     field_fixed ''steps_per_ml'' 1 (stepsPerMl cal) @ '','' @ field_fixed ''nominal_vol'' 2 (nominalVolumeMl cal)
     @ '','' @ field_fixed ''speed_coeff'' 5 (speedCoeff cal) @ '','' @ field_u16 ''min_freq'' (minFreqHz cal)
     @ '','' @ field_u16 ''max_freq'' (maxFreqHz cal) @ '','' @ jkey ''is_default'' @ ''true}''"

definition handleGetCalibration :: "'w read_cal \<Rightarrow> 'w handler" where
  "handleGetCalibration readCal s =
     (let (r, st) = readCal (ap_store s); s1 = s\<lparr>ap_store := st\<rparr>
      in case r of
           Inl e \<Rightarrow> fail ''start_failed'' s1
         | Inr cal \<Rightarrow>
             map_option (\<lambda>b. (single_body (if length b < MAX_RSP_SIZE - 1 then b @ ''}'' else b), s1))
               (put (ok_prefix @ ''{'') (calibration_text cal)))"

definition handleCalcVolume ::
  "fp option \<Rightarrow> fp option \<Rightarrow> fp option \<Rightarrow> 'w read_cal \<Rightarrow> 'w handler" where
  "handleCalcVolume massG temperature pressure readCal s =
     (if massG = None \<or> f_le (the massG) (fp_zero f32 False) then fail ''invalid_params'' s
      else let (r, st) = readCal (ap_store s); s1 = s\<lparr>ap_store := st\<rparr>
           in case r of
                Inl e \<Rightarrow> fail ''start_failed'' s1
              | Inr cal \<Rightarrow>
                  let temp = (case temperature of Some t \<Rightarrow> t | None \<Rightarrow> f32_lit 250 1);
                      press = (case pressure of Some p \<Rightarrow> p | None \<Rightarrow> f32_lit 1013 1);
                      z = getZFactor temp press;
                      actualVol = f_mul f32 (the massG) z;
                      newSpm = calculateNewStepsPerMl (stepsPerMl cal) (nominalVolumeMl cal) actualVol;
                      relError = f_mul f32 (f_div f32 (f_sub f32 actualVol (nominalVolumeMl cal))
                                   (nominalVolumeMl cal)) (f32_lit 1000 1);
                      s2 = s1\<lparr>ap_pendingCal := (ap_pendingCal s1)\<lparr>stepsPerMl := newSpm,
                                nominalVolumeMl := actualVol\<rparr>\<rparr>
                  in map_option (\<lambda>rsp. (rsp, s2))
                       (makeCalResponse (field_fixed ''z_factor'' 6 z @ '','' @
                          field_fixed ''actual_volume_ml'' 4 actualVol @ '','' @
                          field_fixed ''new_steps_per_ml'' 1 newSpm @ '','' @
                          field_fixed ''relative_error_pct'' 2 relError)))"

definition handleCalcSpeed :: "(fp \<times> fp) list \<Rightarrow> 'w read_cal \<Rightarrow> 'w handler" where
  "handleCalcSpeed measurements readCal s =
     (if length measurements < 2 then fail ''invalid_params'' s
      else let (r, st) = readCal (ap_store s); s1 = s\<lparr>ap_store := st\<rparr>
           in case r of
                Inl e \<Rightarrow> fail ''start_failed'' s1
              | Inr cal \<Rightarrow>
                  let result = calculateSpeedCalibration measurements;
                      s2 = s1\<lparr>ap_pendingCal := (ap_pendingCal s1)\<lparr>speedCoeff := ols_k result\<rparr>\<rparr>
                  in map_option (\<lambda>rsp. (rsp, s2))
                       (makeCalResponse (field_fixed ''k'' 6 (ols_k result) @ '','' @
                          field_fixed ''r_squared'' 4 (ols_rSquared result) @ '','' @
                          field_u16 ''min_freq'' (minFreqHz cal) @ '','' @ field_u16 ''max_freq'' (maxFreqHz cal))))"

definition saved_text :: "CalibrationData \<Rightarrow> string" where
  "saved_text cal = field_fixed ''stepsPerMl'' 1 (stepsPerMl cal) @ '','' @
     field_fixed ''nominalVolume'' 1 (nominalVolumeMl cal)"

definition pending_with :: "fp option \<Rightarrow> fp option \<Rightarrow> CalibrationData \<Rightarrow> CalibrationData" where
  "pending_with spm nom c0 =
     (let c1 = (case spm of Some v \<Rightarrow> c0\<lparr>stepsPerMl := v\<rparr> | None \<Rightarrow> c0)
      in case nom of Some v \<Rightarrow> c1\<lparr>nominalVolumeMl := v\<rparr> | None \<Rightarrow> c1)"

definition handleSaveCalibration :: "fp option \<Rightarrow> fp option \<Rightarrow> 'w write_cal \<Rightarrow> 'w handler" where
  "handleSaveCalibration spm nomVolume writeCal s =
     (let cal = pending_with spm nomVolume (ap_pendingCal s);
          (r, st) = writeCal cal (ap_store s);
          s1 = s\<lparr>ap_store := st\<rparr>
      in case r of
           Inl e \<Rightarrow> fail ''start_failed'' s1
         | Inr _ \<Rightarrow> map_option (\<lambda>rsp. (rsp, s1\<lparr>ap_pendingCal := cal\<rparr>)) (makeCalResponse (saved_text cal)))"

definition handleResetCalibration :: "'w write_cal \<Rightarrow> 'w handler" where
  "handleResetCalibration writeCal s =
     (let (r, st) = writeCal cal_defaults (ap_store s); s1 = s\<lparr>ap_store := st\<rparr>
      in case r of
           Inl e \<Rightarrow> fail ''start_failed'' s1
         | Inr _ \<Rightarrow> map_option (\<lambda>rsp. (rsp, s1)) (makeCalResponse (saved_text cal_defaults)))"

text \<open>The first three frequencies, the missing ones zero.\<close>

fun seq_freqs :: "fp list \<Rightarrow> u16 list outcome" where
  "seq_freqs [] = Some []"
| "seq_freqs (f # fs) =
     (case (freq_of (Some f), seq_freqs fs) of (Some v, Some vs) \<Rightarrow> Some (v # vs) | _ \<Rightarrow> None)"

definition handleRunCalibration :: "fp list \<Rightarrow> fp \<Rightarrow> 'w handler" where
  "handleRunCalibration freqs speedMlMin s0 =
     (if length freqs < 2 then fail ''invalid_params'' s0
      else claim BuretteState.Dosing (\<lambda>s.
        case seq_freqs (take MAX_CAL_SEQ_POINTS freqs) of
          None \<Rightarrow> None
        | Some vs \<Rightarrow>
            let cmd = motor_cmd_init\<lparr>mc_type := MotorCommandType.StartCalSpeedSeq,
                  mc_startCalSpeedSeq := \<lparr>scq_freqs = take 3 (vs @ [0, 0, 0]),
                    scq_fillSpeedMlMin = (if f_lt (fp_zero f32 False) speedMlMin then speedMlMin
                                          else FILL_DEFAULT_SPEED_ML_MIN)\<rparr>\<rparr>;
                (sent, s1) = sendMotorCommand cmd s
            in if \<not> sent then fail ''start_failed'' (s1\<lparr>gBuretteState := BuretteState.Idle\<rparr>)
               else Some (makeAckThenResponse, s1)) s0)"

definition results_text :: "SmResult \<Rightarrow> string" where
  "results_text r =
     (let xs = take (min 3 (nat (sm_resultCount r))) (sm_results r)
      in concat (map (\<lambda>i. (if 0 < i then '','' else '''') @ fmt_fixed 2 (xs ! i)) [0 ..< length xs]))"

definition result_fields :: "SmResult \<Rightarrow> string" where
  "result_fields r =
     '','' @ jkey ''resultType'' @
     (case sm_type r of
        SmResultType.RinseComplete \<Rightarrow> quoted ''rinse''
      | SmResultType.CalDoseComplete \<Rightarrow> quoted ''cal_dose'' @ '','' @ jkey ''stepsTaken'' @ int_str (sint (sm_stepsTaken r))
      | SmResultType.CalSpeedComplete \<Rightarrow> quoted ''cal_speed'' @ '','' @ field_fixed ''speedMlMin'' 2 (sm_measuredSpeedMlMin r)
      | SmResultType.CalSpeedSeqComplete \<Rightarrow> quoted ''cal_speed_seq'' @ '','' @ jkey ''results'' @ ''['' @ results_text r @ '']''
      | _ \<Rightarrow> quoted ''error'')"

definition handleGetCalResult :: "'w handler" where
  "handleGetCalResult s =
     (if \<not> ap_controller s then fail ''start_failed'' s
      else case peekResult s of
             None \<Rightarrow> Some (single_body (ok_prefix @ ''{'' @ jkey ''result'' @ quoted ''no_result'' @ ''}}''), s)
           | Some r \<Rightarrow>
               if sm_type r = SmResultType.None'
               then Some (single_body (ok_prefix @ ''{'' @ jkey ''result'' @ quoted ''no_result'' @ ''}}''), s)
               else map_option
                 (\<lambda>b. (single_body (if length b < MAX_RSP_SIZE - 1 then b @ ''}}'' else b), s))
                 (put (ok_prefix @ ''{'' @ jkey ''result'' @ quoted ''ok'') (result_fields r)))"

subsection \<open>The texts always fit\<close>

lemma length_nat_str_less: "n < 10 ^ k \<Longrightarrow> 0 < k \<Longrightarrow> length (nat_str n) \<le> k"
  by (rule length_nat_str_le)

lemma rne_le_Suc: "0 < b \<Longrightarrow> rne a b \<le> a div b + 1"
  by (simp add: rne_def Let_def)

text \<open>A \<^verbatim>\<open>float\<close> is below \<open>2 ^ 128\<close>, so its integer part has at most 39 digits.\<close>

lemma length_fmt_fixed:
  assumes "fp_ok f32 x" and "k \<le> 6"
  shows "length (fmt_fixed k x) \<le> 60"
proof (cases x)
  case FNaN
  then show ?thesis by simp
next
  case (FInf s)
  then show ?thesis by simp
next
  case (FFin s m e)
  define t where "t = rne (scale_den (m * 10 ^ k) e) (scale_num 1 e)"
  have me: "m < 2 ^ 24" "e \<le> 104" using assms(1) by (auto simp: FFin f32_def)
  have m10: "m * 10 ^ k < 2 ^ 24 * 10 ^ k" using me by simp
  have "t \<le> scale_den (m * 10 ^ k) e div scale_num 1 e + 1"
    unfolding t_def by (rule rne_le_Suc) (simp add: scale_num_def)
  also have "\<dots> \<le> 2 ^ 128 * 10 ^ k + 1"
  proof (cases "e < 0")
    case True
    then have "scale_den (m * 10 ^ k) e div scale_num 1 e \<le> m * 10 ^ k"
      by (simp add: scale_den_def scale_num_def)
    also have "\<dots> \<le> 2 ^ 128 * 10 ^ k" using me(1) by simp
    finally show ?thesis by simp
  next
    case False
    then have "(2::nat) ^ nat e \<le> 2 ^ 104" using me(2) by (intro power_increasing) auto
    then have "m * 10 ^ k * 2 ^ nat e \<le> 2 ^ 24 * 10 ^ k * 2 ^ 104"
      using me(1) by (intro mult_le_mono) auto
    then show ?thesis using False by (simp add: scale_den_def scale_num_def mult.commute)
  qed
  finally have t: "t \<le> 2 ^ 128 * 10 ^ k + 1" .
  have "t div 10 ^ k \<le> (2 ^ 128 * 10 ^ k + 1) div 10 ^ k" using t by (rule div_le_mono)
  also have "\<dots> < 2 ^ 128 + 2"
  proof (rule less_mult_imp_div_less)
    have "1 \<le> (10::nat) ^ k" by (rule one_le_power) simp
    then have "1 < 2 * (10::nat) ^ k" by linarith
    then show "2 ^ 128 * 10 ^ k + 1 < (2 ^ 128 + 2) * (10::nat) ^ k" by (simp add: add_mult_distrib)
  qed
  finally have "t div 10 ^ k < 10 ^ 39" by simp
  then have d: "length (nat_str (t div 10 ^ k)) \<le> 39" by (rule length_nat_str_less) simp
  have f: "length (nat_str (t mod 10 ^ k)) \<le> k" if "k \<noteq> 0"
    by (rule length_nat_str_less) (use that in simp_all)
  have "length (fmt_fixed k x) \<le> 1 + 39 + (1 + k)"
    using d f by (auto simp: FFin t_def [symmetric] Let_def pad_zero_def)
  then show ?thesis using assms(2) by simp
qed

lemma length_field_fixed: "fp_ok f32 x \<Longrightarrow> k \<le> 6 \<Longrightarrow> length (field_fixed name k x) \<le> length name + 63"
  using length_fmt_fixed [of x k] by (simp add: field_fixed_def jkey_def quoted_def)

lemma length_field_u16: "length (field_u16 name v) \<le> length name + 8"
proof -
  have "unat v < 10 ^ 5" using unsigned_less [of v, where ?'a = nat] by simp
  then have "length (nat_str (unat v)) \<le> 5" by (rule length_nat_str_less) simp
  then show ?thesis by (simp add: field_u16_def jkey_def quoted_def)
qed

lemma ok_prefix_length: "length ok_prefix = 22"
  by (simp add: ok_prefix_def jkey_def quoted_def)

lemma makeCalResponse_fits:
  "length fs \<le> 1000 \<Longrightarrow> makeCalResponse fs = Some (single_body (ok_prefix @ ''{'' @ fs @ ''}}''))"
  by (simp add: makeCalResponse_def put_def ok_prefix_length MAX_RSP_SIZE_def)

subsection \<open>Reports of the stored calibration\<close>

lemma f32_of_bits_ok: "fp_ok f32 (f32_of_bits w)"
proof -
  have "unat w mod 2 ^ 23 < 2 ^ 23" and "unat w div 2 ^ 23 mod 256 < 256" by simp_all
  then show ?thesis by (auto simp: f32_of_bits_def Let_def f32_def)
qed

lemma getF32_ok: "fp_ok f32 d \<Longrightarrow> fp_ok f32 (value_or_default d (getF32 api ns k w))"
  by (auto simp: getF32_def value_or_default_def f32_of_bits_ok split: nvs_get.splits)

lemma cal_from_flash_storable: "cal_storable (cal_from_flash api w)"
  using cal_defaults_storable by (simp add: cal_from_flash_def cal_storable_def cal_defaults_def getF32_ok)

lemma calibrationRead_storable: "calibrationRead api st = (Inr cal, st') \<Longrightarrow> cal_storable cal"
  by (auto simp: calibrationRead_def Let_def cal_from_flash_storable split: prod.splits if_splits)

lemma calibration_text_fits: "cal_storable cal \<Longrightarrow> length (calibration_text cal) \<le> 400"
  using length_field_fixed [of "stepsPerMl cal" 1 "''steps_per_ml''"]
    length_field_fixed [of "nominalVolumeMl cal" 2 "''nominal_vol''"]
    length_field_fixed [of "speedCoeff cal" 5 "''speed_coeff''"]
    length_field_u16 [of "''min_freq''" "minFreqHz cal"] length_field_u16 [of "''max_freq''" "maxFreqHz cal"]
  by (simp add: calibration_text_def cal_storable_def jkey_def quoted_def)

lemma saved_text_fits: "cal_storable cal \<Longrightarrow> length (saved_text cal) \<le> 400"
  using length_field_fixed [of "stepsPerMl cal" 1 "''stepsPerMl''"]
    length_field_fixed [of "nominalVolumeMl cal" 1 "''nominalVolume''"]
  by (simp add: saved_text_def cal_storable_def)

definition calibration_report :: "CalibrationData \<Rightarrow> CommandResponse" where
  "calibration_report cal = single_body (ok_prefix @ ''{'' @ calibration_text cal @ ''}'')"

lemma handleGetCalibration_eq:
  assumes "calibrationRead api (ap_store s) = (Inr cal, st)"
  shows "handleGetCalibration (calibrationRead api) s = Some (calibration_report cal, s\<lparr>ap_store := st\<rparr>)"
  using calibration_text_fits [OF calibrationRead_storable [OF assms]] assms
  by (simp add: handleGetCalibration_def put_def ok_prefix_length MAX_RSP_SIZE_def calibration_report_def)

text \<open>Reading the calibration is always defined: whatever is in flash, the response is the error
  \<^verbatim>\<open>start_failed\<close> when the namespace cannot be opened, and otherwise the whole report of the
  values read, which fits the body for every bit pattern stored as a \<^verbatim>\<open>float\<close>.\<close>

theorem get_calibration_defined:
  "handleGetCalibration (calibrationRead api) s =
     (case calibrationRead api (ap_store s) of
        (Inl e, st) \<Rightarrow> Some (makeErrorResponse ''start_failed'', s\<lparr>ap_store := st\<rparr>)
      | (Inr cal, st) \<Rightarrow> Some (calibration_report cal, s\<lparr>ap_store := st\<rparr>))
   \<and> (case fst (calibrationRead api (ap_store s)) of
        Inl e \<Rightarrow> True
      | Inr cal \<Rightarrow> r_bodySize (calibration_report cal) = length (r_body (calibration_report cal))
          \<and> length (r_body (calibration_report cal)) < MAX_RSP_SIZE)"
proof (cases "calibrationRead api (ap_store s)")
  case (Pair r st)
  show ?thesis
  proof (cases r)
    case (Inl e)
    then show ?thesis using Pair by (simp add: handleGetCalibration_def fail_def)
  next
    case (Inr cal)
    then have "calibrationRead api (ap_store s) = (Inr cal, st)" using Pair by simp
    then show ?thesis
      using handleGetCalibration_eq calibration_text_fits [OF calibrationRead_storable]
      by (fastforce simp: calibration_report_def single_body_def response_init_def ok_prefix_length MAX_RSP_SIZE_def)
  qed
qed

text \<open>C11.  Saving reports success only when the calibration is in flash: after an accepted save, the
  next read reports exactly the pending calibration with the parameters of the command applied,
  and the cache that the motion handlers use holds the same values.\<close>

theorem saved_calibration_is_reported:
  assumes "nvs_laws api view"
    and "cal_storable (pending_with spm nom (ap_pendingCal s))"
    and "handleSaveCalibration spm nom (calibrationWrite api) s = Some (rsp, s')"
    and "r_kind rsp = ResponseKind.Single"
    and "fst (nvs_open api NS_CAL False (st_flash (ap_store s')))"
  shows "map_option fst (handleGetCalibration (calibrationRead api) s')
      = Some (calibration_report (pending_with spm nom (ap_pendingCal s)))
    \<and> gCalCache (ap_store s') = Some (pending_with spm nom (ap_pendingCal s))"
proof -
  let ?cal = "pending_with spm nom (ap_pendingCal s)"
  obtain r st where w: "calibrationWrite api ?cal (ap_store s) = (r, st)" by fastforce
  have r: "r = Inr ()" and s': "ap_store s' = st"
    using assms(3,4)
    by (auto simp: handleSaveCalibration_def w fail_def makeErrorResponse_def Let_def response_init_def
        split: sum.splits)
  have read: "fst (calibrationRead api st) = Inr ?cal" and cache: "gCalCache st = Some ?cal"
    using calibration_roundtrip [OF assms(1,2), of "ap_store s"] assms(5) by (simp_all add: w r s')
  obtain st2 where "calibrationRead api (ap_store s') = (Inr ?cal, st2)"
    using read s' by (metis prod.collapse)
  then show ?thesis using handleGetCalibration_eq cache s' by fastforce
qed

theorem saved_calibration_is_reported_witness:
  "\<exists>rsp s'. handleSaveCalibration (Some (f32_lit 8000 0)) None (calibrationWrite ref_nvs) (app_init ref_store)
       = Some (rsp, s')
     \<and> map_option fst (handleGetCalibration (calibrationRead ref_nvs) s')
       = Some (calibration_report (cal_defaults\<lparr>stepsPerMl := f32_lit 8000 0\<rparr>))"
proof -
  let ?cal = "cal_defaults\<lparr>stepsPerMl := f32_lit 8000 0\<rparr>"
  have p: "pending_with (Some (f32_lit 8000 0)) None (ap_pendingCal (app_init ref_store)) = ?cal"
    by (simp add: pending_with_def)
  have st: "cal_storable ?cal" using cal_defaults_storable by (simp add: cal_storable_def)
  obtain w where w: "calibrationWrite ref_nvs ?cal ref_store = (Inr (), w)"
    by (simp add: calibrationWrite_def ref_open ref_set_commit setF32_def setU32_def setI32_def)
  let ?rsp = "single_body (ok_prefix @ ''{'' @ saved_text ?cal @ ''}}'')"
  let ?s = "(app_init ref_store)\<lparr>ap_store := w, ap_pendingCal := ?cal\<rparr>"
  have h: "handleSaveCalibration (Some (f32_lit 8000 0)) None (calibrationWrite ref_nvs) (app_init ref_store)
      = Some (?rsp, ?s)"
    unfolding handleSaveCalibration_def p Let_def app_init_simps(1) w
    using makeCalResponse_fits [of "saved_text ?cal"] saved_text_fits [OF st] by simp
  have k: "r_kind ?rsp = ResponseKind.Single" by (simp add: single_body_def response_init_def)
  have o: "fst (nvs_open ref_nvs NS_CAL False (st_flash (ap_store ?s)))" by (simp add: ref_open)
  show ?thesis
    using saved_calibration_is_reported [OF ref_nvs_laws, of "Some (f32_lit 8000 0)" None "app_init ref_store", OF _ h k o]
      st h unfolding p by blast
qed

end
