(* ===== verification/Sensor_Handlers.thy ===== *)
theory Sensor_Handlers
  imports Calibration_Handlers
begin

text \<open>
  The sensor, valve, system and serial commands
  (\<^verbatim>\<open>application/src/handlers/sensors.cpp\<close>, \<^verbatim>\<open>valve.cpp\<close>, \<^verbatim>\<open>system.cpp\<close>,
  \<^verbatim>\<open>serial.cpp\<close>).  The ADC is an argument: the value of each successive sample.
\<close>

declare One_nat_def [simp del]

subsection \<open>Square root\<close>

text \<open>\<^verbatim>\<open>std::sqrt\<close> is correctly rounded: the integer root of a mantissa scaled to an even exponent,
  with a sticky bit for what is left.\<close>

fun isqrt :: "nat \<Rightarrow> nat" where
  "isqrt n = (if n = 0 then 0 else let r = 2 * isqrt (n div 4) in if (r + 1) * (r + 1) \<le> n then r + 1 else r)"

declare isqrt.simps [simp del]

fun f_sqrt :: "fmt \<Rightarrow> fp \<Rightarrow> fp" where
  "f_sqrt F FNaN = FNaN"
| "f_sqrt F (FInf s) = (if s then FNaN else FInf False)"
| "f_sqrt F (FFin s m e) =
     (if m = 0 then FFin s m e
      else if s then FNaN
      else let m' = (if e mod 2 = 0 then m else 2 * m) * 2 ^ 128;
               e' = (if e mod 2 = 0 then e else e - 1) - 128;
               r = isqrt m'
           in fp_round_exp F False (2 * r + (if r * r = m' then 0 else 1)) 1 (e' div 2 - 1))"

subsection \<open>Temperature and StallGuard\<close>

definition TEMP_SENTINEL_CX100 :: int where "TEMP_SENTINEL_CX100 = - 99999"
definition TEMP_DIVISOR :: fp where "TEMP_DIVISOR = f32_lit 1000 1"
definition TMC_REG_SG_RESULT :: u8 where "TMC_REG_SG_RESULT = 0x41"
definition TMC_REG_DRV_STATUS :: u8 where "TMC_REG_DRV_STATUS = 0x6F"

definition cmd_head :: "string \<Rightarrow> string" where
  "cmd_head c = ''{'' @ jkey ''cmd'' @ quoted c @ '',''"

definition handleReadTemperature :: "i32 \<Rightarrow> 'w handler" where
  "handleReadTemperature tempCX100 s =
     (let tempC = (if TEMP_SENTINEL_CX100 < sint tempCX100
                   then f_div f32 (f_of_int f32 (sint tempCX100)) TEMP_DIVISOR else fp_zero f32 False)
      in Some (single_body (cmd_head ''temperature.read'' @ field_fixed ''temperature'' 1 tempC @ ''}''), s))"

definition handleStallGuardGet :: "'w handler" where
  "handleStallGuardGet s =
     (let s1 = (if ap_controller s
                then snd (readTmcRegister TMC_REG_DRV_STATUS (snd (readTmcRegister TMC_REG_SG_RESULT s)))
                else s)
      in Some (single_body (status_text ''accepted''), s1))"

text \<open>The handler sends to the motor queue without testing its handle.\<close>

definition handleStallGuardSetThreshold :: "'w nvs_api \<Rightarrow> u8 option \<Rightarrow> 'w handler" where
  "handleStallGuardSetThreshold api threshold s =
     (case threshold of
        None \<Rightarrow> fail (''stallGuard.setThreshold requires '' @ [CHR 0x27] @ ''threshold'' @ [CHR 0x27] @ '' param'') s
      | Some t \<Rightarrow>
          let s1 = s\<lparr>gStallGuardThreshold := t\<rparr>
          in if ap_motorQueue s1 = None then None
             else let s2 = snd (sendMotorCommand (motor_cmd_init\<lparr>mc_type := MotorCommandType.SetStallThreshold,
                                                    mc_stallThreshold := t\<rparr>) s1);
                      w = snd (stallguardWriteThreshold api t (st_flash (ap_store s2)))
                  in Some (single_body (cmd_head ''stallGuard.setThreshold'' @ jkey ''threshold'' @
                             nat_str (unat t) @ ''}''),
                           s2\<lparr>ap_store := (ap_store s2)\<lparr>st_flash := w\<rparr>\<rparr>))"

subsection \<open>ADC calibration\<close>

definition ADC_CAL_MAX_POINTS :: nat where "ADC_CAL_MAX_POINTS = 5"
definition ADC_CAL_STAB_SAMPLES :: nat where "ADC_CAL_STAB_SAMPLES = 32"
definition ADC_CAL_STAB_TOLERANCE :: nat where "ADC_CAL_STAB_TOLERANCE = 5"
definition ADC_CAL_STAB_MAX_ATTEMPTS :: nat where "ADC_CAL_STAB_MAX_ATTEMPTS = 10"

definition collected_points :: "'w app \<Rightarrow> AdcCalPoint list" where
  "collected_points s = filter pt_collected (take (ap_pointCount s) (ap_points s))"

definition points_text :: "AdcCalPoint list \<Rightarrow> string" where
  "points_text ps = ''['' @ concat (map (\<lambda>i. (if 0 < i then '','' else '''') @
      ''{'' @ field_fixed ''ref_mv'' 1 (pt_ref_mv (ps ! i)) @ '','' @ field_u16 ''raw_mv'' (pt_raw_mv (ps ! i)) @ ''}'')
      [0 ..< length ps]) @ '']''"

definition handleAdcCalGet :: "('w store \<Rightarrow> (u16 \<times> i16) \<times> 'w store) \<Rightarrow> 'w handler" where
  "handleAdcCalGet read s =
     (let ((aX1000, b), st) = read (ap_store s);
          s1 = s\<lparr>ap_store := st\<rparr>;
          aVal = (if 0 < aX1000 then f_div f32 (f_of_int f32 (uint aX1000)) (f32_lit 10000 1) else f32_lit 10 1);
          isDefault = (aX1000 = 1000 \<and> b = 0);
          ps = collected_points s1;
          rawMv = (case ps of [] \<Rightarrow> 0 | p # _ \<Rightarrow> pt_raw_mv p)
      in case (if 0 < rawMv
               then map_option scast (lround_i32 (f_add f32 (f_mul f32 (f_of_int f32 (uint rawMv)) aVal)
                                                    (f_of_int f32 (sint b))))
               else Some 0) of
           None \<Rightarrow> None
         | Some calibratedMv \<Rightarrow>
             Some (single_body (cmd_head ''adc.cal.get'' @ jkey ''status'' @ quoted ''ok'' @ '','' @
                     field_fixed ''a'' 6 aVal @ '','' @ jkey ''b'' @ int_str (sint b) @ '','' @
                     jkey ''r_squared'' @ ''0.0,'' @ jkey ''calibrated_at'' @ ''null,'' @
                     jkey ''is_default'' @ (if isDefault then ''true'' else ''false'') @ '','' @
                     jkey ''points'' @ points_text ps @ '','' @ field_u16 ''raw_mv'' rawMv @ '','' @
                     jkey ''calibrated_mv'' @ int_str (sint (calibratedMv :: i16)) @ ''}''), s1))"

definition handleAdcCalSave ::
  "u16 option \<Rightarrow> i16 option \<Rightarrow> (u16 \<Rightarrow> i16 \<Rightarrow> 'w store \<Rightarrow> unit res \<times> 'w store) \<Rightarrow> 'w handler" where
  "handleAdcCalSave aX1000 b write s =
     (let a = (case aX1000 of Some v \<Rightarrow> v | None \<Rightarrow> ap_pendingAX1000 s);
          bVal = (case b of Some v \<Rightarrow> v | None \<Rightarrow> ap_pendingB s);
          (r, st) = write a bVal (ap_store s);
          s1 = s\<lparr>ap_store := st\<rparr>
      in case r of
           Inl e \<Rightarrow> fail ''failed to save ADC calibration'' s1
         | Inr _ \<Rightarrow>
             Some (single_body (cmd_head ''adc.cal.save'' @ jkey ''status'' @ quoted ''ok'' @ '','' @
                     field_u16 ''aX1000'' a @ '','' @ jkey ''b'' @ int_str (sint bVal) @ ''}''),
                   s1\<lparr>ap_pendingAX1000 := a, ap_pendingB := bVal\<rparr>))"

text \<open>\<open>sample k\<close> is the value of the \<open>k\<close>-th read of the command.\<close>

definition batch :: "(nat \<Rightarrow> u16) \<Rightarrow> nat \<Rightarrow> u16 list" where
  "batch sample attempt = map (\<lambda>i. sample (attempt * ADC_CAL_STAB_SAMPLES + i)) [0 ..< ADC_CAL_STAB_SAMPLES]"

definition min_of :: "u16 list \<Rightarrow> u16" where
  "min_of xs = foldl (\<lambda>m x. if x < m then x else m) (hd xs) (tl xs)"

definition max_of :: "u16 list \<Rightarrow> u16" where
  "max_of xs = foldl (\<lambda>m x. if m < x then x else m) (hd xs) (tl xs)"

definition is_stable :: "u16 list \<Rightarrow> bool" where
  "is_stable xs \<longleftrightarrow> int (unat (max_of xs)) - int (unat (min_of xs)) \<le> int ADC_CAL_STAB_TOLERANCE"

fun stabilize :: "(nat \<Rightarrow> u16) \<Rightarrow> nat \<Rightarrow> nat \<Rightarrow> u16 list option" where
  "stabilize sample attempt 0 = None"
| "stabilize sample attempt (Suc left) =
     (if is_stable (batch sample attempt) then Some (batch sample attempt)
      else stabilize sample (Suc attempt) left)"

definition dash :: string where "dash = [CHR 0xE2, CHR 0x80, CHR 0x94]"

definition handleAdcCalMeasure :: "fp option \<Rightarrow> (nat \<Rightarrow> u16) \<Rightarrow> 'w handler" where
  "handleAdcCalMeasure refMv sample s =
     (case refMv of
        None \<Rightarrow> fail (''adc.cal.measure requires '' @ [CHR 0x27] @ ''ref_mv'' @ [CHR 0x27] @ '' param'') s
      | Some r \<Rightarrow>
          if ap_pointCount s \<ge> ADC_CAL_MAX_POINTS
          then fail (''all points collected '' @ dash @ '' call adc.cal.compute or adc.cal.reset'') s
          else case stabilize sample 0 ADC_CAL_STAB_MAX_ATTEMPTS of
                 None \<Rightarrow> fail (''signal not stable '' @ dash @ '' check probe connection'') s
               | Some samples \<Rightarrow>
                   let median = sort samples ! (ADC_CAL_STAB_SAMPLES div 2); index = ap_pointCount s
                   in Some (single_body (''{'' @ jkey ''status'' @ quoted ''ok'' @ '','' @ jkey ''point'' @
                              nat_str index @ '','' @ field_u16 ''voltage_mV'' median @ ''}''),
                            s\<lparr>ap_points := (ap_points s)[index := \<lparr>pt_ref_mv = r, pt_raw_mv = median,
                                pt_collected = True\<rparr>],
                              ap_pointCount := index + 1\<rparr>))"

definition d_add :: "fp \<Rightarrow> fp \<Rightarrow> fp" where "d_add = f_add f64"
definition d_sub :: "fp \<Rightarrow> fp \<Rightarrow> fp" where "d_sub = f_sub f64"
definition d_mul :: "fp \<Rightarrow> fp \<Rightarrow> fp" where "d_mul = f_mul f64"
definition d_div :: "fp \<Rightarrow> fp \<Rightarrow> fp" where "d_div = f_div f64"

text \<open>The sums of \<open>x\<close>, \<open>y\<close>, \<open>x y\<close>, \<open>x x\<close> and \<open>y y\<close>.\<close>

fun adc_sums :: "(fp \<times> fp) list \<Rightarrow> fp \<times> fp \<times> fp \<times> fp \<times> fp \<Rightarrow> fp \<times> fp \<times> fp \<times> fp \<times> fp" where
  "adc_sums [] acc = acc"
| "adc_sums ((x, y) # ps) (sx, sy, sxy, sx2, sy2) =
     adc_sums ps (d_add sx x, d_add sy y, d_add sxy (d_mul x y), d_add sx2 (d_mul x x), d_add sy2 (d_mul y y))"

definition d_clamp :: "fp \<Rightarrow> fp \<Rightarrow> fp \<Rightarrow> fp" where
  "d_clamp v lo hi = (if f_lt v lo then lo else if f_lt hi v then hi else v)"

definition adc_fit :: "AdcCalPoint list \<Rightarrow> (fp \<times> fp \<times> fp) option" where
  "adc_fit ps =
     (let n = f_of_int f64 5;
          (sumX, sumY, sumXY, sumX2, sumY2) =
            adc_sums (map (\<lambda>p. (f_cvt f64 (pt_ref_mv p), f_of_int f64 (uint (pt_raw_mv p)))) ps)
              (fp_zero f64 False, fp_zero f64 False, fp_zero f64 False, fp_zero f64 False, fp_zero f64 False);
          denom = d_sub (d_mul n sumX2) (d_mul sumX sumX)
      in if f_lt (f_abs denom) (f64_lit 1 12) then None
         else let num = d_sub (d_mul n sumXY) (d_mul sumX sumY);
                  aRaw = d_div num denom;
                  bRaw = d_div (d_sub sumY (d_mul aRaw sumX)) n;
                  denomR = d_mul (d_sub (d_mul n sumX2) (d_mul sumX sumX)) (d_sub (d_mul n sumY2) (d_mul sumY sumY));
                  q = d_div num (f_sqrt f64 denomR);
                  rSquared = (if f_lt (fp_zero f64 False) denomR then d_mul q q else fp_zero f64 False)
              in Some (d_div (f64_lit 10 1) aRaw, d_div (f_neg bRaw) aRaw, rSquared))"

definition handleAdcCalCompute :: "'w handler" where
  "handleAdcCalCompute s =
     (if ap_pointCount s < ADC_CAL_MAX_POINTS then fail (''not enough points '' @ dash @ '' need 5'') s
      else case adc_fit (take ADC_CAL_MAX_POINTS (ap_points s)) of
             None \<Rightarrow> fail ''degenerate calibration points'' s
           | Some (coeffA, coeffB, rSquared) \<Rightarrow>
               (case (f_to_u16 (d_clamp (d_add (d_mul coeffA (f64_lit 10000 1)) (f64_lit 5 1))
                                 (fp_zero f64 False) (f64_lit 655350 1)),
                      f_to_i16 (d_clamp (d_add coeffB (f64_lit 5 1)) (f_of_int f64 (- 32768)) (f_of_int f64 32767))) of
                  (Some aX1000, Some bVal) \<Rightarrow>
                    map_option (\<lambda>b. (single_body b, s\<lparr>ap_pendingAX1000 := aX1000, ap_pendingB := bVal\<rparr>))
                      (put (ok_prefix @ ''{'') (field_fixed ''a'' 6 coeffA @ '','' @ jkey ''b'' @
                         int_str (sint bVal) @ '','' @ field_fixed ''r_squared'' 4 rSquared @ ''}}''))
                | _ \<Rightarrow> None))"

definition handleAdcCalReset :: "(u16 \<Rightarrow> i16 \<Rightarrow> 'w store \<Rightarrow> unit res \<times> 'w store) \<Rightarrow> 'w handler" where
  "handleAdcCalReset write s =
     (let s1 = s\<lparr>ap_points := map (\<lambda>p. p\<lparr>pt_raw_mv := 0, pt_collected := False\<rparr>) (ap_points s),
                 ap_pointCount := 0, ap_pendingAX1000 := 1000, ap_pendingB := 0\<rparr>;
          (r, st) = write 1000 0 (ap_store s1);
          s2 = s1\<lparr>ap_store := st\<rparr>
      in case r of
           Inl e \<Rightarrow> fail ''failed to reset ADC calibration'' s2
         | Inr _ \<Rightarrow> Some (single_body kStatusOk, s2))"

subsection \<open>Valve, system and serial\<close>

definition position_response :: "ValvePosition \<Rightarrow> CommandResponse" where
  "position_response p = single_body (ok_prefix @ ''{'' @ jkey ''position'' @ quoted (position_str p) @ ''}}'')"

definition handleSetPosition :: "ValvePosition option \<Rightarrow> 'w handler" where
  "handleSetPosition pos s =
     (case pos of
        None \<Rightarrow> fail ''invalid_params'' s
      | Some p \<Rightarrow>
          if gBuretteState s \<noteq> BuretteState.Idle then fail ''burette_busy'' s
          else if gValveIsSettling s then fail ''burette_busy'' s
          else let s1 = s\<lparr>gValveIsSettling := True, ap_valve := setPosition p (ap_valve s), gValvePosition := p\<rparr>
               in (case armValveSettleTimer p (ap_valve s1) of
                     None \<Rightarrow> None
                   | Some v \<Rightarrow> Some (position_response p, s1\<lparr>ap_valve := v\<rparr>)))"

definition handleGetState :: "ValvePosition \<Rightarrow> 'w handler" where
  "handleGetState p s = Some (position_response p, s)"

definition handleGetFormattedLogs :: "'w handler" where
  "handleGetFormattedLogs s = Some (single_body (cmd_head ''system.getFormattedLogs'' @ jkey ''logs'' @ ''[]}''), s)"

definition handleReadLog :: "'w handler" where
  "handleReadLog s = Some (single_body (cmd_head ''system.readLog'' @ jkey ''entries'' @ ''[]}''), s)"

definition handleFirmwareVersion :: "string option \<Rightarrow> 'w handler" where
  "handleFirmwareVersion version s =
     (let (b, n) = snprintf MAX_RSP_SIZE (cmd_head ''system.firmwareVersion'' @ jkey ''version'' @
                     quoted (case version of Some v \<Rightarrow> takeWhile (\<lambda>c. c \<noteq> CHR 0x00) v | None \<Rightarrow> ''0.1.0'') @ ''}'')
      in Some ((response_init ResponseKind.Single)\<lparr>r_body := b, r_bodySize := n\<rparr>, s))"

definition handlePing :: "'w handler" where
  "handlePing s = Some (makeSingleResponse kStatusOk, s)"

end
