(* ===== verification/Dispatch.thy ===== *)
theory Dispatch
  imports Sensor_Handlers
begin

text \<open>
  Central dispatch (\<^verbatim>\<open>application/src/dispatch.cpp\<close>): every parsed command goes to its
  handler with the parameters the code passes, and the id of the command is copied into the
  response.  \<open>api\<close> is the flash library and \<open>sample\<close> the registered ADC callback.
\<close>

declare One_nat_def [simp del]

definition stubSampleRead :: "(nat \<Rightarrow> u16) option \<Rightarrow> nat \<Rightarrow> u16" where
  "stubSampleRead cb = (case cb of Some f \<Rightarrow> f | None \<Rightarrow> (\<lambda>_. 0))"

definition withId :: "u64 \<Rightarrow> (CommandResponse \<times> 'w app) outcome \<Rightarrow> ((AppError + CommandResponse) \<times> 'w app) outcome" where
  "withId i r = map_option (\<lambda>(rsp, s). (Inr (rsp\<lparr>r_id := i\<rparr>), s)) r"

text \<open>A parameter converted from \<^verbatim>\<open>float\<close> to \<^verbatim>\<open>uint32_t\<close>, undefined when it does not fit.\<close>

definition u32_param :: "fp option \<Rightarrow> u32 option outcome" where
  "u32_param x = (case x of None \<Rightarrow> Some None | Some v \<Rightarrow> map_option Some (f_to_u32 v))"

definition dispatch_handler :: "'w nvs_api \<Rightarrow> (nat \<Rightarrow> u16) option \<Rightarrow> Command \<Rightarrow> 'w handler" where
  "dispatch_handler api cb cmd s =
     (case c_type cmd of
        CommandType.Fill \<Rightarrow> handleFill s
      | CommandType.Empty \<Rightarrow> handleEmpty s
      | CommandType.DoseVolume \<Rightarrow> handleDoseVolume (c_volume cmd) (c_speedMlMin cmd) s
      | CommandType.Rinse \<Rightarrow> Option.bind (u32_param (c_volume cmd)) (\<lambda>n. handleRinse n s)
      | CommandType.Stop \<Rightarrow> handleStop s
      | CommandType.MoveToStop \<Rightarrow>
          Option.bind (u32_param (c_freqHz cmd)) (\<lambda>f. handleMoveContinuous (c_direction cmd) f s)
      | CommandType.EmergencyStop \<Rightarrow> handleEmergencyStop s
      | CommandType.GetStatus \<Rightarrow> handleGetStatus (gBuretteState s) (gVolumeMl s) s
      | CommandType.MoveSteps \<Rightarrow> handleMoveSteps (c_steps cmd) s
      | CommandType.SetDirection \<Rightarrow> handleSetDirection (c_direction cmd) s
      | CommandType.SetSpeed \<Rightarrow> handleSetSpeed (c_speed cmd) s
      | CommandType.SetAccel \<Rightarrow> handleSetAccel (c_accel cmd) s
      | CommandType.CalGet \<Rightarrow> handleGetCalibration (calibrationRead api) s
      | CommandType.CalCalcVolume \<Rightarrow>
          handleCalcVolume (c_massG cmd) (c_temperature cmd) (c_pressure cmd) (calibrationRead api) s
      | CommandType.CalCalcSpeed \<Rightarrow> handleCalcSpeed (c_measurements cmd) (calibrationRead api) s
      | CommandType.CalSave \<Rightarrow> handleSaveCalibration (c_volume cmd) (c_targetVolume cmd) (calibrationWrite api) s
      | CommandType.CalReset \<Rightarrow> handleResetCalibration (calibrationWrite api) s
      | CommandType.CalRun \<Rightarrow> handleCalRun (c_mode cmd) (c_freqHz cmd) (c_speedMlMin cmd) s
      | CommandType.CalGetResult \<Rightarrow> handleGetCalResult s
      | CommandType.CalRunSpeedSeq \<Rightarrow> handleRunCalibration (c_freqsArray cmd)
          (case c_speedMlMin cmd of Some v \<Rightarrow> v | None \<Rightarrow> f32_lit 200 1) s
      | CommandType.TempRead \<Rightarrow> handleReadTemperature 0 s
      | CommandType.AdcCalGet \<Rightarrow> handleAdcCalGet (adcCalibrationRead api) s
      | CommandType.AdcCalSave \<Rightarrow> handleAdcCalSave None None (adcCalibrationWrite api) s
      | CommandType.AdcCalMeasure \<Rightarrow> handleAdcCalMeasure (c_refMv cmd) (stubSampleRead cb) s
      | CommandType.AdcCalCompute \<Rightarrow> handleAdcCalCompute s
      | CommandType.AdcCalReset \<Rightarrow> handleAdcCalReset (adcCalibrationWrite api) s
      | CommandType.StallGuardGet \<Rightarrow> handleStallGuardGet s
      | CommandType.StallGuardSetThreshold \<Rightarrow> handleStallGuardSetThreshold api (c_sgThreshold cmd) s
      | CommandType.ValveSetPosition \<Rightarrow> handleSetPosition (c_valvePos cmd) s
      | CommandType.ValveGetState \<Rightarrow> handleGetState (gValvePosition s) s
      | CommandType.SystemGetStatus \<Rightarrow> handleGetStatus (gBuretteState s) (gVolumeMl s) s
      | CommandType.SystemGetFormattedLogs \<Rightarrow> handleGetFormattedLogs s
      | CommandType.SystemReadLog \<Rightarrow> handleReadLog s
      | CommandType.SystemFirmwareVersion \<Rightarrow> handleFirmwareVersion None s
      | CommandType.SerialPing \<Rightarrow> handlePing s)"

definition dispatch ::
  "'w nvs_api \<Rightarrow> (nat \<Rightarrow> u16) option \<Rightarrow> Command \<Rightarrow> 'w app \<Rightarrow> ((AppError + CommandResponse) \<times> 'w app) outcome" where
  "dispatch api cb cmd s = withId (c_id cmd) (dispatch_handler api cb cmd s)"

subsection \<open>Kinds of responses\<close>

lemma kind_simps [simp]:
  "r_kind (makeErrorResponse m) = ResponseKind.Error"
  "r_kind makeAckThenResponse = ResponseKind.AckThen"
  "r_kind (makeSingleResponse t) = ResponseKind.Single"
  "r_kind (single_body b) = ResponseKind.Single"
  "r_kind (makeStatusResponse i st v n) = ResponseKind.Single"
  "r_kind (position_response p) = ResponseKind.Single"
  by (simp_all add: makeErrorResponse_def makeAckThenResponse_def makeSingleResponse_def single_body_def
      makeStatusResponse_def position_response_def response_init_def Let_def case_prod_beta)

text \<open>
  The contract of a handler: an acknowledgement queues exactly one motor command and turns an
  idle burette, whose valve is not settling, into a busy one; an error queues nothing.
\<close>

definition contract :: "'w app \<Rightarrow> (CommandResponse \<times> 'w app) outcome \<Rightarrow> bool" where
  "contract s r =
     (case r of
        None \<Rightarrow> True
      | Some (rsp, s') \<Rightarrow>
          (if r_kind rsp = ResponseKind.AckThen
           then gBuretteState s = BuretteState.Idle \<and> \<not> gValveIsSettling s
             \<and> gBuretteState s' \<noteq> BuretteState.Idle
             \<and> (\<exists>c. motor_queue s' = motor_queue s @ [c])
           else if r_kind rsp = ResponseKind.Error then motor_queue s' = motor_queue s
           else True)
          \<and> r_kind rsp \<noteq> ResponseKind.NoResponse)"

lemma contract_fail: "motor_queue s' = motor_queue s \<Longrightarrow> contract s (fail m s')"
  by (simp add: contract_def fail_def)

lemma contract_single: "r_kind r = ResponseKind.Single \<Longrightarrow> contract s (Some (r, s'))"
  by (simp add: contract_def)

lemma contract_map_single:
  "(\<And>b. r_kind (f b) = ResponseKind.Single) \<Longrightarrow> contract s (map_option (\<lambda>b. (f b, g b)) x)"
  by (cases x) (simp_all add: contract_def)

lemma contract_None [simp]: "contract s None"
  by (simp add: contract_def)

text \<open>What a continuation of a claim may rely on and must provide.\<close>

definition claimed :: "'w app \<Rightarrow> 'w app \<Rightarrow> bool" where
  "claimed s s1 \<longleftrightarrow> gBuretteState s = BuretteState.Idle \<and> \<not> gValveIsSettling s
     \<and> gBuretteState s1 \<noteq> BuretteState.Idle \<and> motor_queue s1 = motor_queue s"

lemma motor_queue_upd [simp]:
  "motor_queue (s\<lparr>gBuretteState := x1\<rparr>) = motor_queue s"
  "motor_queue (s\<lparr>gDirection := x2\<rparr>) = motor_queue s"
  "motor_queue (s\<lparr>gSpeed := x3\<rparr>) = motor_queue s"
  "motor_queue (s\<lparr>gAccel := x4\<rparr>) = motor_queue s"
  "motor_queue (s\<lparr>ap_store := x5\<rparr>) = motor_queue s"
  "motor_queue (s\<lparr>gValveIsSettling := x6\<rparr>) = motor_queue s"
  "motor_queue (s\<lparr>gStopFull := x7\<rparr>) = motor_queue s"
  "motor_queue (s\<lparr>ap_valve := x8\<rparr>) = motor_queue s"
  by (simp_all add: motor_queue_def)

lemma contract_claim:
  assumes "\<And>s1. claimed s s1 \<Longrightarrow> contract s (k s1)" and "d \<noteq> BuretteState.Idle"
  shows "contract s (claim d k s)"
  using assms by (auto simp: claim_def claim_burette_def contract_fail claimed_def)

lemma contract_send:
  "claimed s s1 \<Longrightarrow> contract s
     (let (ok, s2) = sendMotorCommand cmd s1
      in if \<not> ok then fail m (s2\<lparr>gBuretteState := BuretteState.Idle\<rparr>) else Some (makeAckThenResponse, s2))"
  using sendMotorCommand_queue [of cmd s1] sendMotorCommand_eq [of cmd s1]
  by (auto simp: contract_def claimed_def fail_def case_prod_beta split: option.splits if_splits)

lemma contract_start_motion: "claimed s s1 \<Longrightarrow> contract s (start_motion cmd s1)"
  unfolding start_motion_def by (rule contract_send)

lemma contract_fail_self: "contract s (fail m s)"
  by (simp add: contract_fail)

lemma claimed_direction: "claimed s s1 \<Longrightarrow> claimed s (s1\<lparr>gDirection := d\<rparr>)"
  by (simp add: claimed_def)

lemma contract_with_cal:
  "claimed s s1 \<Longrightarrow> (\<And>cal. contract s (k cal s1)) \<Longrightarrow> contract s (with_cal k s1)"
  by (auto simp: with_cal_def contract_fail claimed_def split: option.splits)

lemma claimed_fail: "claimed s s1 \<Longrightarrow> contract s (fail m s1)"
  by (simp add: contract_fail claimed_def)

lemmas contract_intros =
  contract_claim contract_with_cal contract_start_motion claimed_direction claimed_fail contract_fail_self contract_None

lemma contract_fill: "contract s (handleFill s)"
  unfolding handleFill_def by (auto simp: Let_def intro!: contract_intros split: option.splits)

lemma contract_empty: "contract s (handleEmpty s)"
  unfolding handleEmpty_def by (auto simp: Let_def intro!: contract_intros split: option.splits)

lemma contract_dose: "contract s (handleDoseVolume v sp s)"
  unfolding handleDoseVolume_def
  by (auto simp: Let_def intro!: contract_intros split: option.splits)

lemma contract_rinse: "contract s (handleRinse n s)"
  unfolding handleRinse_def by (auto intro!: contract_intros split: option.splits)

lemma contract_move: "contract s (handleMoveSteps n s)"
  unfolding handleMoveSteps_def by (auto intro!: contract_intros split: option.splits)

lemma contract_continuous: "contract s (handleMoveContinuous d f s)"
  unfolding handleMoveContinuous_def by (auto intro!: contract_intros split: option.splits)

lemma contract_cal_run: "contract s (handleCalRun m f v s)"
proof -
  have "contract s (let (ok, s1) = claim_burette BuretteState.Dosing s
      in if \<not> ok then fail ''burette_busy'' s1 else start_motion c s1)"
    if "\<not> gValveIsSettling s" for c
    using that by (auto simp: claim_burette_def claimed_def intro!: contract_fail contract_start_motion)
  then show ?thesis
    unfolding handleCalRun_def with_cal_def
    by (auto intro!: contract_fail split: option.splits)
qed

lemmas contract_send' = contract_send [unfolded Let_def]

lemma contract_run_seq: "contract s (handleRunCalibration fs v s)"
  unfolding handleRunCalibration_def Let_def
  by (auto intro!: contract_claim contract_fail_self contract_send' split: option.splits)

lemma contract_send_single:
  assumes "motor_queue s1 = motor_queue s" and "\<And>x. motor_queue (u x) = motor_queue x"
  shows "contract s (case sendMotorCommand cmd s1 of (sent, s2) \<Rightarrow>
     if \<not> sent then fail m (u s2) else Some (makeSingleResponse t, s2))"
  using assms sendMotorCommand_queue [of cmd s1]
  by (cases "sendMotorCommand cmd s1") (auto simp: contract_def fail_def)

lemma contract_stop: "contract s (handleStop s)"
proof (cases "\<not> gValveIsSettling s \<and> gBuretteState s = BuretteState.Idle")
  case True
  show ?thesis
    unfolding handleStop_def Let_def claim_burette_def using True
    by (simp, intro contract_send_single [of _ _ "\<lambda>s. s\<lparr>gBuretteState := BuretteState.Idle\<rparr>", simplified]) simp_all
next
  case False
  then show ?thesis
    by (auto simp: handleStop_def claim_burette_def contract_fail_self)
qed

lemma contract_emergency: "contract s (handleEmergencyStop s)"
  unfolding handleEmergencyStop_def Let_def
  by (rule contract_send_single [of _ _ "\<lambda>s. s"]) (simp_all add: claim_burette_def)

lemma contract_setting:
  "motor_queue s1 = motor_queue s \<Longrightarrow> contract s (send_setting cmd s1)"
  unfolding send_setting_def Let_def by (rule contract_send_single [of _ _ "\<lambda>s. s"]) simp_all

lemma contract_setters:
  "contract s (handleSetDirection d s)" "contract s (handleSetSpeed v s)" "contract s (handleSetAccel v s)"
  by (auto simp: handleSetDirection_def handleSetSpeed_def handleSetAccel_def when_idle_def
      intro!: contract_fail_self contract_setting split: option.splits)

text \<open>The control structures between a handler's entry and its responses.\<close>

lemma contract_if: "(b \<Longrightarrow> contract s x) \<Longrightarrow> (\<not> b \<Longrightarrow> contract s y) \<Longrightarrow> contract s (if b then x else y)"
  by simp

lemma contract_option:
  "contract s x \<Longrightarrow> (\<And>v. contract s (f v)) \<Longrightarrow> contract s (case c of None \<Rightarrow> x | Some v \<Rightarrow> f v)"
  by (simp split: option.split)

lemma contract_sum:
  "(\<And>e. contract s (f e)) \<Longrightarrow> (\<And>v. contract s (g v)) \<Longrightarrow> contract s (case c of Inl e \<Rightarrow> f e | Inr v \<Rightarrow> g v)"
  by (simp split: sum.split)

lemma contract_pair: "(\<And>a b. c = (a, b) \<Longrightarrow> contract s (f a b)) \<Longrightarrow> contract s (case c of (a, b) \<Rightarrow> f a b)"
  by (simp split: prod.split)

lemma contract_Let: "(\<And>v. v = c \<Longrightarrow> contract s (f v)) \<Longrightarrow> contract s (let v = c in f v)"
  by simp

lemma contract_cal_response:
  "contract s (map_option (\<lambda>rsp. (rsp, g rsp)) (makeCalResponse t))"
  by (auto simp: makeCalResponse_def contract_def split: option.splits)

lemmas contract_structure =
  contract_if contract_Let contract_pair contract_option contract_sum contract_fail_self contract_None
  contract_fail contract_single contract_map_single contract_cal_response

lemma contract_calibration:
  "contract s (handleGetCalibration rd s)" "contract s (handleCalcVolume m t p rd s)"
  "contract s (handleCalcSpeed ms rd s)" "contract s (handleSaveCalibration a b wr s)"
  "contract s (handleResetCalibration wr s)" "contract s (handleGetCalResult s)"
  unfolding handleGetCalibration_def handleCalcVolume_def handleCalcSpeed_def handleSaveCalibration_def
    handleResetCalibration_def handleGetCalResult_def
  by (intro contract_structure; simp)+

lemma motor_queue_points [simp]: "motor_queue (s\<lparr>ap_points := x\<rparr>) = motor_queue s"
  "motor_queue (s\<lparr>ap_pointCount := y\<rparr>) = motor_queue s"
  "motor_queue (s\<lparr>ap_pendingAX1000 := z\<rparr>) = motor_queue s"
  "motor_queue (s\<lparr>ap_pendingB := w\<rparr>) = motor_queue s"
  by (simp_all add: motor_queue_def)

lemma contract_adc_get: "contract s (handleAdcCalGet rd s)"
  by (cases "rd (ap_store s)"; cases "fst (rd (ap_store s))")
    (auto simp: handleAdcCalGet_def Let_def intro!: contract_option contract_single)

lemma contract_adc_compute: "contract s (handleAdcCalCompute s)"
  unfolding handleAdcCalCompute_def
  by (auto intro!: contract_structure split: option.split)

lemma contract_sensors:
  "contract s (handleReadTemperature t s)" "contract s (handleAdcCalSave a b wr s)"
  "contract s (handleAdcCalMeasure r sm s)" "contract s (handleAdcCalReset wr' s)"
  "contract s (handleStallGuardGet s)" "contract s (handleStallGuardSetThreshold api th s)"
  unfolding handleReadTemperature_def handleAdcCalSave_def handleAdcCalMeasure_def
      handleAdcCalReset_def handleStallGuardGet_def handleStallGuardSetThreshold_def
  by (intro contract_structure; simp)+

lemma contract_others:
  "contract s (handleSetPosition p s)" "contract s (handleGetState q s)" "contract s (handleGetFormattedLogs s)"
  "contract s (handleReadLog s)" "contract s (handleFirmwareVersion v s)" "contract s (handlePing s)"
  "contract s (handleGetStatus st vol s)"
  by (auto simp: handleSetPosition_def handleGetState_def handleGetFormattedLogs_def handleReadLog_def
      handleFirmwareVersion_def handlePing_def handleGetStatus_def contract_def fail_def Let_def response_init_def
      split: option.splits prod.splits)

lemma contract_bind: "(\<And>x. contract s (f x)) \<Longrightarrow> contract s (Option.bind x f)"
  by (cases x) simp_all

lemma contract_dispatch: "contract s (dispatch_handler api cb cmd s)"
  by (cases "c_type cmd")
    (simp_all add: dispatch_handler_def contract_bind contract_fill contract_empty contract_dose contract_rinse
      contract_stop contract_continuous contract_emergency contract_move contract_setters contract_calibration
      contract_cal_run contract_run_seq contract_sensors contract_adc_get
      contract_adc_compute contract_others)


subsection \<open>A busy burette refuses every motion\<close>

definition motion_commands :: "CommandType set" where
  "motion_commands =
     {CommandType.Fill, CommandType.Empty, CommandType.DoseVolume, CommandType.Rinse, CommandType.Stop,
      CommandType.MoveToStop, CommandType.MoveSteps, CommandType.SetDirection, CommandType.SetSpeed,
      CommandType.SetAccel, CommandType.CalRun, CommandType.CalRunSpeedSeq, CommandType.ValveSetPosition}"

definition busy :: "'w app \<Rightarrow> bool" where
  "busy s \<longleftrightarrow> gBuretteState s \<noteq> BuretteState.Idle \<or> gValveIsSettling s"

text \<open>The float parameters that a command converts to an integer are in the integer's range.\<close>

definition convertible :: "Command \<Rightarrow> bool" where
  "convertible cmd \<longleftrightarrow>
     (c_type cmd = CommandType.Rinse \<longrightarrow> u32_param (c_volume cmd) \<noteq> None)
     \<and> (c_type cmd = CommandType.MoveToStop \<longrightarrow> u32_param (c_freqHz cmd) \<noteq> None)
     \<and> (c_type cmd = CommandType.CalRun \<longrightarrow> freq_of (c_freqHz cmd) \<noteq> None)"

definition refused :: "'w app \<Rightarrow> (CommandResponse \<times> 'w app) outcome \<Rightarrow> bool" where
  "refused s r = (case r of None \<Rightarrow> False | Some (rsp, s') \<Rightarrow> r_kind rsp = ResponseKind.Error \<and> s' = s)"

lemma refused_fail [simp]: "refused s (fail m s)"
  by (simp add: refused_def fail_def)

lemma refused_claim: "busy s \<Longrightarrow> refused s (claim d k s)"
  by (auto simp: claim_def claim_burette_def busy_def)

lemma refused_when_idle: "busy s \<Longrightarrow> refused s (when_idle k s)"
  by (auto simp: when_idle_def busy_def)

lemma planCalRun_busy: "planCalRun mode v f mx co True = Some p \<Longrightarrow> crp_action p = CalRunAction.Reject"
  by (auto simp: planCalRun_def crp_reject_def split: if_splits)

lemma planCalRun_defined: "planCalRun mode speed freq (f_of_int f32 (uint (maxF :: u16))) coeff b \<noteq> None"
  using half_max_defined [of maxF] by (auto simp: planCalRun_def crp_reject_def Let_def)

lemma refused_cal_run: "busy s \<Longrightarrow> freq_of f \<noteq> None \<Longrightarrow> refused s (handleCalRun m f v s)"
  by (auto simp: handleCalRun_def with_cal_def busy_def planCalRun_defined dest: planCalRun_busy split: option.splits)

lemma refused_bind: "(\<And>x. refused s (f x)) \<Longrightarrow> x \<noteq> None \<Longrightarrow> refused s (Option.bind x f)"
  by (cases x) simp_all

lemma refused_dispatch:
  assumes "busy s" and "c_type cmd \<in> motion_commands" and "convertible cmd"
  shows "refused s (dispatch_handler api cb cmd s)"
proof -
  note c = refused_claim [OF assms(1)] refused_when_idle [OF assms(1)] refused_cal_run [OF assms(1)]
  have "refused s (handleFill s)" "refused s (handleEmpty s)" "refused s (handleDoseVolume v sp s)"
      "refused s (handleRinse n s)" "refused s (handleStop s)" "refused s (handleMoveContinuous d f s)"
      "refused s (handleMoveSteps k s)" "refused s (handleRunCalibration fs sv s)"
      "refused s (handleSetDirection d s)" "refused s (handleSetSpeed u s)" "refused s (handleSetAccel u s)"
      "refused s (handleSetPosition p s)" for v sp n d f k fs sv u p
    using assms(1)
    by (auto simp: handleFill_def handleEmpty_def handleDoseVolume_def handleRinse_def handleStop_def
        handleMoveContinuous_def handleMoveSteps_def handleRunCalibration_def handleSetDirection_def
        handleSetSpeed_def handleSetAccel_def handleSetPosition_def busy_def claim_burette_def c
        split: option.splits)
  then show ?thesis
    using assms(2,3) c(3) unfolding motion_commands_def convertible_def
    by (elim insertE) (simp_all add: dispatch_handler_def refused_bind)
qed

lemma refused_withId:
  "refused s r \<Longrightarrow> \<exists>rsp. withId i r = Some (Inr rsp, s) \<and> r_kind rsp = ResponseKind.Error \<and> r_id rsp = i"
  by (cases r) (auto simp: withId_def refused_def)

text \<open>C9.  While the burette is not idle or the valve is settling, every command that would move,
  stop or configure the motor or the valve is answered by an error that carries its id, and
  changes nothing at all; only the emergency stop, the queries and the sensor commands get
  through.  Integers that are given as floats must be in range.\<close>

theorem busy_burette_refuses_motion:
  assumes "gBuretteState s \<noteq> BuretteState.Idle \<or> gValveIsSettling s"
    and "c_type cmd \<in> motion_commands" and "convertible cmd"
  shows "\<exists>rsp. dispatch api cb cmd s = Some (Inr rsp, s) \<and> r_kind rsp = ResponseKind.Error \<and> r_id rsp = c_id cmd"
  unfolding dispatch_def using assms by (intro refused_withId refused_dispatch) (simp_all add: busy_def)

theorem busy_burette_refuses_motion_witness:
  "let s = (app_init ref_store)\<lparr>gBuretteState := BuretteState.Dosing\<rparr>
   in \<exists>rsp. dispatch ref_nvs None (command_init CommandType.Stop) s = Some (Inr rsp, s)
        \<and> r_kind rsp = ResponseKind.Error \<and> r_id rsp = 0"
  using busy_burette_refuses_motion [of "(app_init ref_store)\<lparr>gBuretteState := BuretteState.Dosing\<rparr>"
      "command_init CommandType.Stop" ref_nvs None]
  by (simp add: command_init_def motion_commands_def convertible_def Let_def)

subsection \<open>A start that fails for want of a calibration\<close>

text \<open>C12.  Without a cached calibration, a fill or an empty is answered by the error
  \<^verbatim>\<open>start_failed\<close> but leaves the burette claimed: from then on every motion command, stop
  included, is refused without effect.\<close>

theorem failed_start_locks_burette:
  assumes "gBuretteState s = BuretteState.Idle" and "\<not> gValveIsSettling s" and "gCalCache (ap_store s) = None"
    and "(c_type cmd, st) \<in> {(CommandType.Fill, BuretteState.Filling), (CommandType.Empty, BuretteState.Emptying)}"
    and "c_type later \<in> motion_commands" and "convertible later"
  shows "dispatch api cb cmd s
      = Some (Inr ((makeErrorResponse ''start_failed'')\<lparr>r_id := c_id cmd\<rparr>), s\<lparr>gBuretteState := st\<rparr>)
    \<and> (\<exists>rsp. dispatch api cb later (s\<lparr>gBuretteState := st\<rparr>) = Some (Inr rsp, s\<lparr>gBuretteState := st\<rparr>)
         \<and> r_kind rsp = ResponseKind.Error)"
proof -
  have "st \<noteq> BuretteState.Idle" using assms(4) by auto
  then have "refused (s\<lparr>gBuretteState := st\<rparr>) (dispatch_handler api cb later (s\<lparr>gBuretteState := st\<rparr>))"
    using assms(5,6) by (intro refused_dispatch) (simp_all add: busy_def)
  then show ?thesis
    using assms refused_withId [of "s\<lparr>gBuretteState := st\<rparr>" _ "c_id later"]
    by (fastforce simp: dispatch_def withId_def dispatch_handler_def handleFill_def handleEmpty_def claim_def
        claim_burette_def with_cal_def fail_def)
qed

theorem failed_start_locks_burette_witness:
  "\<exists>rsp s'. dispatch ref_nvs None (command_init CommandType.Fill) (app_init ref_store) = Some (Inr rsp, s')
     \<and> r_kind rsp = ResponseKind.Error \<and> gBuretteState s' = BuretteState.Filling"
  using failed_start_locks_burette [of "app_init ref_store" "command_init CommandType.Fill" BuretteState.Filling
      "command_init CommandType.Stop" ref_nvs None]
  by (simp add: ref_store_def command_init_def motion_commands_def convertible_def)

end
