(* ===== verification/Ownership.thy ===== *)
theory Ownership
  imports Domain_Types
begin

text \<open>
  The lifetimes of the handles the program owns: the wrappers of the pulse peripheral
  (\<^verbatim>\<open>RmtChannel\<close> and \<^verbatim>\<open>RmtEncoder\<close> of \<^verbatim>\<open>infrastructure/src/drivers/stepper.cpp\<close>), of a settings
  namespace (\<^verbatim>\<open>NvsHandle\<close> of \<^verbatim>\<open>infrastructure/src/storage/nvs.cpp\<close>) and of an external-memory block
  (\<^verbatim>\<open>infrastructure/memory/psram_buffer.hpp\<close>), with their destructors and moves, and the status
  light, which owns a channel and an encoder (\<^verbatim>\<open>infrastructure/src/drivers/rgb_led.cpp\<close>).

  \<open>live\<close> is a ledger of the library's calls: the handles it has returned and that were not deleted
  since, and whether each is enabled.  Which handle a call returns, or that it fails, is the parameter
  \<open>alloc\<close>, a function of the handles that exist.  The library's documentation forbids using a handle
  that does not exist and deleting a channel that is enabled; such a call is a \<open>misuse\<close>, and so is the
  abort of a failed allocation of external memory.
\<close>

declare One_nat_def [simp del]

subsection \<open>The library\<close>

type_synonym live = "nat \<Rightarrow> bool option"

datatype misuse = Dead_Handle | Enabled_Deleted | Aborted

type_synonym alloc = "nat set \<Rightarrow> nat option"

text \<open>A new handle is none of those that exist.\<close>

definition fresh_handles :: "alloc \<Rightarrow> bool" where
  "fresh_handles alloc \<longleftrightarrow> (\<forall>L h. alloc L = Some h \<longrightarrow> h \<notin> L)"

definition lib_new :: "alloc \<Rightarrow> live \<Rightarrow> nat option \<times> live" where
  "lib_new alloc L = (case alloc (dom L) of None \<Rightarrow> (None, L) | Some h \<Rightarrow> (Some h, L(h \<mapsto> False)))"

definition lib_enable :: "bool \<Rightarrow> nat \<Rightarrow> live \<Rightarrow> misuse + live" where
  "lib_enable ok h L =
     (if L h = None then Inl Dead_Handle else if ok then Inr (L(h \<mapsto> True)) else Inr L)"

definition lib_disable :: "nat \<Rightarrow> live \<Rightarrow> misuse + live" where
  "lib_disable h L = (if L h = None then Inl Dead_Handle else Inr (L(h \<mapsto> False)))"

definition lib_delete :: "nat \<Rightarrow> live \<Rightarrow> misuse + live" where
  "lib_delete h L =
     (case L h of None \<Rightarrow> Inl Dead_Handle | Some True \<Rightarrow> Inl Enabled_Deleted | Some False \<Rightarrow> Inr (L(h := None)))"

fun and_then :: "'e + 'a \<Rightarrow> ('a \<Rightarrow> 'e + 'b) \<Rightarrow> 'e + 'b" where
  "and_then (Inl e) f = Inl e"
| "and_then (Inr a) f = f a"

subsection \<open>The wrappers\<close>

text \<open>The member functions of an owning class: the constructor (with the outcome of a second call
  it makes), the destructor, the move constructor (the new object and the one moved from) and the
  move assignment between two different objects.\<close>

record 'o raii =
  construct :: "alloc \<Rightarrow> bool \<Rightarrow> live \<Rightarrow> misuse + 'o \<times> live"
  destroy :: "'o \<Rightarrow> live \<Rightarrow> misuse + live"
  move_new :: "'o \<Rightarrow> 'o \<times> 'o"
  move_assign :: "'o \<Rightarrow> 'o \<Rightarrow> live \<Rightarrow> misuse + 'o \<times> 'o \<times> live"

definition RmtChannel_destroy :: "nat option \<Rightarrow> live \<Rightarrow> misuse + live" where
  "RmtChannel_destroy x L =
     (case x of None \<Rightarrow> Inr L | Some h \<Rightarrow> and_then (lib_disable h L) (lib_delete h))"

definition RmtChannel :: "nat option raii" where
  "RmtChannel =
     \<lparr>construct = (\<lambda>alloc ok L.
        case lib_new alloc L of
          (None, L1) \<Rightarrow> Inr (None, L1)
        | (Some h, L1) \<Rightarrow>
            and_then (lib_enable ok h L1) (\<lambda>L2.
              if ok then Inr (Some h, L2) else and_then (lib_delete h L2) (\<lambda>L3. Inr (None, L3)))),
      destroy = RmtChannel_destroy,
      move_new = (\<lambda>other. (other, None)),
      move_assign = (\<lambda>x other L. and_then (RmtChannel_destroy x L) (\<lambda>L1. Inr (other, None, L1)))\<rparr>"

definition RmtEncoder_destroy :: "nat option \<Rightarrow> live \<Rightarrow> misuse + live" where
  "RmtEncoder_destroy x L = (case x of None \<Rightarrow> Inr L | Some h \<Rightarrow> lib_delete h L)"

definition RmtEncoder :: "nat option raii" where
  "RmtEncoder =
     \<lparr>construct = (\<lambda>alloc ok L. Inr (lib_new alloc L)),
      destroy = RmtEncoder_destroy,
      move_new = (\<lambda>other. (other, None)),
      move_assign = (\<lambda>x other L. and_then (RmtEncoder_destroy x L) (\<lambda>L1. Inr (other, None, L1)))\<rparr>"

definition PsramBuffer_destroy :: "nat option \<Rightarrow> live \<Rightarrow> misuse + live" where
  "PsramBuffer_destroy x L = (case x of None \<Rightarrow> Inr L | Some h \<Rightarrow> lib_delete h L)"

definition PsramBuffer :: "nat option raii" where
  "PsramBuffer =
     \<lparr>construct = (\<lambda>alloc ok L. case lib_new alloc L of (None, _) \<Rightarrow> Inl Aborted | (Some h, L1) \<Rightarrow> Inr (Some h, L1)),
      destroy = PsramBuffer_destroy,
      move_new = (\<lambda>other. (other, None)),
      move_assign = (\<lambda>x other L. and_then (PsramBuffer_destroy x L) (\<lambda>L1. Inr (other, None, L1)))\<rparr>"

text \<open>A namespace's handle is a number, valid only while the flag is set.\<close>

record NvsHandle_obj =
  nh_handle :: nat
  nh_open :: bool

definition NvsHandle_destroy :: "NvsHandle_obj \<Rightarrow> live \<Rightarrow> misuse + live" where
  "NvsHandle_destroy x L = (if nh_open x then lib_delete (nh_handle x) L else Inr L)"

definition nvs_moved :: NvsHandle_obj where
  "nvs_moved = \<lparr>nh_handle = 0, nh_open = False\<rparr>"

definition NvsHandle :: "NvsHandle_obj raii" where
  "NvsHandle =
     \<lparr>construct = (\<lambda>alloc ok L. case lib_new alloc L of
          (None, L1) \<Rightarrow> Inr (\<lparr>nh_handle = 0, nh_open = False\<rparr>, L1)
        | (Some h, L1) \<Rightarrow> Inr (\<lparr>nh_handle = h, nh_open = True\<rparr>, L1)),
      destroy = NvsHandle_destroy,
      move_new = (\<lambda>other. (other, nvs_moved)),
      move_assign = (\<lambda>x other L. and_then (NvsHandle_destroy x L) (\<lambda>L1. Inr (other, nvs_moved, L1)))\<rparr>"

subsection \<open>Objects in scope\<close>

text \<open>What a program does with objects of one class.  An operation on a name that is not in scope, or a
  construction of one that is, cannot be written; it does nothing here.  An assignment of an object to
  itself is the test \<^verbatim>\<open>this != &other\<close>.\<close>

datatype life_op = Construct nat bool | Destroy nat | Move_New nat nat | Move_Assign nat nat

record 'o scope =
  sc_objs :: "nat \<Rightarrow> 'o option"
  sc_live :: live

fun life_step :: "'o raii \<Rightarrow> alloc \<Rightarrow> life_op \<Rightarrow> 'o scope \<Rightarrow> misuse + 'o scope" where
  "life_step C alloc (Construct x ok) s =
     (if sc_objs s x \<noteq> None then Inr s
      else and_then (construct C alloc ok (sc_live s)) (\<lambda>(ob, L).
             Inr (s\<lparr>sc_objs := (sc_objs s)(x \<mapsto> ob), sc_live := L\<rparr>)))"
| "life_step C alloc (Destroy x) s =
     (case sc_objs s x of
        None \<Rightarrow> Inr s
      | Some ob \<Rightarrow> and_then (destroy C ob (sc_live s)) (\<lambda>L.
                    Inr (s\<lparr>sc_objs := (sc_objs s)(x := None), sc_live := L\<rparr>)))"
| "life_step C alloc (Move_New x y) s =
     (case (sc_objs s x, sc_objs s y) of
        (None, Some other) \<Rightarrow>
          let (ob, other') = move_new C other in Inr (s\<lparr>sc_objs := (sc_objs s)(x \<mapsto> ob, y \<mapsto> other')\<rparr>)
      | _ \<Rightarrow> Inr s)"
| "life_step C alloc (Move_Assign x y) s =
     (case (sc_objs s x, sc_objs s y) of
        (Some ob, Some other) \<Rightarrow>
          if x = y then Inr s
          else and_then (move_assign C ob other (sc_live s)) (\<lambda>(ob', other', L).
                 Inr (s\<lparr>sc_objs := (sc_objs s)(x \<mapsto> ob', y \<mapsto> other'), sc_live := L\<rparr>))
      | _ \<Rightarrow> Inr s)"

fun lifetimes :: "'o raii \<Rightarrow> alloc \<Rightarrow> life_op list \<Rightarrow> 'o scope \<Rightarrow> misuse + 'o scope" where
  "lifetimes C alloc [] s = Inr s"
| "lifetimes C alloc (op # ops) s = and_then (life_step C alloc op s) (lifetimes C alloc ops)"

definition nothing_owned :: "'o scope" where
  "nothing_owned = \<lparr>sc_objs = (\<lambda>_. None), sc_live = (\<lambda>_. None)\<rparr>"

text \<open>The handle each object in scope holds; and: every handle that exists is held by exactly one
  object, no object holds one that does not exist, and all are in the state \<open>on\<close>.\<close>

definition holds :: "('o \<Rightarrow> nat option) \<Rightarrow> 'o scope \<Rightarrow> nat \<Rightarrow> nat option" where
  "holds held s x = Option.bind (sc_objs s x) held"

definition owned_once :: "('o \<Rightarrow> nat option) \<Rightarrow> bool \<Rightarrow> 'o scope \<Rightarrow> bool" where
  "owned_once held on s \<longleftrightarrow>
     sc_live s = (\<lambda>h. if h \<in> ran (holds held s) then Some on else None) \<and> inj_on (holds held s) (dom (holds held s))"

definition nvs_held :: "NvsHandle_obj \<Rightarrow> nat option" where
  "nvs_held x = (if nh_open x then Some (nh_handle x) else None)"

subsection \<open>Partial injections\<close>

lemma in_ran: "h \<in> ran f \<longleftrightarrow> (\<exists>x. f x = Some h)"
  by (auto simp: ran_def)

lemma injective_iff: "inj_on f (dom f) \<longleftrightarrow> (\<forall>x y h. f x = Some h \<longrightarrow> f y = Some h \<longrightarrow> x = y)"
  by (auto simp: inj_on_def dom_def)

lemma injective_drop:
  assumes "inj_on f (dom f)"
  shows "inj_on (f(x := None)) (dom (f(x := None)))"
    and "ran (f(x := None)) = ran f - (case f x of None \<Rightarrow> {} | Some h \<Rightarrow> {h})"
proof -
  show "inj_on (f(x := None)) (dom (f(x := None)))"
    using assms unfolding injective_iff by simp
  have "h \<in> ran (f(x := None)) \<longleftrightarrow> h \<in> ran f \<and> f x \<noteq> Some h" for h
  proof
    assume "h \<in> ran (f(x := None))"
    then obtain z where "z \<noteq> x" "f z = Some h" by (auto simp: in_ran split: if_splits)
    then show "h \<in> ran f \<and> f x \<noteq> Some h" using assms unfolding injective_iff in_ran by blast
  next
    assume h: "h \<in> ran f \<and> f x \<noteq> Some h"
    then obtain z where z: "f z = Some h" by (auto simp: in_ran)
    then have "z \<noteq> x" using h by auto
    with z have "(f(x := None)) z = Some h" by simp
    then show "h \<in> ran (f(x := None))" by (rule ranI)
  qed
  note mem = this
  have "h \<notin> (case f x of None \<Rightarrow> {} | Some h \<Rightarrow> {h}) \<longleftrightarrow> f x \<noteq> Some h" for h
    by (cases "f x") auto
  then show "ran (f(x := None)) = ran f - (case f x of None \<Rightarrow> {} | Some h \<Rightarrow> {h})"
    unfolding set_eq_iff Diff_iff mem by blast
qed

lemma injective_add:
  assumes "inj_on f (dom f)" "f x = None" "h \<notin> ran f"
  shows "inj_on (f(x \<mapsto> h)) (dom (f(x \<mapsto> h)))" and "ran (f(x \<mapsto> h)) = insert h (ran f)"
proof -
  show "inj_on (f(x \<mapsto> h)) (dom (f(x \<mapsto> h)))"
    using assms unfolding injective_iff in_ran by (metis fun_upd_apply option.inject)
  show "ran (f(x \<mapsto> h)) = insert h (ran f)" using assms(2) by (rule ran_map_upd)
qed

lemma injective_move:
  assumes "inj_on f (dom f)" "f x = None" "x \<noteq> y"
  shows "inj_on (f(x := f y, y := None)) (dom (f(x := f y, y := None)))" and "ran (f(x := f y, y := None)) = ran f"
proof -
  show "inj_on (f(x := f y, y := None)) (dom (f(x := f y, y := None)))"
    using assms unfolding injective_iff by (metis fun_upd_apply option.distinct(1))
  have "h \<in> ran (f(x := f y, y := None)) \<longleftrightarrow> h \<in> ran f" for h
    using assms unfolding in_ran by (metis fun_upd_apply option.distinct(1))
  then show "ran (f(x := f y, y := None)) = ran f" by blast
qed

lemma holds_nothing: "sc_objs s = (\<lambda>_. None) \<Longrightarrow> holds held s = (\<lambda>_. None)"
  by (simp add: holds_def fun_eq_iff)

lemma nothing_owned_sound: "owned_once held on nothing_owned"
  by (simp add: owned_once_def holds_nothing nothing_owned_def)

text \<open>When every object has gone out of scope, no handle is left.\<close>

lemma owned_once_empty: "owned_once held on s \<Longrightarrow> sc_objs s = (\<lambda>_. None) \<Longrightarrow> sc_live s = (\<lambda>_. None)"
  by (simp add: owned_once_def holds_nothing)

subsection \<open>The contract of an owning class\<close>

text \<open>\<open>on\<close> says whether a held handle is enabled.  The laws are about one object, or two; that any
  program keeps the handles owned once is proved here for every class.\<close>

locale owning_class =
  fixes C :: "'o raii" and held :: "'o \<Rightarrow> nat option" and on :: bool
  assumes construct_law: "fresh_handles alloc \<Longrightarrow>
      construct C alloc ok L = Inl Aborted
      \<or> (\<exists>ob. construct C alloc ok L = Inr (ob, L) \<and> held ob = None)
      \<or> (\<exists>ob h. construct C alloc ok L = Inr (ob, L(h \<mapsto> on)) \<and> held ob = Some h \<and> L h = None)"
    and destroy_none: "held ob = None \<Longrightarrow> destroy C ob L = Inr L"
    and destroy_some: "held ob = Some h \<Longrightarrow> L h = Some on \<Longrightarrow> destroy C ob L = Inr (L(h := None))"
    and move_new_law: "held (fst (move_new C ob)) = held ob" "held (snd (move_new C ob)) = None"
    and move_assign_law: "destroy C ob L = Inr L' \<Longrightarrow>
      \<exists>ob' other'. move_assign C ob other L = Inr (ob', other', L') \<and> held ob' = held other \<and> held other' = None"
begin

lemma drop_sound:
  assumes s: "owned_once held on s" and x: "sc_objs s x = Some ob"
  shows "\<exists>L. destroy C ob (sc_live s) = Inr L \<and> owned_once held on (s\<lparr>sc_objs := (sc_objs s)(x := None), sc_live := L\<rparr>)"
proof -
  let ?f = "holds held s"
  have f: "?f x = held ob" by (simp add: holds_def x)
  have inj: "inj_on ?f (dom ?f)" and live: "sc_live s = (\<lambda>h. if h \<in> ran ?f then Some on else None)"
    using s by (simp_all add: owned_once_def)
  have g: "holds held (s\<lparr>sc_objs := (sc_objs s)(x := None), sc_live := L\<rparr>) = ?f(x := None)" for L
    by (simp add: holds_def fun_eq_iff)
  note i = injective_drop [OF inj, of x]
  show ?thesis
  proof (cases "held ob")
    case None
    then show ?thesis
      using i f live by (intro exI [of _ "sc_live s"]) (simp add: destroy_none owned_once_def g)
  next
    case (Some h)
    then have "sc_live s h = Some on" using f by (auto simp: live ran_def)
    moreover have "(sc_live s)(h := None) = (\<lambda>h'. if h' \<in> ran ?f - {h} then Some on else None)"
      by (auto simp: live)
    ultimately show ?thesis
      using i f Some
      by (intro exI [of _ "(sc_live s)(h := None)"]) (simp add: destroy_some owned_once_def g)
  qed
qed

lemma step_sound:
  assumes alloc: "fresh_handles alloc" and s: "owned_once held on s"
  shows "life_step C alloc op s = Inl Aborted \<or> (\<exists>s'. life_step C alloc op s = Inr s' \<and> owned_once held on s')"
proof -
  let ?f = "holds held s"
  have inj: "inj_on ?f (dom ?f)" and live: "sc_live s = (\<lambda>h. if h \<in> ran ?f then Some on else None)"
    using s by (simp_all add: owned_once_def)
  show ?thesis
  proof (cases op)
    case (Construct x ok)
    show ?thesis
    proof (cases "sc_objs s x")
      case None
      then have fx: "?f x = None" by (simp add: holds_def)
      have g: "holds held (s\<lparr>sc_objs := (sc_objs s)(x \<mapsto> ob), sc_live := L\<rparr>) = ?f(x := held ob)" for ob L
        by (simp add: holds_def fun_eq_iff)
      from construct_law [OF alloc, of ok "sc_live s"] show ?thesis
      proof (elim disjE exE conjE)
        fix ob assume "construct C alloc ok (sc_live s) = Inr (ob, sc_live s)" "held ob = None"
        moreover have "?f(x := None) = ?f" using fx by auto
        ultimately show ?thesis using s by (simp add: Construct None owned_once_def g)
      next
        fix ob h assume c: "construct C alloc ok (sc_live s) = Inr (ob, (sc_live s)(h \<mapsto> on))" "held ob = Some h"
          and "sc_live s h = None"
        then have "h \<notin> ran ?f" by (simp add: live split: if_splits)
        moreover have "(sc_live s)(h \<mapsto> on) = (\<lambda>h'. if h' \<in> insert h (ran ?f) then Some on else None)"
          by (auto simp: live)
        ultimately show ?thesis
          using injective_add [OF inj fx, of h] c by (simp add: Construct None owned_once_def g)
      qed (simp add: Construct None)
    qed (simp add: Construct s)
  next
    case (Destroy x)
    then show ?thesis using drop_sound [OF s, of x] s by (cases "sc_objs s x") auto
  next
    case (Move_New x y)
    have "owned_once held on (s\<lparr>sc_objs := (sc_objs s)(x \<mapsto> fst (move_new C other), y \<mapsto> snd (move_new C other))\<rparr>)"
      if "sc_objs s x = None" "sc_objs s y = Some other" for other
    proof -
      have fx: "?f x = None" and ne: "x \<noteq> y" and "?f y = held other" using that by (auto simp: holds_def)
      then have "holds held (s\<lparr>sc_objs := (sc_objs s)(x \<mapsto> fst (move_new C other), y \<mapsto> snd (move_new C other))\<rparr>)
          = ?f(x := ?f y, y := None)"
        by (auto simp: holds_def fun_eq_iff move_new_law)
      then show ?thesis using injective_move [OF inj fx ne] live by (simp add: owned_once_def)
    qed
    then show ?thesis using s by (auto simp: Move_New case_prod_beta split: option.split)
  next
    case (Move_Assign x y)
    have both: "\<exists>ob' other' L. move_assign C ob other (sc_live s) = Inr (ob', other', L)
        \<and> owned_once held on (s\<lparr>sc_objs := (sc_objs s)(x \<mapsto> ob', y \<mapsto> other'), sc_live := L\<rparr>)"
      if x: "sc_objs s x = Some ob" and y: "sc_objs s y = Some other" and ne: "x \<noteq> y" for ob other
    proof -
      obtain L where d: "destroy C ob (sc_live s) = Inr L"
        and s1: "owned_once held on (s\<lparr>sc_objs := (sc_objs s)(x := None), sc_live := L\<rparr>)"
        using drop_sound [OF s x] by blast
      obtain ob' other' where m: "move_assign C ob other (sc_live s) = Inr (ob', other', L)"
        "held ob' = held other" "held other' = None"
        using move_assign_law [OF d] by blast
      let ?s1 = "s\<lparr>sc_objs := (sc_objs s)(x := None), sc_live := L\<rparr>" and ?g = "?f(x := None)"
      have g: "holds held ?s1 = ?g" by (simp add: holds_def fun_eq_iff)
      have "holds held (s\<lparr>sc_objs := (sc_objs s)(x \<mapsto> ob', y \<mapsto> other'), sc_live := L\<rparr>) = ?g(x := ?g y, y := None)"
        using m ne y by (auto simp: holds_def fun_eq_iff)
      then have "owned_once held on (s\<lparr>sc_objs := (sc_objs s)(x \<mapsto> ob', y \<mapsto> other'), sc_live := L\<rparr>)"
        using injective_move [of ?g x y] ne s1 by (simp add: owned_once_def g)
      then show ?thesis using m by blast
    qed
    show ?thesis
    proof (cases "sc_objs s x = None \<or> sc_objs s y = None \<or> x = y")
      case True
      then show ?thesis using s by (auto simp: Move_Assign split: option.split)
    next
      case False
      then obtain ob other where o: "sc_objs s x = Some ob" "sc_objs s y = Some other" "x \<noteq> y" by auto
      from both [OF o] o show ?thesis by (auto simp: Move_Assign)
    qed
  qed
qed

lemma lifetimes_sound:
  assumes "fresh_handles alloc" "owned_once held on s"
  shows "lifetimes C alloc ops s = Inl Aborted \<or> (\<exists>s'. lifetimes C alloc ops s = Inr s' \<and> owned_once held on s')"
  using assms(2)
proof (induction ops arbitrary: s)
  case (Cons op ops)
  from step_sound [OF assms(1) Cons.prems, of op] show ?case
  proof (elim disjE exE conjE)
    fix s' assume "life_step C alloc op s = Inr s'" "owned_once held on s'"
    then show ?thesis using Cons.IH [of s'] by simp
  qed simp
qed simp

lemma lifetimes_owned:
  assumes "fresh_handles alloc" "lifetimes C alloc ops nothing_owned \<noteq> Inl Aborted"
  shows "\<exists>s. lifetimes C alloc ops nothing_owned = Inr s \<and> owned_once held on s
    \<and> (sc_objs s = (\<lambda>_. None) \<longrightarrow> sc_live s = (\<lambda>_. None))"
  using lifetimes_sound [OF assms(1) nothing_owned_sound] assms(2) owned_once_empty by blast

end

subsection \<open>The four classes\<close>

lemma lib_new_fresh:
  "fresh_handles alloc \<Longrightarrow> lib_new alloc L = (None, L) \<or> (\<exists>h. lib_new alloc L = (Some h, L(h \<mapsto> False)) \<and> L h = None)"
  by (auto simp: lib_new_def fresh_handles_def domIff split: option.split)

lemmas library = lib_enable_def lib_disable_def lib_delete_def

interpretation rmt_channel: owning_class RmtChannel "\<lambda>x. x" True
proof unfold_locales
  fix alloc L ok assume "fresh_handles alloc"
  from lib_new_fresh [OF this, of L]
  show "construct RmtChannel alloc ok L = Inl Aborted
      \<or> (\<exists>ob. construct RmtChannel alloc ok L = Inr (ob, L) \<and> ob = None)
      \<or> (\<exists>ob h. construct RmtChannel alloc ok L = Inr (ob, L(h \<mapsto> True)) \<and> ob = Some h \<and> L h = None)"
    by (auto simp: RmtChannel_def library fun_upd_idem)
qed (auto simp: RmtChannel_def RmtChannel_destroy_def library)

interpretation rmt_encoder: owning_class RmtEncoder "\<lambda>x. x" False
proof unfold_locales
  fix alloc L ok assume "fresh_handles alloc"
  from lib_new_fresh [OF this, of L]
  show "construct RmtEncoder alloc ok L = Inl Aborted
      \<or> (\<exists>ob. construct RmtEncoder alloc ok L = Inr (ob, L) \<and> ob = None)
      \<or> (\<exists>ob h. construct RmtEncoder alloc ok L = Inr (ob, L(h \<mapsto> False)) \<and> ob = Some h \<and> L h = None)"
    by (auto simp: RmtEncoder_def)
qed (auto simp: RmtEncoder_def RmtEncoder_destroy_def library)

interpretation psram_buffer: owning_class PsramBuffer "\<lambda>x. x" False
proof unfold_locales
  fix alloc L ok assume "fresh_handles alloc"
  from lib_new_fresh [OF this, of L]
  show "construct PsramBuffer alloc ok L = Inl Aborted
      \<or> (\<exists>ob. construct PsramBuffer alloc ok L = Inr (ob, L) \<and> ob = None)
      \<or> (\<exists>ob h. construct PsramBuffer alloc ok L = Inr (ob, L(h \<mapsto> False)) \<and> ob = Some h \<and> L h = None)"
    by (auto simp: PsramBuffer_def)
qed (auto simp: PsramBuffer_def PsramBuffer_destroy_def library)

interpretation nvs_handle: owning_class NvsHandle nvs_held False
proof unfold_locales
  fix alloc L ok assume "fresh_handles alloc"
  from lib_new_fresh [OF this, of L]
  show "construct NvsHandle alloc ok L = Inl Aborted
      \<or> (\<exists>ob. construct NvsHandle alloc ok L = Inr (ob, L) \<and> nvs_held ob = None)
      \<or> (\<exists>ob h. construct NvsHandle alloc ok L = Inr (ob, L(h \<mapsto> False)) \<and> nvs_held ob = Some h \<and> L h = None)"
  proof (elim disjE exE conjE)
    fix h assume "lib_new alloc L = (Some h, L(h \<mapsto> False))" "L h = None"
    then show ?thesis
      by (intro disjI2, intro exI [of _ "\<lparr>nh_handle = h, nh_open = True\<rparr>"] exI [of _ h]) (simp add: NvsHandle_def nvs_held_def)
  qed (auto simp: NvsHandle_def nvs_held_def)
qed (auto simp: NvsHandle_def NvsHandle_destroy_def nvs_held_def nvs_moved_def library)

lemma and_then_Inl: "and_then r f = Inl e \<longleftrightarrow> r = Inl e \<or> (\<exists>a. r = Inr a \<and> f a = Inl e)"
  by (cases r) auto

lemma never_aborts:
  assumes "\<And>ok L. construct C alloc ok L \<noteq> Inl Aborted" "\<And>ob L. destroy C ob L \<noteq> Inl Aborted"
    "\<And>a b L. move_assign C a b L \<noteq> Inl Aborted"
  shows "lifetimes C alloc ops s \<noteq> Inl Aborted"
proof (induction ops arbitrary: s)
  case (Cons op ops)
  have "life_step C alloc op s \<noteq> Inl Aborted"
    by (cases op) (auto simp: case_prod_beta and_then_Inl assms split: option.split)
  then show ?case using Cons.IH by (simp add: and_then_Inl)
qed simp

lemmas class_defs = RmtChannel_def RmtChannel_destroy_def RmtEncoder_def RmtEncoder_destroy_def
  NvsHandle_def NvsHandle_destroy_def PsramBuffer_def PsramBuffer_destroy_def

lemma only_buffers_abort:
  "lifetimes RmtChannel alloc ops s \<noteq> Inl Aborted" "lifetimes RmtEncoder alloc ops s \<noteq> Inl Aborted"
  "lifetimes NvsHandle alloc ops s' \<noteq> Inl Aborted"
  by (rule never_aborts; auto simp: class_defs library and_then_Inl split: option.splits prod.splits bool.splits if_splits)+

text \<open>C20.  However objects of the owning classes are constructed, moved, assigned and destroyed, and whichever
  of the library's calls fail, no handle is used after it was deleted, deleted twice or deleted while
  enabled: the program never misuses the library, apart from the abort of a failed allocation of
  external memory.  At every moment each existing handle is held by exactly one object, and when no
  object is left no handle is left.\<close>

theorem handles_owned_once:
  assumes "fresh_handles alloc"
  shows "(\<exists>s. lifetimes RmtChannel alloc ops nothing_owned = Inr s \<and> owned_once (\<lambda>h. h) True s
      \<and> (sc_objs s = (\<lambda>_. None) \<longrightarrow> sc_live s = (\<lambda>_. None)))
    \<and> (\<exists>s. lifetimes RmtEncoder alloc ops nothing_owned = Inr s \<and> owned_once (\<lambda>h. h) False s
      \<and> (sc_objs s = (\<lambda>_. None) \<longrightarrow> sc_live s = (\<lambda>_. None)))
    \<and> (\<exists>s. lifetimes NvsHandle alloc ops nothing_owned = Inr s \<and> owned_once nvs_held False s
      \<and> (sc_objs s = (\<lambda>_. None) \<longrightarrow> sc_live s = (\<lambda>_. None)))
    \<and> (lifetimes PsramBuffer alloc ops nothing_owned = Inl Aborted
      \<or> (\<exists>s. lifetimes PsramBuffer alloc ops nothing_owned = Inr s \<and> owned_once (\<lambda>h. h) False s
        \<and> (sc_objs s = (\<lambda>_. None) \<longrightarrow> sc_live s = (\<lambda>_. None))))"
  using rmt_channel.lifetimes_owned [OF assms only_buffers_abort(1)]
    rmt_encoder.lifetimes_owned [OF assms only_buffers_abort(2)]
    nvs_handle.lifetimes_owned [OF assms only_buffers_abort(3)]
    psram_buffer.lifetimes_owned [OF assms] by (intro conjI) auto

text \<open>Two channels, of which the second replaces the first: with a library that hands out the smallest
  free number below 3, number 0 is deleted and number 1 survives its move.\<close>

definition small_alloc :: alloc where
  "small_alloc L = (if 0 \<notin> L then Some 0 else if Suc 0 \<notin> L then Some (Suc 0) else if 2 \<notin> L then Some 2 else None)"

theorem handles_owned_once_witness:
  "\<exists>s. lifetimes RmtChannel small_alloc [Construct 0 True, Construct (Suc 0) True, Move_Assign 0 (Suc 0)] nothing_owned = Inr s
     \<and> sc_live s 0 = None \<and> sc_live s (Suc 0) = Some True \<and> holds (\<lambda>h. h) s 0 = Some (Suc 0) \<and> owned_once (\<lambda>h. h) True s"
proof -
  let ?ops = "[Construct 0 True, Construct (Suc 0) True, Move_Assign 0 (Suc 0)]"
  have f: "fresh_handles small_alloc" by (simp add: fresh_handles_def small_alloc_def)
  from handles_owned_once [OF f, of ?ops] obtain s
    where s: "lifetimes RmtChannel small_alloc ?ops nothing_owned = Inr s" "owned_once (\<lambda>h. h) True s" by blast
  then have "sc_live s 0 = None \<and> sc_live s (Suc 0) = Some True \<and> holds (\<lambda>h. h) s 0 = Some (Suc 0)"
    by (auto simp: class_defs library lib_new_def small_alloc_def nothing_owned_def holds_def)
  with s show ?thesis by blast
qed

subsection \<open>Objects with two handles\<close>

text \<open>The status light constructs a channel and an encoder and enables the channel when both exist; its
  destructor disables the channel before its members are destroyed, the last one first.\<close>

definition RgbLed_construct :: "alloc \<Rightarrow> bool \<Rightarrow> live \<Rightarrow> misuse + (nat option \<times> nat option \<times> bool) \<times> live" where
  "RgbLed_construct alloc ok L =
     (let (ch, L1) = lib_new alloc L; (enc, L2) = lib_new alloc L1
      in case (ch, enc) of
           (Some h, Some _) \<Rightarrow> and_then (lib_enable ok h L2) (\<lambda>L3. Inr ((ch, enc, ok), L3))
         | _ \<Rightarrow> Inr ((ch, enc, False), L2))"

definition RgbLed_destroy :: "nat option \<times> nat option \<times> bool \<Rightarrow> live \<Rightarrow> misuse + live" where
  "RgbLed_destroy x L =
     (case x of (ch, enc, initialized) \<Rightarrow>
        and_then (case ch of Some h \<Rightarrow> if initialized then lib_disable h L else Inr L | None \<Rightarrow> Inr L) (\<lambda>L1.
          and_then (RmtEncoder_destroy enc L1) (RmtEncoder_destroy ch)))"

text \<open>The motor constructs its channel and then its encoder; its destructor has no body, so that the
  members are destroyed, the encoder first.  The analogue input aborts when one of its two calls
  fails.\<close>

definition StepperMotor_construct :: "alloc \<Rightarrow> bool \<Rightarrow> live \<Rightarrow> misuse + (nat option \<times> nat option) \<times> live" where
  "StepperMotor_construct alloc ok L =
     and_then (construct RmtChannel alloc ok L) (\<lambda>(ch, L1).
       and_then (construct RmtEncoder alloc True L1) (\<lambda>(enc, L2). Inr ((ch, enc), L2)))"

definition StepperMotor_destroy :: "nat option \<times> nat option \<Rightarrow> live \<Rightarrow> misuse + live" where
  "StepperMotor_destroy x L =
     (case x of (ch, enc) \<Rightarrow> and_then (RmtEncoder_destroy enc L) (RmtChannel_destroy ch))"

definition AdcDriver_construct :: "alloc \<Rightarrow> bool \<Rightarrow> live \<Rightarrow> misuse + nat option \<times> live" where
  "AdcDriver_construct alloc ok L =
     (case lib_new alloc L of
        (None, _) \<Rightarrow> Inl Aborted
      | (Some h, L1) \<Rightarrow> if ok then Inr (Some h, L1) else Inl Aborted)"

definition AdcDriver_destroy :: "nat option \<Rightarrow> live \<Rightarrow> misuse + live" where
  "AdcDriver_destroy x L = (case x of None \<Rightarrow> Inr L | Some h \<Rightarrow> lib_delete h L)"

text \<open>Each of the three gives back exactly what its constructor took, whichever calls failed.\<close>

lemma light_leaves_nothing:
  assumes "fresh_handles alloc" "RgbLed_construct alloc ok L = Inr (x, L')"
  shows "RgbLed_destroy x L' = Inr L"
  using assms lib_new_fresh [OF assms(1), of L] lib_new_fresh [OF assms(1), of "snd (lib_new alloc L)"]
  by (auto simp: RgbLed_construct_def RgbLed_destroy_def RmtEncoder_destroy_def library fun_upd_idem fun_upd_twist
      split: option.splits if_splits)

lemma motor_leaves_nothing:
  assumes "fresh_handles alloc" "StepperMotor_construct alloc ok L = Inr (x, L')"
  shows "StepperMotor_destroy x L' = Inr L"
  using assms lib_new_fresh [OF assms(1), of L] lib_new_fresh [OF assms(1), of "(snd (lib_new alloc L))(the (fst (lib_new alloc L)) \<mapsto> True)"]
  by (auto simp: StepperMotor_construct_def StepperMotor_destroy_def class_defs library fun_upd_idem fun_upd_twist
      split: option.splits if_splits)

lemma adc_leaves_nothing:
  assumes "fresh_handles alloc" "AdcDriver_construct alloc ok L = Inr (x, L')"
  shows "AdcDriver_destroy x L' = Inr L"
  using assms lib_new_fresh [OF assms(1), of L]
  by (auto simp: AdcDriver_construct_def AdcDriver_destroy_def library fun_upd_idem split: if_splits)

subsection \<open>Limit switches\<close>

text \<open>A limit switch owns the interrupt handler of its pin; \<open>H\<close> are the pins that have one.  Adding the
  handler aborts when it fails.\<close>

definition LimitSwitch_construct :: "bool \<Rightarrow> nat \<Rightarrow> nat set \<Rightarrow> misuse + nat set" where
  "LimitSwitch_construct ok p H = (if ok then Inr (insert p H) else Inl Aborted)"

definition LimitSwitch_destroy :: "nat \<Rightarrow> nat set \<Rightarrow> nat set" where
  "LimitSwitch_destroy p H = H - {p}"

definition rearm :: "bool \<Rightarrow> StepperError + unit" where
  "rearm ok = (if \<not> ok then Inl StepperError.InitFailed else Inr ())"

definition switch_level :: "int \<Rightarrow> bool" where
  "switch_level v \<longleftrightarrow> v \<noteq> 0"

lemma switch_leaves_nothing:
  "p \<notin> H \<Longrightarrow> LimitSwitch_construct ok p H = Inr H' \<Longrightarrow> LimitSwitch_destroy p H' = H"
  by (auto simp: LimitSwitch_construct_def LimitSwitch_destroy_def split: if_splits)

end
