(* ===== verification/Broadcast.thy ===== *)
theory Broadcast
  imports Calibration_Handlers
begin

text \<open>
  The status broadcast (\<^verbatim>\<open>interface/src/broadcast.cpp\<close>, \<^verbatim>\<open>interface/include/interface/broadcast.hpp\<close>):
  the compact text for the serial line and BLE and the extended one for the web socket.
\<close>

declare One_nat_def [simp del]

record BroadcastEvent =
  be_tick :: u32
  be_tempCX100 :: i32
  be_mv :: u16
  be_vlv :: ValvePosition
  be_brt :: BuretteState
  be_volumeMl :: fp
  be_speedMlMin :: fp
  be_limitFull :: bool
  be_limitEmpty :: bool
  be_usbSerialConnected :: bool
  be_bleConnected :: bool
  be_stepperDrvConnected :: bool
  be_stepperDrvOtpw :: bool
  be_stepperDrvOt :: bool
  be_stallGuardValue :: u8
  be_isStalled :: bool
  be_stallGuardThreshold :: u8
  be_stepsTaken :: u32

definition valveStr :: "ValvePosition \<Rightarrow> string" where
  "valveStr v = (case v of ValvePosition.Input \<Rightarrow> ''in'' | ValvePosition.Output \<Rightarrow> ''out'')"

definition brtStsStr :: "BuretteState \<Rightarrow> string" where
  "brtStsStr s =
     (case s of
        BuretteState.Error \<Rightarrow> ''error''
      | BuretteState.Homing \<Rightarrow> ''working''
      | BuretteState.Filling \<Rightarrow> ''working''
      | BuretteState.Emptying \<Rightarrow> ''working''
      | BuretteState.Dosing \<Rightarrow> ''working''
      | BuretteState.Rinsing \<Rightarrow> ''working''
      | BuretteState.Stopping \<Rightarrow> ''working''
      | _ \<Rightarrow> ''idle'')"

text \<open>The temperature and the volume are printed into buffers of 32 bytes first.\<close>

definition temp_text :: "BroadcastEvent \<Rightarrow> string" where
  "temp_text e =
     (if sint (be_tempCX100 e) > - 99999
      then fst (snprintf 32 (fmt_fixed 1 (f_div f64 (f_of_int f64 (sint (be_tempCX100 e))) (f64_lit 100 1))))
      else ''null'')"

definition vl_text :: "BroadcastEvent \<Rightarrow> string" where
  "vl_text e =
     (if be_brt e = BuretteState.Homing then ''null'' else fst (snprintf 32 (fmt_fixed 2 (be_volumeMl e))))"

definition flag_text :: "bool \<Rightarrow> string" where
  "flag_text b = (if b then ''true'' else ''false'')"

definition compact_format :: "BroadcastEvent \<Rightarrow> string" where
  "compact_format e =
     ''{'' @ jkey ''ts'' @ nat_str (unat (be_tick e)) @ '','' @ jkey ''temp'' @ temp_text e @ '',''
     @ jkey ''mv'' @ fmt_fixed 1 (f_of_int f64 (uint (be_mv e))) @ '','' @ jkey ''vlv'' @ quoted (valveStr (be_vlv e)) @ '',''
     @ jkey ''brt'' @ ''{'' @ jkey ''sts'' @ quoted (brtStsStr (be_brt e)) @ '','' @ jkey ''vl'' @ vl_text e @ '',''
     @ jkey ''spd'' @ fmt_fixed 2 (be_speedMlMin e) @ ''}''
     @ ''}''"

definition extended_format :: "BroadcastEvent \<Rightarrow> string" where
  "extended_format e =
     ''{'' @ jkey ''ts'' @ nat_str (unat (be_tick e)) @ '','' @ jkey ''temp'' @ temp_text e @ '',''
     @ jkey ''mv'' @ fmt_fixed 1 (f_of_int f64 (uint (be_mv e))) @ '','' @ jkey ''vlv'' @ quoted (valveStr (be_vlv e)) @ '',''
     @ jkey ''brt'' @ ''{'' @ jkey ''sts'' @ quoted (brtStsStr (be_brt e)) @ '','' @ jkey ''vl'' @ vl_text e @ '',''
     @ jkey ''spd'' @ fmt_fixed 2 (be_speedMlMin e) @ ''},''
     @ jkey ''limitSwitch'' @ ''{'' @ jkey ''full'' @ flag_text (be_limitFull e) @ '','' @ jkey ''empty''
     @ flag_text (be_limitEmpty e) @ ''},''
     @ jkey ''usbSerialConnected'' @ flag_text (be_usbSerialConnected e) @ '','' @ jkey ''bleConnected''
     @ flag_text (be_bleConnected e) @ '',''
     @ jkey ''stepperDrv'' @ ''{'' @ jkey ''isConnected'' @ flag_text (be_stepperDrvConnected e) @ '',''
     @ jkey ''otpw'' @ flag_text (be_stepperDrvOtpw e) @ '','' @ jkey ''ot'' @ flag_text (be_stepperDrvOt e) @ '',''
     @ jkey ''motor'' @ ''{'' @ jkey ''stallGuard'' @ ''{'' @ jkey ''value'' @ nat_str (unat (be_stallGuardValue e)) @ '',''
     @ jkey ''isStalled'' @ flag_text (be_isStalled e) @ '','' @ jkey ''threshold''
     @ nat_str (unat (be_stallGuardThreshold e)) @ ''}}},''
     @ jkey ''buretteSteps'' @ ''{'' @ jkey ''taken'' @ nat_str (unat (be_stepsTaken e)) @ ''}''
     @ ''}''"

text \<open>The view returned is empty when the text does not fit.\<close>

definition fitted :: "string \<Rightarrow> string" where
  "fitted s = (let (b, n) = snprintf MAX_RSP_SIZE s in if MAX_RSP_SIZE \<le> n then '''' else take n b)"

definition serializeBroadcastCompact :: "BroadcastEvent \<Rightarrow> string" where
  "serializeBroadcastCompact e = fitted (compact_format e)"

definition serializeBroadcastExtended :: "BroadcastEvent \<Rightarrow> string" where
  "serializeBroadcastExtended e = fitted (extended_format e)"

subsection \<open>Lengths\<close>

lemma length_jkey [text_simps]: "length (jkey s) = length s + 3"
  by (simp add: jkey_def quoted_def)

lemma length_quoted [text_simps]: "length (quoted s) = length s + 2"
  by (simp add: quoted_def)

lemma length_snprintf_32: "length (fst (snprintf 32 s)) \<le> 31"
  by (simp add: snprintf_def)

lemma length_digits: "n < 10 ^ 10 \<Longrightarrow> length (nat_str n) \<le> 10"
  by (rule length_nat_str_le) simp_all

lemma length_u32: "length (nat_str (unat (w :: u32))) \<le> 10"
  by (rule length_digits) (use unsigned_less [of w, where ?'a = nat] in simp)

lemma length_u8: "length (nat_str (unat (w :: u8))) \<le> 10"
  by (rule length_digits) (use unsigned_less [of w, where ?'a = nat] in simp)

lemma length_temp: "length (temp_text e) \<le> 31"
  by (simp add: temp_text_def length_snprintf_32)

lemma length_vl: "length (vl_text e) \<le> 31"
  by (simp add: vl_text_def length_snprintf_32)

lemma length_small_texts:
  "length (flag_text b) \<le> 5" "length (valveStr v) \<le> 3" "length (brtStsStr s) \<le> 7"
  by (auto simp: flag_text_def valveStr_def brtStsStr_def split: ValvePosition.split BuretteState.split)

subsection \<open>Millivolts are printed exactly\<close>

lemma f64_of_small_nat:
  assumes "0 < n" and "n < 2 ^ 16"
  shows "\<exists>k. 0 < k \<and> f_of_int f64 (int n) = FFin False (n * 2 ^ k) (- int k)"
proof -
  have b: "n < 2 ^ blen n" "2 ^ (blen n - 1) \<le> n" using blen_bounds [OF assms(1)] by auto
  have "(2::nat) ^ (blen n - 1) < 2 ^ 16" using b(2) assms(2) by linarith
  then have "blen n - 1 < 16" by (rule power_less_imp_less_exp [rotated]) simp
  then have l: "blen n \<le> 16" by simp
  define k where "k = (if n * 2 ^ (54 - blen n) < 2 ^ 53 then 54 - blen n else 53 - blen n)"
  have e: "round_exp f64 n 1 = - int k"
    using l by (simp add: round_exp_def f64_def Let_def blen_eval k_def scale_num_def scale_den_def nat_diff_distrib')
  have "n * 2 ^ (53 - blen n) < 2 ^ blen n * 2 ^ (53 - blen n)" using b(1) by (intro mult_strict_right_mono) simp_all
  also have "\<dots> = (2::nat) ^ 53" using l by (simp add: power_add [symmetric])
  finally have q: "n * 2 ^ k < 2 ^ 53" by (simp add: k_def)
  have k: "0 < k" using l by (simp add: k_def)
  have "fp_round f64 False n 1 = fp_pack f64 False (rne (n * 2 ^ k) 1) (- int k)"
    using assms(1) k by (simp add: fp_round_def e Let_def scale_num_def scale_den_def)
  also have "\<dots> = FFin False (n * 2 ^ k) (- int k)"
    using q rne_exact [of 1 "n * 2 ^ k"] by (simp add: fp_pack_def f64_def)
  finally show ?thesis using k by (auto simp: f_of_int_def)
qed

lemma mv_tail: "n * 10 div 10 ^ 1 = n" "nat_str (n * 10 mod 10 ^ 1) = ''0''" "pad_zero 1 ''0'' = ''0''"
  by (simp_all add: nat_str_eval pad_zero_def One_nat_def)

lemma mv_text: "fmt_fixed 1 (f_of_int f64 (uint (w :: u16))) = nat_str (unat w) @ ''.0''"
proof (cases "w = 0")
  case True
  then show ?thesis
    using mv_tail(2) [of 0] mv_tail(3) rne_exact [of "2 ^ 1074" 0]
    by (simp add: f_of_int_def fp_round_def fp_zero_def f64_def scale_den_def scale_num_def)
next
  case False
  let ?n = "unat w"
  have n: "0 < ?n" "?n < 2 ^ 16" "uint w = int ?n"
    using False unsigned_less [of w, where ?'a = nat] by (simp_all add: unat_gt_0)
  obtain k where k: "0 < k" "f_of_int f64 (int ?n) = FFin False (?n * 2 ^ k) (- int k)"
    using f64_of_small_nat [OF n(1,2)] by blast
  have "rne (?n * 2 ^ k * 10) (2 ^ k) = ?n * 10"
    using rne_exact [of "2 ^ k" "?n * 10"] by (simp add: mult.commute mult.left_commute)
  then show ?thesis unfolding n(3) k(2) using k(1) mv_tail(1) [of ?n] mv_tail(2) [of ?n] mv_tail(3)
    by (simp add: scale_den_def scale_num_def)
qed
subsection \<open>Both broadcasts are complete\<close>

lemma length_mv: "length (fmt_fixed 1 (f_of_int f64 (uint (w :: u16)))) \<le> 12"
proof -
  have "length (nat_str (unat w)) \<le> 10"
    by (rule length_digits) (use unsigned_less [of w, where ?'a = nat] in simp)
  then show ?thesis by (simp add: mv_text)
qed

lemma extended_from_compact:
  "\<exists>rest. extended_format e = butlast (compact_format e) @ CHR '','' # rest"
  by (simp add: extended_format_def compact_format_def butlast_append)

lemma length_formats:
  assumes "fp_ok f32 (be_speedMlMin e)"
  shows "length (compact_format e) \<le> 280" and "length (extended_format e) \<le> 600"
proof -
  note b = length_temp [of e] length_vl [of e] length_mv [of "be_mv e"] length_u32 [of "be_tick e"]
    length_u32 [of "be_stepsTaken e"] length_u8 [of "be_stallGuardValue e"] length_u8 [of "be_stallGuardThreshold e"]
    length_fmt_fixed [OF assms, of 2]
  show "length (compact_format e) \<le> 280" "length (extended_format e) \<le> 600"
    using b length_small_texts(2) [of "be_vlv e"] length_small_texts(3) [of "be_brt e"]
      length_small_texts(1) [of "be_limitFull e"] length_small_texts(1) [of "be_limitEmpty e"]
      length_small_texts(1) [of "be_usbSerialConnected e"] length_small_texts(1) [of "be_bleConnected e"]
      length_small_texts(1) [of "be_stepperDrvConnected e"] length_small_texts(1) [of "be_stepperDrvOtpw e"]
      length_small_texts(1) [of "be_stepperDrvOt e"] length_small_texts(1) [of "be_isStalled e"]
    unfolding compact_format_def extended_format_def length_append length_jkey length_quoted list.size
    by linarith+
qed

text \<open>For every event whose speed is a \<^verbatim>\<open>float\<close>, both broadcasts are returned complete: the
  compact one has at most 280 bytes and the extended one at most 600, the extended text begins
  with all the fields of the compact one, and the millivolts are printed exactly.\<close>

theorem broadcasts_complete:
  assumes "fp_ok f32 (be_speedMlMin e)"
  shows "serializeBroadcastCompact e = compact_format e \<and> length (compact_format e) \<le> 280
    \<and> length (serializeBroadcastExtended e) \<le> 600
    \<and> (\<exists>rest. serializeBroadcastExtended e = butlast (serializeBroadcastCompact e) @ CHR '','' # rest)
    \<and> (\<exists>pre post. serializeBroadcastCompact e
          = pre @ jkey ''mv'' @ nat_str (unat (be_mv e)) @ ''.0,'' @ post)"
proof -
  have c: "serializeBroadcastCompact e = compact_format e" "serializeBroadcastExtended e = extended_format e"
    using length_formats [OF assms]
    by (simp_all add: serializeBroadcastCompact_def serializeBroadcastExtended_def fitted_def snprintf_def
        MAX_RSP_SIZE_def)
  have "\<exists>pre post. compact_format e = pre @ jkey ''mv'' @ nat_str (unat (be_mv e)) @ ''.0,'' @ post"
    unfolding compact_format_def mv_text
    by (rule exI [of _ "''{'' @ jkey ''ts'' @ nat_str (unat (be_tick e)) @ '','' @ jkey ''temp'' @ temp_text e @ '',''"],
        rule exI) simp
  with c length_formats [OF assms] extended_from_compact [of e] show ?thesis by simp
qed

definition sample_event :: BroadcastEvent where
  "sample_event = \<lparr>be_tick = 30, be_tempCX100 = - 99999, be_mv = 512, be_vlv = ValvePosition.Input,
     be_brt = BuretteState.Homing, be_volumeMl = FNaN, be_speedMlMin = f32_lit 10 0, be_limitFull = False,
     be_limitEmpty = True, be_usbSerialConnected = True, be_bleConnected = False, be_stepperDrvConnected = True,
     be_stepperDrvOtpw = False, be_stepperDrvOt = False, be_stallGuardValue = 0, be_isStalled = False,
     be_stallGuardThreshold = 7, be_stepsTaken = 99\<rparr>"

theorem broadcasts_complete_witness:
  "length (compact_format sample_event) \<le> 280 \<and> temp_text sample_event = ''null'' \<and> vl_text sample_event = ''null''"
  using broadcasts_complete [of sample_event] by (simp add: sample_event_def temp_text_def vl_text_def)

end
