(* ===== verification/Ble.thy ===== *)
theory Ble
  imports App_State
begin

text \<open>
  The BLE link (\<^verbatim>\<open>infrastructure/network/src/ble.cpp\<close>, \<^verbatim>\<open>ble_notify_thread.cpp\<close>): setting up,
  the callbacks of the host stack, the poll that looks for dead connections, notifications and
  the command queue.  The NimBLE stack is a parameter: the outcomes of the calls made in one
  operation.  \<open>ble_calls\<close> records the calls the code makes on the radio, oldest first; it is not
  a member of the class.  A queue holds the character data of its items.
\<close>

declare One_nat_def [simp del]

definition BLE_CMD_QUEUE_SIZE :: nat where "BLE_CMD_QUEUE_SIZE = 8"
definition BLE_NOTIFY_QUEUE_SIZE :: nat where "BLE_NOTIFY_QUEUE_SIZE = 4"

datatype gap_call = AdvStart u8 | Terminate u16 | Notify u16 u16 string | PreferBt | PreferBalance

record BleManager =
  ble_initialized :: bool
  ble_connected :: bool
  ble_connHandle :: u16
  ble_txAttrHandle :: u16
  ble_ownAddrType :: u8
  ble_failures :: u8
  ble_connectUs :: u64
  ble_cmdQueue :: "string list option"
  ble_notifyQueue :: "string list option"
  ble_calls :: "gap_call list"

definition ble_new :: BleManager where
  "ble_new = \<lparr>ble_initialized = False, ble_connected = False, ble_connHandle = 0, ble_txAttrHandle = 0,
     ble_ownAddrType = 0, ble_failures = 0, ble_connectUs = 0, ble_cmdQueue = None, ble_notifyQueue = None,
     ble_calls = []\<rparr>"

definition gap_log :: "gap_call \<Rightarrow> BleManager \<Rightarrow> BleManager" where
  "gap_log c b = b\<lparr>ble_calls := ble_calls b @ [c]\<rparr>"

definition ble_isConnected :: "BleManager \<Rightarrow> bool" where
  "ble_isConnected b \<longleftrightarrow> ble_initialized b \<and> ble_connected b"

subsection \<open>Setting up\<close>

record ble_boot =
  bb_freeHeap :: nat
  bb_cmdQueue :: bool
  bb_notifyQueue :: bool
  bb_portInit :: bool
  bb_countCfg :: bool
  bb_addSvcs :: bool

text \<open>The two queues, or the error.\<close>

definition createQueues :: "ble_boot \<Rightarrow> AppError + string list option \<times> string list option" where
  "createQueues bb =
     (if bb_freeHeap bb < 30 * 1024 then Inl AppError.Resource
      else if \<not> bb_cmdQueue bb then Inl AppError.Resource
      else if \<not> bb_notifyQueue bb then Inl AppError.Resource
      else Inr (Some [], Some []))"

definition ble_init :: "ble_boot \<Rightarrow> BleManager \<Rightarrow> (AppError + unit) \<times> BleManager" where
  "ble_init bb b =
     (if ble_initialized b then (Inr (), b)
      else case createQueues bb of
             Inl e \<Rightarrow> (Inl e, b)
           | Inr (cq, nq) \<Rightarrow>
               let b1 = b\<lparr>ble_cmdQueue := cq, ble_notifyQueue := nq\<rparr>
               in if \<not> bb_portInit bb then (Inl AppError.Resource, b1)
                  else if \<not> bb_countCfg bb then (Inl AppError.Resource, b1)
                  else if \<not> bb_addSvcs bb then (Inl AppError.Resource, b1)
                  else (Inr (), b1\<lparr>ble_initialized := True\<rparr>))"

text \<open>The host is in step with the controller: look up the characteristic, choose the address,
  advertise.  The outcomes of the stack's calls are given.\<close>

record sync_calls =
  sy_findChr :: "u16 option"
  sy_ensureAddr :: bool
  sy_inferAddr :: "u8 option"
  sy_copyAddr :: "u8 list option"
  sy_setFields :: bool
  sy_rspFields :: bool
  sy_advStart :: bool

definition hex_digit :: "nat \<Rightarrow> char" where
  "hex_digit n = ''0123456789ABCDEF'' ! n"

text \<open>\<^verbatim>\<open>%02X\<close>.\<close>

definition hex_byte :: "u8 \<Rightarrow> string" where
  "hex_byte w = [hex_digit (unat w div 16), hex_digit (unat w mod 16)]"

definition device_name :: "u8 list \<Rightarrow> string" where
  "device_name addr = fst (snprintf 20 (''EcoTiter-'' @ hex_byte (addr ! 1) @ hex_byte (addr ! 0)))"

definition configureAdvertising :: "sync_calls \<Rightarrow> (u8 \<times> string) option" where
  "configureAdvertising sy =
     (if \<not> sy_ensureAddr sy then None
      else case sy_inferAddr sy of
             None \<Rightarrow> None
           | Some typ \<Rightarrow>
               (case sy_copyAddr sy of
                  None \<Rightarrow> None
                | Some addr \<Rightarrow> if sy_setFields sy then Some (typ, device_name addr) else None))"

definition startAdvertising :: "sync_calls \<Rightarrow> u8 \<Rightarrow> BleManager \<Rightarrow> 'g globals_scheme \<Rightarrow> BleManager \<times> 'g globals_scheme" where
  "startAdvertising sy typ b g =
     (if \<not> sy_rspFields sy then (b, g)
      else let b1 = gap_log (AdvStart typ) b
           in if \<not> sy_advStart sy then (b1, g) else (b1, g\<lparr>gBleError := False\<rparr>))"

definition onHostSync :: "sync_calls \<Rightarrow> BleManager \<Rightarrow> 'g globals_scheme \<Rightarrow> BleManager \<times> 'g globals_scheme" where
  "onHostSync sy b g =
     (case sy_findChr sy of
        None \<Rightarrow> (b, g)
      | Some h \<Rightarrow>
          let b1 = b\<lparr>ble_txAttrHandle := h\<rparr>
          in case configureAdvertising sy of
               None \<Rightarrow> (b1, g)
             | Some (typ, name) \<Rightarrow> startAdvertising sy typ (b1\<lparr>ble_ownAddrType := typ\<rparr>) g)"

subsection \<open>Callbacks of the host stack\<close>

datatype gap_event = Connect bool u16 | Disconnect | OtherEvent

text \<open>A connection event carries whether its status is 0; \<open>now\<close> is \<^verbatim>\<open>esp_timer_get_time()\<close>.\<close>

definition gapEventCallback ::
    "u64 \<Rightarrow> gap_event \<Rightarrow> BleManager \<Rightarrow> 'g globals_scheme \<Rightarrow> BleManager \<times> 'g globals_scheme" where
  "gapEventCallback now ev b g =
     (case ev of
        Connect ok h \<Rightarrow>
          if ok then (gap_log PreferBt
                        (b\<lparr>ble_connected := True, ble_connHandle := h, ble_failures := 0, ble_connectUs := now\<rparr>),
                      g\<lparr>gBleError := False\<rparr>)
          else (b, g)
      | Disconnect \<Rightarrow>
          (gap_log (AdvStart (ble_ownAddrType b))
             (gap_log PreferBalance (b\<lparr>ble_connected := False, ble_connHandle := 0, ble_failures := 0\<rparr>)),
           g\<lparr>gBleError := False\<rparr>)
      | OtherEvent \<Rightarrow> (b, g))"

text \<open>A write to the command characteristic: \<^verbatim>\<open>ble_hs_mbuf_to_flat\<close> fails on more than 255 bytes.\<close>

definition gattEventCallback :: "string \<Rightarrow> BleManager \<Rightarrow> BleManager" where
  "gattEventCallback data b =
     (if length data \<le> MAX_CMD_SIZE - 1 \<and> 0 < length data
      then b\<lparr>ble_cmdQueue := snd (xQueueSend BLE_CMD_QUEUE_SIZE data (ble_cmdQueue b))\<rparr>
      else b)"

subsection \<open>Polling and notifying\<close>

text \<open>\<open>found\<close>: the stack knows the connection; times are signed 64-bit microseconds.\<close>

definition ble_process :: "u64 \<Rightarrow> bool \<Rightarrow> BleManager \<Rightarrow> 'g globals_scheme \<Rightarrow> BleManager \<times> 'g globals_scheme" where
  "ble_process now found b g =
     (if \<not> ble_initialized b then (b, g)
      else
        let (b1, g1) =
              (if ble_connected b \<and> \<not> found \<and> sint (now - ble_connectUs b) > 500000
               then (gap_log (AdvStart (ble_ownAddrType b))
                       (b\<lparr>ble_connected := False, ble_connHandle := 0, ble_failures := 0\<rparr>),
                     g\<lparr>gBleError := False\<rparr>)
               else (b, g))
        in if ble_connected b1 \<and> ble_failures b1 \<ge> 5
           then ((gap_log (Terminate (ble_connHandle b1)) b1)
                   \<lparr>ble_connected := False, ble_connHandle := 0, ble_failures := 0\<rparr>,
                 g1\<lparr>gBleError := True\<rparr>)
           else (b1, g1))"

definition sendNotification :: "bool \<Rightarrow> bool \<Rightarrow> bool \<Rightarrow> string \<Rightarrow> BleManager \<Rightarrow> bool \<times> BleManager" where
  "sendNotification found mbuf sent data b =
     (if \<not> ble_initialized b \<or> \<not> ble_connected b then (False, b)
      else if \<not> found then (False, b)
      else if \<not> mbuf then (False, b\<lparr>ble_failures := ble_failures b + 1\<rparr>)
      else let b1 = gap_log (Notify (ble_connHandle b) (ble_txAttrHandle b) data) b
           in if \<not> sent then (False, b1\<lparr>ble_failures := ble_failures b + 1\<rparr>)
              else (True, b1\<lparr>ble_failures := 0\<rparr>))"

text \<open>One round of the notify thread.\<close>

definition notify_round :: "bool \<Rightarrow> bool \<Rightarrow> bool \<Rightarrow> BleManager \<Rightarrow> BleManager" where
  "notify_round found mbuf sent b =
     (case xQueueReceive (ble_notifyQueue b) of
        (None, q) \<Rightarrow> b
      | (Some item, q) \<Rightarrow>
          let b1 = b\<lparr>ble_notifyQueue := q\<rparr>
          in if item = '''' then b1
             else if ble_isConnected b1 then snd (sendNotification found mbuf sent item b1)
             else b1)"

text \<open>The two queue operations of the main loop.\<close>

definition ble_receive :: "BleManager \<Rightarrow> string option \<times> BleManager" where
  "ble_receive b = (let (x, q) = xQueueReceive (ble_cmdQueue b) in (x, b\<lparr>ble_cmdQueue := q\<rparr>))"

definition ble_notify :: "string \<Rightarrow> BleManager \<Rightarrow> BleManager" where
  "ble_notify item b =
     (if ble_notifyQueue b = None then b
      else b\<lparr>ble_notifyQueue := snd (xQueueSend BLE_NOTIFY_QUEUE_SIZE item (ble_notifyQueue b))\<rparr>)"

subsection \<open>The link as a state machine\<close>

text \<open>Everything that happens to an initialized link, in any order.\<close>

inductive link_step :: "BleManager \<times> 'g globals_scheme \<Rightarrow> BleManager \<times> 'g globals_scheme \<Rightarrow> bool" where
  ls_sync: "onHostSync sy b g = s \<Longrightarrow> link_step (b, g) s"
| ls_gap: "gapEventCallback now ev b g = s \<Longrightarrow> link_step (b, g) s"
| ls_write: "link_step (b, g) (gattEventCallback data b, g)"
| ls_poll: "ble_process now found b g = s \<Longrightarrow> link_step (b, g) s"
| ls_notify: "link_step (b, g) (notify_round found mbuf sent b, g)"
| ls_receive: "link_step (b, g) (snd (ble_receive b), g)"
| ls_queue: "link_step (b, g) (ble_notify item b, g)"

inductive_cases link_step_cases: "link_step s t"

inductive link_reachable :: "BleManager \<times> 'g globals_scheme \<Rightarrow> BleManager \<times> 'g globals_scheme \<Rightarrow> bool" for s0 where
  lr_start: "link_reachable s0 s0"
| lr_step: "link_reachable s0 s \<Longrightarrow> link_step s t \<Longrightarrow> link_reachable s0 t"

text \<open>What holds of an initialized link at all times.\<close>

definition queue_ok :: "nat \<Rightarrow> nat \<Rightarrow> string list option \<Rightarrow> bool" where
  "queue_ok depth width q \<longleftrightarrow>
     (case q of None \<Rightarrow> False | Some xs \<Rightarrow> length xs \<le> depth \<and> (\<forall>x \<in> set xs. length x \<le> width))"

definition link_ok :: "BleManager \<Rightarrow> bool" where
  "link_ok b \<longleftrightarrow>
     ble_initialized b
     \<and> (\<not> ble_connected b \<longrightarrow> ble_connHandle b = 0 \<and> ble_failures b = 0)
     \<and> queue_ok BLE_CMD_QUEUE_SIZE (MAX_CMD_SIZE - 1) (ble_cmdQueue b)
     \<and> (case ble_notifyQueue b of None \<Rightarrow> False | Some xs \<Rightarrow> length xs \<le> BLE_NOTIFY_QUEUE_SIZE)"

lemma link_ok_gap_log [simp]: "link_ok (gap_log c b) = link_ok b"
  by (simp add: link_ok_def gap_log_def)

lemma gap_log_simps [simp]:
  "ble_connected (gap_log c b) = ble_connected b" "ble_failures (gap_log c b) = ble_failures b"
  "ble_initialized (gap_log c b) = ble_initialized b" "ble_connHandle (gap_log c b) = ble_connHandle b"
  "ble_cmdQueue (gap_log c b) = ble_cmdQueue b" "ble_notifyQueue (gap_log c b) = ble_notifyQueue b"
  "ble_ownAddrType (gap_log c b) = ble_ownAddrType b" "ble_txAttrHandle (gap_log c b) = ble_txAttrHandle b"
  "ble_calls (gap_log c b) = ble_calls b @ [c]"
  by (simp_all add: gap_log_def)

lemma queue_ok_send: "queue_ok d w q \<Longrightarrow> length x \<le> w \<Longrightarrow> queue_ok d w (snd (xQueueSend d x q))"
  by (auto simp: queue_ok_def xQueueSend_def split: option.splits)

lemma queue_ok_receive: "queue_ok d w q \<Longrightarrow> queue_ok d w (snd (xQueueReceive q))"
  by (auto simp: queue_ok_def xQueueReceive_def split: option.splits list.splits)

lemma link_ok_init: "fst (ble_init bb ble_new) = Inr () \<Longrightarrow> link_ok (snd (ble_init bb ble_new))"
  by (auto simp: ble_init_def createQueues_def ble_new_def link_ok_def queue_ok_def Let_def split: if_splits)

lemma link_ok_step:
  assumes "link_step s t" and "link_ok (fst s)"
  shows "link_ok (fst t)"
  using assms
proof cases
  case (ls_sync sy b g)
  then show ?thesis using assms(2)
    by (auto simp: onHostSync_def startAdvertising_def Let_def link_ok_def split: option.splits if_splits)
next
  case (ls_gap now ev b g)
  then show ?thesis using assms(2)
    by (cases ev) (auto simp: gapEventCallback_def link_ok_def split: if_splits)
next
  case (ls_write b g data)
  then show ?thesis using assms(2) by (auto simp: gattEventCallback_def link_ok_def intro: queue_ok_send)
next
  case (ls_poll now found b g)
  then show ?thesis using assms(2)
    by (auto simp: ble_process_def link_ok_def Let_def split: if_splits)
next
  case (ls_notify b g found mbuf sent)
  then show ?thesis using assms(2)
    by (auto simp: notify_round_def sendNotification_def link_ok_def Let_def xQueueReceive_def
        split: option.splits list.splits if_splits)
next
  case (ls_receive b g)
  then show ?thesis using assms(2) queue_ok_receive [of BLE_CMD_QUEUE_SIZE "MAX_CMD_SIZE - 1" "ble_cmdQueue b"]
    by (auto simp: ble_receive_def link_ok_def split: prod.splits)
next
  case (ls_queue b g item)
  then show ?thesis using assms(2)
    by (auto simp: ble_notify_def link_ok_def xQueueSend_def split: option.splits)
qed

lemma link_ok_reachable: "link_reachable s t \<Longrightarrow> link_ok (fst s) \<Longrightarrow> link_ok (fst t)"
  by (induction rule: link_reachable.induct) (auto dest: link_ok_step)

text \<open>C25.  Once BLE is set up, whatever the stack's callbacks, the polls, the notify thread and the
  main loop do and in whatever order: a link that is not connected has no connection handle and no
  counted failure, the command queue holds at most eight commands of at most 255 bytes, and the
  notification queue at most four items.\<close>

theorem link_invariant:
  assumes "fst (ble_init bb ble_new) = Inr ()"
    and "link_reachable (snd (ble_init bb ble_new), g) (b, g')"
  shows "ble_initialized b
    \<and> (\<not> ble_connected b \<longrightarrow> ble_connHandle b = 0 \<and> ble_failures b = 0)
    \<and> (\<exists>cs. ble_cmdQueue b = Some cs \<and> length cs \<le> 8 \<and> (\<forall>c \<in> set cs. length c \<le> 255))
    \<and> (\<exists>ns. ble_notifyQueue b = Some ns \<and> length ns \<le> 4)"
  using link_ok_reachable [OF assms(2)] link_ok_init [OF assms(1)]
  by (auto simp: link_ok_def queue_ok_def BLE_CMD_QUEUE_SIZE_def BLE_NOTIFY_QUEUE_SIZE_def MAX_CMD_SIZE_def
      split: option.splits)

definition good_boot :: ble_boot where
  "good_boot = \<lparr>bb_freeHeap = 100000, bb_cmdQueue = True, bb_notifyQueue = True, bb_portInit = True,
     bb_countCfg = True, bb_addSvcs = True\<rparr>"

theorem link_invariant_witness:
  "fst (ble_init good_boot ble_new) = Inr ()
   \<and> ble_initialized (gattEventCallback ''x'' (snd (ble_init good_boot ble_new)))"
proof -
  have i: "fst (ble_init good_boot ble_new) = Inr ()"
    by (simp add: ble_init_def good_boot_def ble_new_def createQueues_def Let_def)
  have "link_reachable (snd (ble_init good_boot ble_new), globals_init)
      (gattEventCallback ''x'' (snd (ble_init good_boot ble_new)), globals_init)"
    by (rule lr_step [OF lr_start ls_write])
  from link_invariant [OF i this] i show ?thesis by blast
qed

subsection \<open>A link that cannot notify\<close>

text \<open>Notifications the stack refuses, each with whether a buffer was found and its text.\<close>

definition refused_notifications :: "(bool \<times> string) list \<Rightarrow> BleManager \<Rightarrow> BleManager" where
  "refused_notifications ds b = fold (\<lambda>(mbuf, d) b. snd (sendNotification True mbuf False d b)) ds b"

lemma refused_notification:
  assumes "ble_initialized b" and "ble_connected b"
  shows "\<exists>cs. snd (sendNotification True mbuf False d b)
     = b\<lparr>ble_failures := ble_failures b + 1, ble_calls := cs\<rparr>"
  using assms by (cases b) (auto simp: sendNotification_def gap_log_def Let_def)

lemma refused_count:
  assumes "ble_initialized b" and "ble_connected b"
  shows "\<exists>cs. refused_notifications ds b = b\<lparr>ble_failures := ble_failures b + of_nat (length ds), ble_calls := cs\<rparr>"
  using assms
proof (induction ds arbitrary: b)
  case Nil
  then show ?case by (auto simp: refused_notifications_def intro: exI [of _ "ble_calls b"])
next
  case (Cons x ds)
  obtain mbuf d where x: "x = (mbuf, d)" by force
  obtain cs where c: "snd (sendNotification True mbuf False d b)
     = b\<lparr>ble_failures := ble_failures b + 1, ble_calls := cs\<rparr>"
    using refused_notification [OF Cons.prems] by blast
  let ?b = "b\<lparr>ble_failures := ble_failures b + 1, ble_calls := cs\<rparr>"
  obtain cs' where "refused_notifications ds ?b
      = ?b\<lparr>ble_failures := ble_failures ?b + of_nat (length ds), ble_calls := cs'\<rparr>"
    using Cons.IH [of ?b] Cons.prems by auto
  then show ?case using c x by (auto simp: refused_notifications_def ac_simps)
qed

lemma of_nat_u8_ge: "(of_nat n :: u8) \<ge> 5 \<longleftrightarrow> n mod 256 \<ge> 5"
  by (simp add: word_le_nat_alt unat_of_nat)

text \<open>After the stack has refused \<open>n\<close> notifications in a row on a connected link, the next poll
  of a connection the stack still knows ends it and raises the error flag exactly when \<open>n\<close> modulo
  256 is at least five: the counter has eight bits, so 256 failures between two polls look like
  none.  Otherwise the link stays as it is.\<close>

theorem failing_link_is_dropped:
  assumes "ble_initialized b" and "ble_connected b" and "ble_failures b = 0"
  shows "case ble_process now True (refused_notifications ds b) g of (b', g') \<Rightarrow>
    if length ds mod 256 \<ge> 5
    then \<not> ble_connected b' \<and> ble_connHandle b' = 0 \<and> ble_failures b' = 0 \<and> gBleError g'
      \<and> last (ble_calls b') = Terminate (ble_connHandle b)
    else b' = refused_notifications ds b \<and> g' = g"
proof -
  obtain cs where c: "refused_notifications ds b = b\<lparr>ble_failures := of_nat (length ds), ble_calls := cs\<rparr>"
    using refused_count [OF assms(1,2), of ds] assms(3) by auto
  show ?thesis using assms unfolding c ble_process_def Let_def by (simp add: of_nat_u8_ge)
qed

theorem failing_link_is_dropped_witness:
  "gBleError (snd (ble_process 0 True
     (refused_notifications (replicate 5 (False, ''x'')) (ble_new\<lparr>ble_initialized := True, ble_connected := True\<rparr>))
     globals_init))"
  using failing_link_is_dropped [of "ble_new\<lparr>ble_initialized := True, ble_connected := True\<rparr>"
      "replicate 5 (False, ''x'')" globals_init 0]
  by (simp add: ble_new_def split: prod.splits)

text \<open>The name in the advertisement always fits its buffer.\<close>

lemma device_name_complete: "device_name addr = ''EcoTiter-'' @ hex_byte (addr ! 1) @ hex_byte (addr ! 0)"
  by (simp add: device_name_def snprintf_def hex_byte_def)

subsection \<open>The service tables and the end of the link\<close>

text \<open>Identifiers are stored with their last byte first.\<close>

definition NUS_SVC_UUID :: "u8 list" where
  "NUS_SVC_UUID = [0x00, 0x00, 0xdc, 0x24, 0x0e, 0xe5, 0xa9, 0xe0, 0x93, 0xf3, 0xa3, 0xb5, 0x01, 0x00, 0x40, 0x6e]"
definition NUS_RX_UUID :: "u8 list" where
  "NUS_RX_UUID = [0x00, 0x00, 0xdc, 0x24, 0x0e, 0xe5, 0xa9, 0xe0, 0x93, 0xf3, 0xa3, 0xb5, 0x02, 0x00, 0x40, 0x6e]"
definition NUS_TX_UUID :: "u8 list" where
  "NUS_TX_UUID = [0x00, 0x00, 0xdc, 0x24, 0x0e, 0xe5, 0xa9, 0xe0, 0x93, 0xf3, 0xa3, 0xb5, 0x03, 0x00, 0x40, 0x6e]"

datatype chr_flag = CHR_F_WRITE | CHR_F_WRITE_NO_RSP | CHR_F_NOTIFY

record gatt_chr =
  gc_uuid :: "u8 list"
  gc_flags :: "chr_flag list"

definition NUS_CHRS :: "gatt_chr list" where
  "NUS_CHRS =
     [\<lparr>gc_uuid = NUS_RX_UUID, gc_flags = [CHR_F_WRITE, CHR_F_WRITE_NO_RSP]\<rparr>,
      \<lparr>gc_uuid = NUS_TX_UUID, gc_flags = [CHR_F_NOTIFY]\<rparr>]"

definition GATT_SVCS :: "(u8 list \<times> gatt_chr list) list" where
  "GATT_SVCS = [(NUS_SVC_UUID, NUS_CHRS)]"

definition ble_destroy :: "BleManager \<Rightarrow> BleManager" where
  "ble_destroy b = b\<lparr>ble_cmdQueue := None, ble_notifyQueue := None, ble_initialized := False\<rparr>"

definition ble_isInitialized :: "BleManager \<Rightarrow> bool" where
  "ble_isInitialized b \<longleftrightarrow> ble_initialized b"

text \<open>The written form of an identifier: the bytes in reverse, in five groups.\<close>

definition uuid_text :: "u8 list \<Rightarrow> string" where
  "uuid_text bs =
     (let h = concat (map hex_byte (rev bs))
      in take 8 h @ ''-'' @ take 4 (drop 8 h) @ ''-'' @ take 4 (drop 12 h) @ ''-'' @ take 4 (drop 16 h) @ ''-'' @ drop 20 h)"

text \<open>The three identifiers are those of the protocol's clients; a client can write the first
  characteristic only and is notified by the second only.\<close>

lemma service_identifiers:
  "map (\<lambda>(svc, chrs). (uuid_text svc, map (\<lambda>c. (uuid_text (gc_uuid c), CHR_F_NOTIFY \<in> set (gc_flags c))) chrs)) GATT_SVCS
   = [(''6E400001-B5A3-F393-E0A9-E50E24DC0000'',
       [(''6E400002-B5A3-F393-E0A9-E50E24DC0000'', False), (''6E400003-B5A3-F393-E0A9-E50E24DC0000'', True)])]"
  by code_simp

text \<open>After its destructor a link has no queue left, as before its start.\<close>

lemma destroyed_link: "\<not> ble_isInitialized (ble_destroy b) \<and> ble_cmdQueue (ble_destroy b) = None
    \<and> ble_notifyQueue (ble_destroy b) = None"
  by (simp add: ble_isInitialized_def ble_destroy_def)

end
