(* ===== verification/Serial_Reader.thy ===== *)
theory Serial_Reader
  imports Domain_Types
begin

text \<open>
  The serial line reader (\<^verbatim>\<open>interface/include/interface/serial.hpp\<close>,
  \<^verbatim>\<open>interface/src/serial.cpp\<close>): setting up the port, collecting bytes into lines, and
  writing.  \<open>ser_buf\<close> is the part of \<^verbatim>\<open>lineBuf_\<close> in front of \<^verbatim>\<open>linePos_\<close>, so the write
  position is its length.  The UART driver and the file layer above it are parameters: the
  outcomes of their calls, and the bytes a poll finds (\<^term>\<open>None\<close> when \<^verbatim>\<open>select\<close> or
  \<^verbatim>\<open>read\<close> reports none).
\<close>

declare One_nat_def [simp del]

datatype SerialError = InitFailed | WriteFailed

record SerialReader =
  ser_fd :: int
  ser_silent :: bool
  ser_lastDataTick :: u32
  ser_buf :: string
  ser_readPos :: nat

definition INPUT_BUF_SIZE :: nat where "INPUT_BUF_SIZE = 256"

definition serial_new :: SerialReader where
  "serial_new = \<lparr>ser_fd = - 1, ser_silent = False, ser_lastDataTick = 0, ser_buf = '''', ser_readPos = 0\<rparr>"

definition CR :: char where "CR = CHR 0x0D"
definition LF :: char where "LF = CHR 0x0A"

lemma CR_LF [simp]: "CR \<noteq> LF" "LF \<noteq> CR"
  by (simp_all add: CR_def LF_def)

subsection \<open>The port\<close>

text \<open>The outcomes of the driver's calls; \<open>up_open\<close> is the file descriptor.\<close>

record uart_port =
  up_install :: bool
  up_config :: bool
  up_pins :: bool
  up_open :: int

text \<open>The result, the reader, and whether the driver is left installed.\<close>

definition serial_init :: "uart_port \<Rightarrow> SerialReader \<Rightarrow> (SerialError + unit) \<times> SerialReader \<times> bool" where
  "serial_init u r =
     (if \<not> up_install u then (Inl SerialError.InitFailed, r, False)
      else if \<not> up_config u then (Inl SerialError.InitFailed, r, False)
      else if \<not> up_pins u then (Inl SerialError.InitFailed, r, False)
      else let r1 = r\<lparr>ser_fd := up_open u\<rparr>
           in if ser_fd r1 < 0 then (Inl SerialError.InitFailed, r1, False) else (Inr (), r1, True))"

definition isInitialized :: "SerialReader \<Rightarrow> bool" where
  "isInitialized r \<longleftrightarrow> 0 \<le> ser_fd r"

definition hasHeartbeat :: "SerialReader \<Rightarrow> u32 \<Rightarrow> u32 \<Rightarrow> bool" where
  "hasHeartbeat r nowTick timeoutMs \<longleftrightarrow>
     ser_lastDataTick r \<noteq> 0 \<and> (nowTick - ser_lastDataTick r) * 1 < timeoutMs"

text \<open>The texts handed to \<^verbatim>\<open>write\<close>, oldest first.\<close>

definition serial_write :: "SerialReader \<Rightarrow> string \<Rightarrow> string list \<Rightarrow> string list" where
  "serial_write r s out = (if ser_fd r < 0 \<or> s = '''' then out else out @ [s])"

lemma init_leaves_port_installed_iff_ok:
  "case serial_init u r of (res, r', installed) \<Rightarrow>
     installed \<longleftrightarrow> res = Inr () \<and> isInitialized r'"
  by (auto simp: serial_init_def isInitialized_def Let_def)

subsection \<open>Splitting lines\<close>

text \<open>Move the unread bytes to the front.\<close>

definition compact :: "SerialReader \<Rightarrow> SerialReader" where
  "compact r =
     (if 0 < ser_readPos r
      then r\<lparr>ser_buf := (if ser_readPos r < length (ser_buf r) then drop (ser_readPos r) (ser_buf r) else []),
             ser_readPos := 0\<rparr>
      else r)"

text \<open>Append the incoming bytes to the buffer, whose read position is 0 now.  A newline is stored
  without a test of the size: past the end of the array the result is undefined.\<close>

fun append_data :: "string \<Rightarrow> string \<Rightarrow> string outcome" where
  "append_data [] buf = Some buf"
| "append_data (c # cs) buf =
     (if c = CR then append_data cs buf
      else if c = LF then
        (if buf = [] then append_data cs buf
         else if length buf < MAX_CMD_SIZE then append_data cs (buf @ [LF])
         else None)
      else if MAX_CMD_SIZE \<le> length buf then Some []
      else append_data cs (buf @ [c]))"

text \<open>The first complete line and the position behind it.\<close>

fun find_line :: "nat \<Rightarrow> string \<Rightarrow> nat option" where
  "find_line i [] = None"
| "find_line i (c # cs) = (if c = LF then Some i else find_line (i + 1) cs)"

definition splitBuffer :: "u32 \<Rightarrow> string \<Rightarrow> SerialReader \<Rightarrow> (string option \<times> SerialReader) outcome" where
  "splitBuffer now data r =
     (let r1 = (if data \<noteq> [] then r\<lparr>ser_lastDataTick := now\<rparr> else r);
          r2 = compact r1
      in map_option (\<lambda>buf.
           let r3 = r2\<lparr>ser_buf := buf\<rparr>
           in case find_line (ser_readPos r3) (drop (ser_readPos r3) (ser_buf r3)) of
                None \<Rightarrow> (None, r3)
              | Some i \<Rightarrow> (Some (take (i - ser_readPos r3) (drop (ser_readPos r3) (ser_buf r3))),
                           r3\<lparr>ser_readPos := i + 1\<rparr>))
         (append_data data (ser_buf r2)))"

text \<open>One poll of the port; the descriptor of a port that failed to open must not be polled.\<close>

definition process :: "u32 \<Rightarrow> string option \<Rightarrow> SerialReader \<Rightarrow> (string option \<times> SerialReader) outcome" where
  "process now avail r =
     (if ser_fd r < 0 then None
      else case avail of
             None \<Rightarrow> Some (None, r)
           | Some data \<Rightarrow> if data = [] then Some (None, r) else splitBuffer now (take INPUT_BUF_SIZE data) r)"

subsection \<open>The bytes still to be delivered\<close>

definition pending :: "SerialReader \<Rightarrow> string" where
  "pending r = drop (ser_readPos r) (ser_buf r)"

definition reader_ok :: "SerialReader \<Rightarrow> bool" where
  "reader_ok r \<longleftrightarrow> length (ser_buf r) \<le> MAX_CMD_SIZE \<and> ser_readPos r \<le> length (ser_buf r)"

text \<open>What the buffer would hold had it no end: carriage returns are dropped, and newlines as long
  as nothing is pending.\<close>

definition offered :: "string \<Rightarrow> string \<Rightarrow> string" where
  "offered p data =
     p @ (if p = [] then dropWhile (\<lambda>c. c = LF) (filter (\<lambda>c. c \<noteq> CR) data) else filter (\<lambda>c. c \<noteq> CR) data)"

text \<open>Deliver the first line of a text.\<close>

definition cut_line :: "string \<Rightarrow> string option \<times> string" where
  "cut_line p =
     (if LF \<in> set p then (Some (takeWhile (\<lambda>c. c \<noteq> LF) p), tl (dropWhile (\<lambda>c. c \<noteq> LF) p)) else (None, p))"

lemma compact_simps [simp]:
  "ser_buf (compact r) = pending r" "ser_readPos (compact r) = 0" "pending (r\<lparr>ser_lastDataTick := t\<rparr>) = pending r"
  "ser_fd (compact r) = ser_fd r"
  by (simp_all add: compact_def pending_def)

lemma offered_simps [simp]:
  "offered p [] = p" "offered p (CR # cs) = offered p cs"
  "offered [] (LF # cs) = offered [] cs"
  "p \<noteq> [] \<Longrightarrow> offered p (LF # cs) = offered (p @ [LF]) cs"
  "c \<noteq> CR \<Longrightarrow> c \<noteq> LF \<Longrightarrow> offered p (c # cs) = offered (p @ [c]) cs"
  by (simp_all add: offered_def)

lemma offered_extends: "\<exists>q. offered p cs = p @ q"
  by (simp add: offered_def)

lemma append_data_offered:
  "length p \<le> MAX_CMD_SIZE \<Longrightarrow>
   append_data data p =
     (if length (offered p data) \<le> MAX_CMD_SIZE then Some (offered p data)
      else if offered p data ! MAX_CMD_SIZE = LF then None
      else Some [])"
proof (induction data p rule: append_data.induct)
  case (1 buf)
  then show ?case by simp
next
  case (2 c cs buf)
  consider "c = CR" | "c = LF" "buf = []" | "c = LF" "buf \<noteq> []" | "c \<noteq> CR" "c \<noteq> LF" by blast
  then show ?case
  proof cases
    case 3
    obtain q where q: "offered (buf @ [LF]) cs = (buf @ [LF]) @ q" using offered_extends by blast
    show ?thesis
    proof (cases "length buf < MAX_CMD_SIZE")
      case True
      then show ?thesis using 2 3 by simp
    next
      case False
      then show ?thesis using 2 3 q by (simp add: nth_append)
    qed
  next
    case 4
    obtain q where q: "offered (buf @ [c]) cs = (buf @ [c]) @ q" using offered_extends by blast
    show ?thesis
    proof (cases "length buf < MAX_CMD_SIZE")
      case True
      then show ?thesis using 2 4 by simp
    next
      case False
      then show ?thesis using 2 4 q by (simp add: nth_append)
    qed
  qed (use 2 in simp_all)
qed

lemma find_line_offset: "find_line i xs = map_option (\<lambda>n. n + i) (find_line 0 xs)"
proof (induction xs arbitrary: i)
  case (Cons c cs)
  show ?case using Cons.IH [of "i + 1"] Cons.IH [of 1]
    by (cases "find_line 0 cs") (simp_all add: ac_simps)
qed simp

lemma find_line_cut:
  "find_line 0 p = (if LF \<in> set p then Some (length (takeWhile (\<lambda>c. c \<noteq> LF) p)) else None)"
proof (induction p)
  case (Cons c cs)
  then show ?case by (subst find_line.simps, subst find_line_offset) (auto simp: One_nat_def)
qed simp

lemma drop_length_takeWhile: "drop (length (takeWhile P xs)) xs = dropWhile P xs"
  by (induction xs) auto

lemma take_length_takeWhile: "take (length (takeWhile P xs)) xs = takeWhile P xs"
  by (induction xs) auto

lemma cut_line_find:
  "cut_line p = (case find_line 0 p of None \<Rightarrow> (None, p) | Some i \<Rightarrow> (Some (take i p), drop (i + 1) p))"
  by (auto simp: cut_line_def find_line_cut take_length_takeWhile drop_length_takeWhile [symmetric] Suc_eq_plus1 [symmetric] drop_Suc drop_tl
      simp del: Suc_eq_plus1)

lemma reader_ok_pending: "reader_ok r \<Longrightarrow> length (pending r) \<le> MAX_CMD_SIZE"
  by (auto simp: reader_ok_def pending_def)

lemma cut_line_tail: "length (snd (cut_line p)) \<le> length p"
  by (simp add: cut_line_find split: option.splits)

lemma find_line_less: "find_line i p = Some j \<Longrightarrow> j < i + length p"
  by (induction i p rule: find_line.induct) (fastforce split: if_splits)+

lemma splitBuffer_unfold:
  "splitBuffer now data r =
     (let r2 = compact (if data \<noteq> [] then r\<lparr>ser_lastDataTick := now\<rparr> else r)
      in map_option (\<lambda>buf. case find_line 0 buf of
           None \<Rightarrow> (None, r2\<lparr>ser_buf := buf\<rparr>)
         | Some i \<Rightarrow> (Some (take i buf), r2\<lparr>ser_buf := buf, ser_readPos := i + 1\<rparr>))
       (append_data data (pending r)))"
  unfolding splitBuffer_def Let_def by (auto intro!: option.map_cong split: option.split)

lemma splitBuffer_eq:
  assumes "reader_ok r"
  shows "map_option (map_prod id pending) (splitBuffer now data r) =
     (let p = offered (pending r) data
      in if length p \<le> MAX_CMD_SIZE then Some (cut_line p)
         else if p ! MAX_CMD_SIZE = LF then None
         else Some (None, []))"
  using append_data_offered [OF reader_ok_pending [OF assms], of data]
  by (cases "append_data data (pending r)")
    (auto simp: splitBuffer_unfold Let_def cut_line_find pending_def split: option.splits if_splits)

lemma splitBuffer_ok:
  assumes "reader_ok r" and "splitBuffer now data r = Some (l, r')"
  shows "reader_ok r'" and "ser_fd r' = ser_fd r"
proof -
  have b: "append_data data (pending r) = Some b \<Longrightarrow> length b \<le> MAX_CMD_SIZE" for b
    using append_data_offered [OF reader_ok_pending [OF assms(1)], of data] by (auto split: if_splits)
  obtain buf where buf: "append_data data (pending r) = Some buf"
    using assms(2) by (auto simp: splitBuffer_unfold Let_def)
  show "reader_ok r'" "ser_fd r' = ser_fd r"
    using assms(2) b [OF buf] buf find_line_less [of 0 buf]
    by (cases "find_line 0 buf"; auto simp: splitBuffer_unfold Let_def reader_ok_def Suc_le_eq)+
qed

text \<open>C23.  One call of the line splitter, for every content of the reader and every input: as long as
  the pending and the offered bytes fit into the buffer the first complete line is delivered and
  exactly the bytes behind it stay pending; otherwise, if the first byte that does not fit is a
  newline, the result is undefined (it is written behind the array), and if it is any other byte,
  everything pending is thrown away, complete lines included, with the rest of the input.\<close>

theorem split_refines_pending:
  "if reader_ok r then
     case splitBuffer now data r of
       None \<Rightarrow> MAX_CMD_SIZE < length (offered (pending r) data) \<and> offered (pending r) data ! MAX_CMD_SIZE = LF
     | Some (l, r') \<Rightarrow>
         reader_ok r'
         \<and> (l, pending r') =
             (if length (offered (pending r) data) \<le> MAX_CMD_SIZE then cut_line (offered (pending r) data)
              else (None, []))
   else True"
proof (cases "reader_ok r")
  case True
  note e = splitBuffer_eq [OF True, of now data]
  show ?thesis
  proof (cases "splitBuffer now data r")
    case None
    with e True show ?thesis by (simp add: Let_def split: if_splits)
  next
    case (Some x)
    obtain l r' where x: "x = (l, r')" by force
    have "reader_ok r'" using splitBuffer_ok [OF True] Some x by blast
    with e True Some x show ?thesis by (simp add: Let_def split: if_splits)
  qed
qed simp

subsection \<open>A stream of lines\<close>

text \<open>Polls at which the given bytes arrive; the lines they deliver.\<close>

fun polls :: "(u32 \<times> string option) list \<Rightarrow> SerialReader \<Rightarrow> (string list \<times> SerialReader) outcome" where
  "polls [] r = Some ([], r)"
| "polls ((now, a) # as) r =
     (case process now a r of
        None \<Rightarrow> None
      | Some (l, r1) \<Rightarrow> map_option (\<lambda>(ls, r2). ((case l of None \<Rightarrow> ls | Some x \<Rightarrow> x # ls), r2)) (polls as r1))"

definition line_text :: "string list \<Rightarrow> string" where
  "line_text ls = concat (map (\<lambda>l. l @ [LF]) ls)"

definition plain_line :: "string \<Rightarrow> bool" where
  "plain_line l \<longleftrightarrow> l \<noteq> [] \<and> LF \<notin> set l \<and> CR \<notin> set l \<and> length l \<le> 128"

definition arrived :: "(u32 \<times> string option) list \<Rightarrow> string" where
  "arrived as = concat (map (\<lambda>(_, a). case a of None \<Rightarrow> [] | Some d \<Rightarrow> filter (\<lambda>c. c \<noteq> CR) d) as)"

text \<open>At most 128 bytes and one newline arrive between two polls.\<close>

definition paced :: "string option \<Rightarrow> bool" where
  "paced a \<longleftrightarrow> (case a of None \<Rightarrow> True | Some d \<Rightarrow> length d \<le> 128 \<and> length (filter (\<lambda>c. c = LF) d) \<le> 1)"

lemma line_text_simps [simp]: "line_text [] = []" "line_text (l # ls) = l @ LF # line_text ls"
  by (simp_all add: line_text_def)

lemma arrived_simps [simp]:
  "arrived [] = []" "arrived ((n, None) # as) = arrived as"
  "arrived ((n, Some d) # as) = filter (\<lambda>c. c \<noteq> CR) d @ arrived as"
  by (simp_all add: arrived_def)

lemma first_line_unique:
  "a @ LF # b = l @ LF # c \<Longrightarrow> LF \<notin> set a \<Longrightarrow> LF \<notin> set l \<Longrightarrow> a = l \<and> b = c"
  by (induction a arbitrary: l; case_tac l) (auto split: list.splits)

lemma cut_line_append: "LF \<notin> set a \<Longrightarrow> cut_line (a @ LF # b) = (Some a, b)"
  by (induction a) (auto simp: cut_line_def)

lemma cut_line_none: "LF \<notin> set a \<Longrightarrow> cut_line a = (None, a)"
  by (simp add: cut_line_def)

lemma offered_stream:
  assumes "p @ filter (\<lambda>c. c \<noteq> CR) d @ rest = line_text ls" and "\<forall>l \<in> set ls. plain_line l"
  shows "offered p d = p @ filter (\<lambda>c. c \<noteq> CR) d"
proof (cases "p = [] \<and> filter (\<lambda>c. c \<noteq> CR) d \<noteq> []")
  case True
  then obtain c cs where f: "filter (\<lambda>c. c \<noteq> CR) d = c # cs" by (cases "filter (\<lambda>c. c \<noteq> CR) d") auto
  with True assms obtain l ls' where "ls = l # ls'" by (cases ls) auto
  with True assms f have "c \<noteq> LF" by (cases l) (auto simp: plain_line_def)
  then show ?thesis using True f by (simp add: offered_def)
qed (auto simp: offered_def)

lemma prefix_of_line:
  "a @ b = line_text ls \<Longrightarrow> LF \<notin> set a \<Longrightarrow> \<forall>l \<in> set ls. plain_line l \<Longrightarrow> length a \<le> 128"
proof (cases ls)
  case (Cons l ls')
  assume e: "a @ b = line_text ls" and n: "LF \<notin> set a" and p: "\<forall>l \<in> set ls. plain_line l"
  show ?thesis
  proof (rule ccontr)
    assume "\<not> length a \<le> 128"
    with p Cons have "length l < length a" by (auto simp: plain_line_def)
    moreover have "(a @ b) ! length l = LF" using e Cons by (simp add: nth_append)
    ultimately have "a ! length l = LF" by (simp add: nth_append)
    with \<open>length l < length a\<close> n show False by (metis nth_mem)
  qed
qed simp

lemma filter_one_split:
  "length (filter P d) \<le> 1 \<Longrightarrow> (\<exists>x \<in> set d. P x) \<Longrightarrow>
   \<exists>a x b. d = a @ x # b \<and> P x \<and> (\<forall>y \<in> set a. \<not> P y) \<and> (\<forall>y \<in> set b. \<not> P y)"
  by (drule split_list_first_prop) (auto simp: filter_empty_conv; blast)

lemma process_stream:
  assumes "reader_ok r" and "0 \<le> ser_fd r" and "LF \<notin> set (pending r)" and "paced (Some d)"
    and "pending r @ filter (\<lambda>c. c \<noteq> CR) d @ rest = line_text ls" and "\<forall>l \<in> set ls. plain_line l"
  obtains r' l where "process now (Some d) r = Some (l, r')" and "reader_ok r'" and "0 \<le> ser_fd r'"
    and "LF \<notin> set (pending r')"
    and "case l of None \<Rightarrow> pending r' @ rest = line_text ls
         | Some x \<Rightarrow> \<exists>ls'. ls = x # ls' \<and> pending r' @ rest = line_text ls'"
proof (cases "d = []")
  case True
  with assms that show thesis by (simp add: process_def)
next
  case False
  let ?f = "filter (\<lambda>c. c \<noteq> CR) d"
  let ?p = "pending r @ ?f"
  have o: "offered (pending r) d = ?p" by (rule offered_stream [OF assms(5,6)])
  have p: "length (pending r) \<le> 128" by (rule prefix_of_line [OF assms(5,3,6)])
  have "length ?f \<le> length d" by simp
  with p assms(4) have len: "length ?p \<le> MAX_CMD_SIZE"
    unfolding paced_def MAX_CMD_SIZE_def option.case length_append by linarith
  have t: "take INPUT_BUF_SIZE d = d" using assms(4) by (simp add: paced_def INPUT_BUF_SIZE_def)
  have e: "map_option (map_prod id pending) (splitBuffer now d r) = Some (cut_line ?p)"
    using splitBuffer_eq [OF assms(1), of now d] o len by (simp add: Let_def)
  then obtain l r' where s: "splitBuffer now d r = Some (l, r')" and c: "(l, pending r') = cut_line ?p"
    by auto
  have pr: "process now (Some d) r = Some (l, r')" using assms(2) False s t by (simp add: process_def)
  have ok: "reader_ok r'" "0 \<le> ser_fd r'" using splitBuffer_ok [OF assms(1) s] assms(2) by simp_all
  show thesis
  proof (cases "LF \<in> set ?f")
    case False
    then have "cut_line ?p = (None, ?p)" using assms(3) by (intro cut_line_none) auto
    then show thesis using that [OF pr ok] c False assms(3,5) by auto
  next
    case True
    have "length (filter (\<lambda>c. c = LF) ?f) \<le> 1"
      using assms(4) by (simp add: paced_def conj_commute cong: filter_cong) (metis (mono_tags, lifting) CR_LF(1) filter_cong)
    with True obtain a b where f: "?f = a @ LF # b" "LF \<notin> set a" "LF \<notin> set b"
      using filter_one_split [of "\<lambda>c. c = LF" ?f] by fastforce
    have c': "cut_line ?p = (Some (pending r @ a), b)"
      using cut_line_append [of "pending r @ a" b] f assms(3) by simp
    obtain x ls' where ls: "ls = x # ls'" using assms(5) f by (cases ls) auto
    have "pending r @ a = x \<and> b @ rest = line_text ls'"
      using first_line_unique [of "pending r @ a" "b @ rest" x "line_text ls'"] assms(3,5,6) f ls
      by (simp add: plain_line_def)
    then show thesis using that [OF pr ok] c c' f ls by auto
  qed
qed

lemma polls_deliver:
  assumes "reader_ok r" and "0 \<le> ser_fd r" and "LF \<notin> set (pending r)" and "\<forall>(n, a) \<in> set as. paced a"
    and "pending r @ arrived as = line_text ls" and "\<forall>l \<in> set ls. plain_line l"
  shows "\<exists>r'. polls as r = Some (ls, r') \<and> pending r' = []"
  using assms
proof (induction as arbitrary: r ls)
  case Nil
  then show ?case by (cases ls) auto
next
  case (Cons x as)
  obtain n a where x: "x = (n, a)" by force
  show ?case
  proof (cases a)
    case None
    then show ?thesis using Cons x by (auto simp: process_def split: option.splits)
  next
    case (Some d)
    have "paced (Some d)" and "pending r @ filter (\<lambda>c. c \<noteq> CR) d @ arrived as = line_text ls"
      using Cons.prems x Some by auto
    from process_stream [OF Cons.prems(1-3) this Cons.prems(6), of n] obtain r' l where
      p: "process n (Some d) r = Some (l, r')" "reader_ok r'" "0 \<le> ser_fd r'" "LF \<notin> set (pending r')"
      and q: "case l of None \<Rightarrow> pending r' @ arrived as = line_text ls
         | Some x \<Rightarrow> \<exists>ls'. ls = x # ls' \<and> pending r' @ arrived as = line_text ls'" .
    show ?thesis
    proof (cases l)
      case None
      then show ?thesis using Cons.IH [of r' ls] Cons.prems p q x Some by auto
    next
      case (Some y)
      then obtain ls' where "ls = y # ls'" "pending r' @ arrived as = line_text ls'" using q by auto
      then show ?thesis using Cons.IH [of r' ls'] Cons.prems p x \<open>a = Some d\<close> Some by auto
    qed
  qed
qed



text \<open>Two lines that arrive together: the second is delivered only when more bytes arrive.\<close>

lemma second_line_waits:
  assumes "0 \<le> ser_fd r"
  shows "process now None r = Some (None, r)"
  using assms by (simp add: process_def)

end
