(* ===== verification/Rgb_Led.thy ===== *)
theory Rgb_Led
  imports Domain_Types
begin

text \<open>
  The status light (\<^verbatim>\<open>infrastructure/src/drivers/rgb_led.cpp\<close>): colours, and the pulses of the
  24-bit protocol.  The pulse peripheral is given by whether its handles were created; the
  symbols sent are the result of a refresh.
\<close>

unbundle bit_operations_syntax
declare One_nat_def [simp del]

text \<open>Duration and level of the two halves of a pulse, in tenths of a microsecond.\<close>

type_synonym symbol = "nat \<times> bool \<times> nat \<times> bool"

record RgbLed =
  led_r :: u8
  led_g :: u8
  led_b :: u8
  led_channel :: bool
  led_encoder :: bool
  led_initialized :: bool

text \<open>The constructor: \<open>channel\<close>, \<open>encoder\<close> and \<open>enable\<close> are the outcomes of the driver's calls.\<close>

definition led_new :: "bool \<Rightarrow> bool \<Rightarrow> bool \<Rightarrow> RgbLed" where
  "led_new channel encoder enable =
     \<lparr>led_r = 0, led_g = 0, led_b = 0, led_channel = channel, led_encoder = encoder,
      led_initialized = (channel \<and> encoder \<and> enable)\<rparr>"

definition setColor :: "u8 \<Rightarrow> u8 \<Rightarrow> u8 \<Rightarrow> RgbLed \<Rightarrow> RgbLed" where
  "setColor r g b l = l\<lparr>led_r := r, led_g := g, led_b := b\<rparr>"

definition bit_symbol :: "bool \<Rightarrow> symbol" where
  "bit_symbol x = (if x then (7, True, 5, False) else (3, True, 9, False))"

text \<open>The array of 25 symbols is filled one after the other; \<^term>\<open>None\<close> is a write behind it.\<close>

definition put_symbol :: "symbol \<Rightarrow> symbol list \<times> nat \<Rightarrow> (symbol list \<times> nat) outcome" where
  "put_symbol x st = (case st of (syms, idx) \<Rightarrow> if idx < length syms then Some (syms[idx := x], idx + 1) else None)"

fun put_bits :: "byte \<Rightarrow> nat \<Rightarrow> symbol list \<times> nat \<Rightarrow> (symbol list \<times> nat) outcome" where
  "put_bits b 0 st = Some st"
| "put_bits b (Suc n) st = Option.bind (put_symbol (bit_symbol (b AND push_bit n 1 \<noteq> 0)) st) (put_bits b n)"

definition reset_symbol :: symbol where "reset_symbol = (0, False, 600, False)"

text \<open>The symbols handed to the peripheral, \<^term>\<open>Some []\<close> where it is not ready.\<close>

definition refresh :: "RgbLed \<Rightarrow> symbol list outcome" where
  "refresh l =
     (if \<not> led_initialized l \<or> \<not> led_channel l \<or> \<not> led_encoder l then Some []
      else Option.bind (put_bits (led_g l) 8 (replicate 25 (0, False, 0, False), 0)) (\<lambda>st.
           Option.bind (put_bits (led_r l) 8 st) (\<lambda>st.
           Option.bind (put_bits (led_b l) 8 st) (\<lambda>st.
           map_option (\<lambda>(syms, idx). take idx syms) (put_symbol reset_symbol st)))))"

definition mode_color :: "TransportMode \<Rightarrow> bool \<Rightarrow> u8 \<times> u8 \<times> u8" where
  "mode_color mode error =
     (if error then (255, 0, 0)
      else case mode of
             TransportMode.UsbActive \<Rightarrow> (0, 0, 0)
           | TransportMode.BleAdvertising \<Rightarrow> (0, 0, 255)
           | TransportMode.BleConnected \<Rightarrow> (0, 255, 0))"

definition setTransportMode :: "TransportMode \<Rightarrow> bool \<Rightarrow> RgbLed \<Rightarrow> (symbol list \<times> RgbLed) outcome" where
  "setTransportMode mode error l =
     (case mode_color mode error of (r, g, b) \<Rightarrow>
        let l1 = setColor r g b l in map_option (\<lambda>syms. (syms, l1)) (refresh l1))"

subsection \<open>What the light receives\<close>

text \<open>The protocol's receiver: a long high pulse is a one; the highest bit comes first.\<close>

definition symbol_bit :: "symbol \<Rightarrow> bool" where
  "symbol_bit x = (case x of (h, _) \<Rightarrow> 5 < h)"

definition decode_byte :: "symbol list \<Rightarrow> byte" where
  "decode_byte xs = horner_sum of_bool 2 (rev (map symbol_bit xs))"

definition byte_symbols :: "byte \<Rightarrow> symbol list" where
  "byte_symbols b = map (\<lambda>i. bit_symbol (bit b i)) (rev [0 ..< 8])"

lemma put_bits_append:
  assumes "idx + n \<le> length syms"
  shows "put_bits b n (syms, idx) =
     Some (take idx syms @ map (\<lambda>i. bit_symbol (bit b i)) (rev [0 ..< n]) @ drop (idx + n) syms, idx + n)"
  using assms
proof (induction n arbitrary: syms idx)
  case (Suc n)
  have t: "b AND push_bit n 1 \<noteq> 0 \<longleftrightarrow> bit b n"
    by (simp add: bit_iff_and_push_bit_not_eq_0)
  have u: "take (Suc idx) (syms[idx := x]) = take idx syms @ [x]" "drop (Suc idx + n) (syms[idx := x]) = drop (Suc idx + n) syms"
    for x using Suc.prems by (simp_all add: take_Suc_conv_app_nth)
  have "Suc idx + n \<le> length (syms[idx := bit_symbol (bit b n)])" using Suc.prems by simp
  from Suc.IH [OF this] show ?case using Suc.prems t u
    by (simp add: put_symbol_def flip: Suc_eq_plus1)
qed simp

lemma refresh_symbols:
  assumes "led_initialized l" "led_channel l" "led_encoder l"
  shows "refresh l = Some (byte_symbols (led_g l) @ byte_symbols (led_r l) @ byte_symbols (led_b l) @ [reset_symbol])"
  using assms by (simp add: refresh_def put_bits_append put_symbol_def byte_symbols_def list_update_append)

lemma length_byte_symbols [simp]: "length (byte_symbols b) = 8"
  by (simp add: byte_symbols_def)

lemma decode_byte_symbols: "decode_byte (byte_symbols b) = b"
proof (rule bit_word_eqI)
  fix k :: nat assume "k < LENGTH(8)"
  moreover have "symbol_bit (bit_symbol x) = x" for x by (simp add: symbol_bit_def bit_symbol_def)
  ultimately show "bit (decode_byte (byte_symbols b)) k = bit b k"
    by (simp add: decode_byte_def byte_symbols_def rev_map comp_def bit_horner_sum_bit_iff)
qed

text \<open>Setting a mode sends exactly 25 symbols, all inside the array, from which the light's
  protocol recovers the mode's colour in the order green, red, blue; the last symbol is the reset.
  A light that was not set up gets nothing.\<close>

theorem transport_mode_reaches_light:
  "case mode_color mode error of (r, g, b) \<Rightarrow>
     \<exists>syms l'. setTransportMode mode error (led_new ch enc en) = Some (syms, l')
       \<and> (if ch \<and> enc \<and> en
          then length syms = 25 \<and> decode_byte (take 8 syms) = g \<and> decode_byte (take 8 (drop 8 syms)) = r
            \<and> decode_byte (take 8 (drop 16 syms)) = b \<and> last syms = reset_symbol
          else syms = [])"
proof -
  obtain r g b where c: "mode_color mode error = (r, g, b)" by (cases "mode_color mode error") auto
  show ?thesis
  proof (cases "ch \<and> enc \<and> en")
    case True
    then show ?thesis using c
      by (simp add: setTransportMode_def setColor_def led_new_def refresh_symbols decode_byte_symbols)
  next
    case False
    then show ?thesis using c by (auto simp: setTransportMode_def setColor_def led_new_def refresh_def)
  qed
qed

end
