(* ===== verification/Temperature.thy ===== *)
theory Temperature
  imports Float_Bounds Domain_Types
begin

text \<open>
  The sensors: the one-wire bus and the temperature sensor on it
  (\<^verbatim>\<open>infrastructure/src/drivers/onewire.cpp\<close>), the analogue input (\<^verbatim>\<open>drivers/adc.cpp\<close>) and the
  thread that publishes both (\<^verbatim>\<open>infrastructure/src/temp_thread.cpp\<close>).  \<open>s n\<close> is the level the
  \<open>n\<close>-th sample of the bus pin finds; the operations on the pin are recorded in order.
\<close>

unbundle bit_operations_syntax
declare One_nat_def [simp del]

subsection \<open>The bus\<close>

datatype pin_op = SetLevel bool | DelayUs nat | Sample | DelayMs nat

record OneWireBus =
  ow_ops :: "pin_op list"
  ow_samples :: nat

definition pin :: "pin_op list \<Rightarrow> OneWireBus \<Rightarrow> OneWireBus" where
  "pin ops w = w\<lparr>ow_ops := ow_ops w @ ops\<rparr>"

definition get_level :: "(nat \<Rightarrow> bool) \<Rightarrow> OneWireBus \<Rightarrow> bool \<times> OneWireBus" where
  "get_level s w = (s (ow_samples w), w\<lparr>ow_ops := ow_ops w @ [Sample], ow_samples := ow_samples w + 1\<rparr>)"

definition bus_reset :: "(nat \<Rightarrow> bool) \<Rightarrow> OneWireBus \<Rightarrow> bool \<times> OneWireBus" where
  "bus_reset s w =
     (let w1 = pin [SetLevel False, DelayUs 480, SetLevel True, DelayUs 75] w;
          (level, w2) = get_level s w1
      in (\<not> level, pin [DelayUs 405] w2))"

definition writeBit1 :: "OneWireBus \<Rightarrow> OneWireBus" where
  "writeBit1 = pin [SetLevel False, DelayUs 6, SetLevel True, DelayUs 64]"

definition writeBit0 :: "OneWireBus \<Rightarrow> OneWireBus" where
  "writeBit0 = pin [SetLevel False, DelayUs 60, SetLevel True, DelayUs 10]"

definition writeByte :: "byte \<Rightarrow> OneWireBus \<Rightarrow> OneWireBus" where
  "writeByte b w = fold (\<lambda>i w. if drop_bit i b AND 1 \<noteq> 0 then writeBit1 w else writeBit0 w) [0 ..< 8] w"

definition readBit :: "(nat \<Rightarrow> bool) \<Rightarrow> OneWireBus \<Rightarrow> bool \<times> OneWireBus" where
  "readBit s w =
     (let (b, w1) = get_level s (pin [SetLevel False, DelayUs 3, SetLevel True, DelayUs 10] w)
      in (b, pin [DelayUs 53] w1))"

definition readByte :: "(nat \<Rightarrow> bool) \<Rightarrow> OneWireBus \<Rightarrow> byte \<times> OneWireBus" where
  "readByte s w =
     fold (\<lambda>i (b, w). let (x, w1) = readBit s w in (if x then b OR push_bit i 1 else b, w1)) [0 ..< 8] (0, w)"

definition skipRom :: "OneWireBus \<Rightarrow> OneWireBus" where "skipRom = writeByte 0xCC"

definition convertT :: "OneWireBus \<Rightarrow> OneWireBus" where "convertT = writeByte 0x44"

fun read_bytes :: "nat \<Rightarrow> (nat \<Rightarrow> bool) \<Rightarrow> OneWireBus \<Rightarrow> byte list \<times> OneWireBus" where
  "read_bytes 0 s w = ([], w)"
| "read_bytes (Suc n) s w =
     (let (b, w1) = readByte s w; (bs, w2) = read_bytes n s w1 in (b # bs, w2))"

definition readScratchpad :: "(nat \<Rightarrow> bool) \<Rightarrow> OneWireBus \<Rightarrow> byte list \<times> OneWireBus" where
  "readScratchpad s w = read_bytes 9 s (writeByte 0xBE w)"

definition readSensor :: "(nat \<Rightarrow> bool) \<Rightarrow> OneWireBus \<Rightarrow> fp option \<times> OneWireBus" where
  "readSensor s w =
     (let (present, w1) = bus_reset s w
      in if \<not> present then (None, w1)
         else let w2 = pin [DelayMs 800] (convertT (skipRom w1));
                  (still, w3) = bus_reset s w2
              in if \<not> still then (None, w3)
                 else let (buf, w4) = readScratchpad s (skipRom w3);
                          raw = push_bit 8 (ucast (buf ! 1) :: u16) OR ucast (buf ! 0);
                          temp = f_div f32 (f_of_int f32 (sint (raw :: i16))) (f32_lit 16 0)
                      in if f_lt temp (f32_lit (- 55) 0) \<or> f_lt (f32_lit 125 0) temp then (None, w4)
                         else (Some temp, w4))"

subsection \<open>The analogue input\<close>

record AdcDriver =
  adc_buf :: "u16 list"
  adc_count :: nat

text \<open>\<open>r\<close> is the value the converter delivers, \<^term>\<open>None\<close> on an error.\<close>

definition readRaw :: "i32 option \<Rightarrow> AdcDriver \<Rightarrow> (SensorError + u16) \<times> AdcDriver" where
  "readRaw r d =
     (case r of
        None \<Rightarrow> (Inl SensorError.AdcReadFailed, d)
      | Some v \<Rightarrow>
          let n = (if length (adc_buf d) \<le> adc_count d then 0 else adc_count d)
          in (Inr (ucast v), d\<lparr>adc_buf := (adc_buf d)[n := ucast v], adc_count := n + 1\<rparr>))"

text \<open>The product of two \<^verbatim>\<open>int32_t\<close> must fit; both factors are non-negative.\<close>

definition calibratedFromRaw :: "u16 \<Rightarrow> i16 \<Rightarrow> u16 \<Rightarrow> i16 outcome" where
  "calibratedFromRaw a b raw =
     (let p = int (unat a) * int (unat raw)
      in if p < 2 ^ 31 then Some (word_of_int (max (- (2 ^ 15)) (min (2 ^ 15 - 1) (p div 1000 + sint b)))) else None)"

definition calibratedMv :: "u16 \<Rightarrow> i16 \<Rightarrow> i32 option \<Rightarrow> AdcDriver \<Rightarrow> (i16 \<times> AdcDriver) outcome" where
  "calibratedMv a b r d =
     (case readRaw r d of
        (Inl e, d1) \<Rightarrow> Some (0, d1)
      | (Inr raw, d1) \<Rightarrow> map_option (\<lambda>mv. (mv, d1)) (calibratedFromRaw a b raw))"

subsection \<open>The thread\<close>

definition publish_temperature :: "fp option \<Rightarrow> 'g globals_scheme \<Rightarrow> 'g globals_scheme outcome" where
  "publish_temperature t g =
     (case t of
        Some v \<Rightarrow> map_option (\<lambda>c. g\<lparr>gTempCX100 := c\<rparr>) (f_to_i32 (f_mul f32 v (f32_lit 100 0)))
      | None \<Rightarrow> Some (g\<lparr>gTempCX100 := - 99999\<rparr>))"

definition publish_mv :: "u16 \<Rightarrow> i16 \<Rightarrow> i32 option \<Rightarrow> AdcDriver option \<Rightarrow> 'g globals_scheme
    \<Rightarrow> (AdcDriver option \<times> 'g globals_scheme) outcome" where
  "publish_mv a b r adc g =
     (case adc of
        None \<Rightarrow> Some (None, g)
      | Some d \<Rightarrow>
          map_option (\<lambda>(mv, d1). (Some d1, g\<lparr>gLastMv := (if sint mv < 0 then 0 else mv)\<rparr>)) (calibratedMv a b r d))"

text \<open>One round: the sensor, then the input with the current coefficients.\<close>

definition temp_round :: "(nat \<Rightarrow> bool) \<Rightarrow> u16 \<Rightarrow> i16 \<Rightarrow> i32 option
    \<Rightarrow> OneWireBus \<times> AdcDriver option \<times> 'g globals_scheme \<Rightarrow> (OneWireBus \<times> AdcDriver option \<times> 'g globals_scheme) outcome" where
  "temp_round s a b r st =
     (case st of (w, adc, g) \<Rightarrow>
        let (t, w1) = readSensor s w
        in Option.bind (publish_temperature t g) (\<lambda>g1.
             map_option (\<lambda>(adc1, g2). (w1, adc1, g2)) (publish_mv a b r adc g1)))"

subsection \<open>What is read from the bus\<close>

lemma pin_samples [simp]: "ow_samples (pin ops w) = ow_samples w"
  by (simp add: pin_def)

lemma writeByte_samples [simp]: "ow_samples (writeByte b w) = ow_samples w"
proof -
  have "ow_samples (fold (\<lambda>i w. if drop_bit i b AND 1 \<noteq> 0 then writeBit1 w else writeBit0 w) xs w) = ow_samples w" for xs
    by (induction xs arbitrary: w) (simp_all add: writeBit1_def writeBit0_def)
  then show ?thesis by (simp add: writeByte_def)
qed

definition after_bit :: "(nat \<Rightarrow> bool) \<Rightarrow> OneWireBus \<Rightarrow> OneWireBus" where
  "after_bit s w = snd (readBit s w)"

lemma readBit_simps [simp]: "readBit s w = (s (ow_samples w), after_bit s w)"
  "ow_samples (after_bit s w) = ow_samples w + 1"
  by (simp_all add: readBit_def get_level_def after_bit_def)

text \<open>The byte whose bits are the eight samples from the \<open>n\<close>-th on, the lowest first.\<close>

definition bits_byte :: "(nat \<Rightarrow> bool) \<Rightarrow> nat \<Rightarrow> byte" where
  "bits_byte s n = horner_sum of_bool 2 (map s [n ..< n + 8])"

lemma bit_bits_byte: "bit (bits_byte s n) k \<longleftrightarrow> k < 8 \<and> s (n + k)"
  by (auto simp: bits_byte_def bit_horner_sum_bit_iff)

definition add_bit :: "(nat \<Rightarrow> bool) \<Rightarrow> nat \<Rightarrow> byte \<Rightarrow> byte" where
  "add_bit p i b = (if p i then b OR push_bit i 1 else b)"

lemma bit_fold_add: "bit (fold (add_bit p) xs b) k \<longleftrightarrow> bit b k \<or> k < 8 \<and> k \<in> set xs \<and> p k"
proof (induction xs arbitrary: b)
  case (Cons x xs)
  have "bit (add_bit p x b) k \<longleftrightarrow> bit b k \<or> k < 8 \<and> k = x \<and> p k"
    by (auto simp: add_bit_def bit_or_iff bit_exp_iff dest: bit_imp_le_length)
  with Cons show ?case by auto
qed simp

lemma read_loop:
  assumes "ow_samples w = c + i"
  shows "fold (\<lambda>i (b, w). let (x, w1) = readBit s w in (if x then b OR push_bit i 1 else b, w1)) [i ..< i + n] (b, w)
     = (fold (add_bit (\<lambda>k. s (c + k))) [i ..< i + n] b, (after_bit s ^^ n) w)"
  using assms
proof (induction n arbitrary: i b w)
  case (Suc n)
  have "[i ..< i + Suc n] = i # [Suc i ..< Suc i + n]" by (simp add: upt_rec)
  moreover have "ow_samples (after_bit s w) = c + Suc i" using Suc.prems by simp
  ultimately show ?case using Suc.IH [of "after_bit s w" "Suc i"] Suc.prems
    by (simp add: add_bit_def funpow_swap1)
qed simp

lemma after_bits_samples: "ow_samples ((after_bit s ^^ n) w) = ow_samples w + n"
  by (induction n) simp_all

lemma readByte_eq:
  "fst (readByte s w) = bits_byte s (ow_samples w)" "ow_samples (snd (readByte s w)) = ow_samples w + 8"
proof -
  have r: "readByte s w = (fold (add_bit (\<lambda>k. s (ow_samples w + k))) [0 ..< 8] 0, (after_bit s ^^ 8) w)"
    using read_loop [of w "ow_samples w" 0 s 8 0] by (simp add: readByte_def)
  then show "fst (readByte s w) = bits_byte s (ow_samples w)"
    by (auto intro!: bit_eqI simp: bit_fold_add bit_bits_byte)
  show "ow_samples (snd (readByte s w)) = ow_samples w + 8"
    unfolding r by (simp add: after_bits_samples)
qed

text \<open>The first two bytes of the scratchpad as a signed number, the lowest bit first.\<close>

definition sensor_word :: "(nat \<Rightarrow> bool) \<Rightarrow> i16" where
  "sensor_word s = horner_sum of_bool 2 (map s [2 ..< 18])"

lemma read_bytes_fst:
  "fst (read_bytes (Suc n) s w) = fst (readByte s w) # fst (read_bytes n s (snd (readByte s w)))"
  by (simp add: Let_def split_def)

lemma read_two:
  "fst (read_bytes (Suc (Suc n)) s w) ! 0 = bits_byte s (ow_samples w)"
  "fst (read_bytes (Suc (Suc n)) s w) ! Suc 0 = bits_byte s (ow_samples w + 8)"
  unfolding read_bytes_fst nth_Cons_0 nth_Cons_Suc readByte_eq by (rule refl)+

lemma bit_samples:
  "bit (horner_sum of_bool 2 (map s [n ..< n + m]) :: 'a::len word) k \<longleftrightarrow> k < LENGTH('a) \<and> k < m \<and> s (n + k)"
  by (auto simp: bit_horner_sum_bit_iff)

lemma bit_sensor_word: "bit (sensor_word s) k \<longleftrightarrow> k < 16 \<and> s (2 + k)"
proof -
  have e: "[2 ..< 18] = [2 ..< 2 + 16 :: nat]" by simp
  show ?thesis unfolding sensor_word_def e bit_samples by simp
qed

lemma raw_word:
  "push_bit 8 (ucast (bits_byte s 10) :: u16) OR ucast (bits_byte s 2) = sensor_word s"
proof (rule bit_word_eqI)
  fix k :: nat assume "k < LENGTH(16)"
  then have k: "k < 16" by simp
  have "8 \<le> k \<Longrightarrow> 10 + (k - 8) = 2 + k" by simp
  with k show "bit (push_bit 8 (ucast (bits_byte s 10) :: u16) OR ucast (bits_byte s 2)) k = bit (sensor_word s) k"
    unfolding bit_sensor_word bit_or_iff bit_push_bit_iff bit_ucast_iff bit_bits_byte by auto
qed

lemma reset_simps: "fst (bus_reset s w) \<longleftrightarrow> \<not> s (ow_samples w)" "ow_samples (snd (bus_reset s w)) = ow_samples w + 1"
  by (simp_all add: bus_reset_def get_level_def Let_def)

lemma command_samples [simp]: "ow_samples (skipRom w) = ow_samples w" "ow_samples (convertT w) = ow_samples w"
  by (simp_all add: skipRom_def convertT_def)

definition celsius :: "i16 \<Rightarrow> fp" where
  "celsius k = f_div f32 (f_of_int f32 (sint k)) (f32_lit 16 0)"

lemma readSensor_value:
  assumes "ow_samples w = 0"
  shows "fst (readSensor s w) =
     (if s 0 \<or> s 1 then None
      else if f_lt (celsius (sensor_word s)) (f32_lit (- 55) 0) \<or> f_lt (f32_lit 125 0) (celsius (sensor_word s)) then None
      else Some (celsius (sensor_word s)))"
proof -
  have "9 = Suc (Suc 7)" by simp
  then have "fst (readScratchpad s v) ! 0 = bits_byte s 2" "fst (readScratchpad s v) ! Suc 0 = bits_byte s 10"
    if "ow_samples v = 2" for v
    using read_two [of 7 s "writeByte 0xBE v"] that by (simp_all add: readScratchpad_def)
  then show ?thesis using assms reset_simps [of s]
    by (simp add: readSensor_def Let_def split_def raw_word celsius_def One_nat_def)
qed

subsection \<open>Exact arithmetic on short binary fractions\<close>

lemma dyadic_canon:
  assumes "n < 2 ^ 24" and "- 100 \<le> e" and "e \<le> 100"
  shows "\<exists>x. canon f32 x \<and> fval x = of_int (sgn_val s n) * 2 powi e"
proof (cases "n = 0")
  case True
  then show ?thesis using zero_canon by (intro exI [of _ "fp_zero f32 s"]) (simp add: sgn_val_def)
next
  case False
  then have b: "n < 2 ^ blen n" "2 ^ (blen n - 1) \<le> n" using blen_bounds [of n] by auto
  have "(2::nat) ^ (blen n - 1) < 2 ^ 24" using b(2) assms(1) by linarith
  then have "blen n - 1 < 24" by (rule power_less_imp_less_exp [rotated]) simp
  then have l: "blen n \<le> 24" by simp
  have l0: "0 < blen n" using False b(1) by (cases "blen n") auto
  define j where "j = 24 - blen n"
  have "n * 2 ^ j < 2 ^ blen n * 2 ^ j" using b(1) by simp
  also have "\<dots> = 2 ^ 24" using l by (simp add: j_def power_add [symmetric])
  finally have hi: "n * 2 ^ j < 2 ^ 24" .
  have "(2::nat) ^ 23 = 2 ^ (blen n - 1) * 2 ^ j" using l l0 by (simp add: j_def power_add [symmetric])
  also have "\<dots> \<le> n * 2 ^ j" using b(2) by simp
  finally have lo: "2 ^ 23 \<le> n * 2 ^ j" .
  let ?x = "FFin s (n * 2 ^ j) (e - int j)"
  have "canon f32 ?x" using hi lo assms(2,3) by (simp add: canon_def f32_def j_def)
  moreover have "(2::real) ^ j * 2 powi (e - int j) = 2 powi e"
    by (simp add: power_int_diff)
  then have "fval ?x = of_int (sgn_val s n) * 2 powi e" by (simp add: sgn_val_def)
  ultimately show ?thesis by blast
qed

lemma between_same: "between a a x \<Longrightarrow> is_fin x \<and> fval x = fval a"
  by (auto simp: between_def)

lemma f_trunc_fval:
  assumes "is_fin x"
  shows "f_trunc x = Some (if 0 \<le> fval x then \<lfloor>fval x\<rfloor> else - \<lfloor>- fval x\<rfloor>)"
proof (cases "0 \<le> fval x")
  case True
  obtain N :: nat where "fval x \<le> real N" using real_arch_simple by blast
  then obtain k where "f_trunc x = Some (int k)" "real k \<le> fval x" "fval x < real k + 1"
    using f_trunc_bounds [OF assms True] by blast
  then have "f_trunc x = Some \<lfloor>fval x\<rfloor>" using floor_unique [of "int k" "fval x"] by simp
  then show ?thesis using True by simp
next
  case False
  then have n: "0 \<le> fval (f_neg x)" using fval_neg [OF assms] by simp
  obtain N :: nat where "fval (f_neg x) \<le> real N" using real_arch_simple by blast
  then obtain k where k: "f_trunc (f_neg x) = Some (int k)" "real k \<le> fval (f_neg x)" "fval (f_neg x) < real k + 1"
    using f_trunc_bounds [of "f_neg x" N] n assms by auto
  have "f_trunc (f_neg x) = map_option uminus (f_trunc x)" using assms by (cases x) (auto simp: sgn_val_def)
  with k(1) have "f_trunc x = Some (- int k)" by (cases "f_trunc x") auto
  moreover have "int k = \<lfloor>- fval x\<rfloor>" using k(2,3) fval_neg [OF assms] floor_unique [of "int k" "- fval x"] by simp
  ultimately show ?thesis using False by simp
qed

text \<open>An integer below \<open>2 ^ 24\<close> scaled by a power of two is a \<^verbatim>\<open>float\<close>.\<close>

lemma exact_canon:
  fixes z e :: int
  assumes "\<bar>z\<bar> < 2 ^ 24" and "- 100 \<le> e" and "e \<le> 100"
  obtains x where "canon f32 x" and "fval x = of_int z * 2 powi e"
proof -
  have "z = sgn_val (z < 0) (nat \<bar>z\<bar>)" by (simp add: sgn_val_def)
  moreover have "nat \<bar>z\<bar> < 2 ^ 24" using assms(1) by (simp add: nat_less_iff)
  ultimately show thesis using that dyadic_canon [OF _ assms(2,3), of "nat \<bar>z\<bar>" "z < 0"] by auto
qed

lemma exact_of_int:
  assumes "\<bar>z\<bar> < 2 ^ 24"
  shows "is_fin (f_of_int f32 z)" and "fval (f_of_int f32 z) = of_int z"
proof -
  obtain x where "canon f32 x" "fval x = of_int z * 2 powi 0" using exact_canon [OF assms, of 0] by auto
  then show "is_fin (f_of_int f32 z)" "fval (f_of_int f32 z) = of_int z"
    using between_same [OF f_of_int_between [of f32 x x z]] by simp_all
qed

lemma exact_div:
  assumes "is_fin x" "is_fin y" "fval y \<noteq> 0" and "fval x / fval y = of_int z * 2 powi e"
    and "\<bar>z\<bar> < 2 ^ 24" and "- 100 \<le> e" and "e \<le> 100"
  shows "is_fin (f_div f32 x y)" and "fval (f_div f32 x y) = of_int z * 2 powi e"
proof -
  obtain v where "canon f32 v" "fval v = of_int z * 2 powi e" using exact_canon [OF assms(5-7)] by auto
  then show "is_fin (f_div f32 x y)" "fval (f_div f32 x y) = of_int z * 2 powi e"
    using between_same [OF f_div_between [of f32 x y v v]] assms(1-4) by simp_all
qed

lemma exact_mul:
  assumes "is_fin x" "is_fin y" and "fval x * fval y = of_int z * 2 powi e"
    and "\<bar>z\<bar> < 2 ^ 24" and "- 100 \<le> e" and "e \<le> 100"
  shows "is_fin (f_mul f32 x y)" and "fval (f_mul f32 x y) = of_int z * 2 powi e"
proof -
  obtain v where "canon f32 v" "fval v = of_int z * 2 powi e" using exact_canon [OF assms(4-6)] by auto
  then show "is_fin (f_mul f32 x y)" "fval (f_mul f32 x y) = of_int z * 2 powi e"
    using between_same [OF f_mul_between [of f32 x y v v]] assms(1-3) by simp_all
qed

lemma int_literal: "\<bar>z\<bar> < 2 ^ 24 \<Longrightarrow> is_fin (f32_lit z 0) \<and> fval (f32_lit z 0) = of_int z"
  using exact_of_int [of z] by (simp add: f32_lit_def f_of_int_def)

subsection \<open>The published temperature\<close>

lemma celsius_value: "is_fin (celsius k)" "fval (celsius k) = of_int (sint k) / 16"
proof -
  have b: "\<bar>sint k\<bar> \<le> 2 ^ 15" using sint_lt [of k] sint_ge [of k] by simp
  then have "\<bar>sint k\<bar> < 2 ^ 24" by simp
  note i = exact_of_int [OF this] and l = int_literal [of 16]
  note e = exact_div [OF i(1) conjunct1 [OF l], of "sint k" "- 4"]
  show "is_fin (celsius k)" "fval (celsius k) = of_int (sint k) / 16"
    using e i(2) l b by (simp_all add: celsius_def power_int_minus)
qed

lemma hundredths_value:
  assumes "\<bar>sint k\<bar> \<le> 2000"
  shows "f_to_i32 (f_mul f32 (celsius k) (f32_lit 100 0))
     = Some (word_of_int (if 0 \<le> sint k then sint k * 25 div 4 else - ((- sint k) * 25 div 4)))"
proof -
  let ?x = "f_mul f32 (celsius k) (f32_lit 100 0)"
  note l = int_literal [of 100]
  have v: "fval (celsius k) * fval (f32_lit 100 0) = of_int (sint k * 25) * 2 powi (- 2)"
    using l celsius_value(2) [of k] by (simp add: power_int_minus)
  have "is_fin ?x" "fval ?x = of_int (sint k * 25) * 2 powi (- 2)"
    by (rule exact_mul [OF celsius_value(1) conjunct1 v]; use l assms in simp)+
  then have x: "is_fin ?x" "fval ?x = of_int (sint k * 25) / of_int 4" "- fval ?x = of_int (- sint k * 25) / of_int 4"
    by (simp_all add: power_int_minus)
  have pos: "0 \<le> real_of_int (sint k * 25) / of_int 4 \<longleftrightarrow> 0 \<le> sint k"
    unfolding zero_le_divide_iff of_int_0_le_iff by simp
  have t: "f_trunc ?x = Some (if 0 \<le> sint k then sint k * 25 div 4 else - ((- sint k) * 25 div 4))"
    unfolding f_trunc_fval [OF x(1)] x(3) unfolding x(2) floor_divide_of_int_eq pos by simp
  show ?thesis unfolding f_to_i32_def t using assms by (auto simp: to_range_def)
qed

lemma celsius_range:
  "f_lt (celsius k) (f32_lit (- 55) 0) \<longleftrightarrow> sint k < - 880" "f_lt (f32_lit 125 0) (celsius k) \<longleftrightarrow> 2000 < sint k"
proof -
  have "(of_int (sint k) / 16 < (- 55 :: real)) \<longleftrightarrow> of_int (sint k) < real_of_int (- 880)"
    "((125 :: real) < of_int (sint k) / 16) \<longleftrightarrow> real_of_int 2000 < of_int (sint k)" by auto
  then show "f_lt (celsius k) (f32_lit (- 55) 0) \<longleftrightarrow> sint k < - 880"
    "f_lt (f32_lit 125 0) (celsius k) \<longleftrightarrow> 2000 < sint k"
    using f_lt_fin [OF celsius_value(1) conjunct1 [OF int_literal [of "- 55"]], of k]
      f_lt_fin [OF conjunct1 [OF int_literal [of 125]] celsius_value(1), of k]
      int_literal [of "- 55"] int_literal [of 125]
    unfolding celsius_value(2) of_int_less_iff by simp_all
qed

definition published_hundredths :: "(nat \<Rightarrow> bool) \<Rightarrow> int" where
  "published_hundredths s =
     (let k = sint (sensor_word s)
      in if s 0 \<or> s 1 \<or> k < - 880 \<or> 2000 < k then - 99999
         else if 0 \<le> k then k * 25 div 4 else - ((- k) * 25 div 4))"

text \<open>C27.  Whatever the sensor answers, a round publishes a defined temperature: the sentinel when
  there is no presence pulse before or after the conversion or the value is outside the sensor's
  range, and otherwise the raw count \<open>k\<close>, sixteenths of a degree, as \<open>k * 6.25\<close> hundredths cut
  off towards zero, with no rounding error.  Nothing else that is published changes.\<close>

theorem temperature_is_published:
  "publish_temperature (fst (readSensor s \<lparr>ow_ops = ops, ow_samples = 0\<rparr>)) g
     = Some (g\<lparr>gTempCX100 := word_of_int (published_hundredths s)\<rparr>)"
  using hundredths_value [of "sensor_word s"]
  by (auto simp: publish_temperature_def readSensor_value celsius_range published_hundredths_def Let_def)

text \<open>The code does not check the checksum of the scratchpad: a sensor that stops answering after
  the second presence pulse leaves the bus high, and the temperature read is minus one sixteenth
  of a degree, published as \<open>- 6\<close>.\<close>

lemma silent_sensor_reads_as_cold: "published_hundredths (\<lambda>n. 2 \<le> n) = - 6"
proof -
  have "sensor_word (\<lambda>n. 2 \<le> n) = - 1"
    by (rule bit_word_eqI) (simp add: bit_sensor_word)
  then show ?thesis by (simp add: published_hundredths_def Let_def)
qed

subsection \<open>Bits on the wire\<close>

text \<open>The levels a device reads that samples 15 us after each falling edge of a written byte: low
  when the line is still held down then.\<close>

fun slot_levels :: "pin_op list \<Rightarrow> bool list" where
  "slot_levels (SetLevel False # DelayUs low # SetLevel True # DelayUs high # ops)
     = (low < 15) # slot_levels ops"
| "slot_levels _ = []"

fun slots_in_time :: "pin_op list \<Rightarrow> bool" where
  "slots_in_time (SetLevel False # DelayUs low # SetLevel True # DelayUs high # ops)
     \<longleftrightarrow> 1 \<le> low \<and> (low < 15 \<or> 60 \<le> low) \<and> 60 \<le> low + high \<and> low + high \<le> 120 \<and> slots_in_time ops"
| "slots_in_time ops \<longleftrightarrow> ops = []"

definition write_slot :: "bool \<Rightarrow> pin_op list" where
  "write_slot b = (if b then [SetLevel False, DelayUs 6, SetLevel True, DelayUs 64]
                   else [SetLevel False, DelayUs 60, SetLevel True, DelayUs 10])"

lemma writeByte_ops:
  "ow_ops (writeByte b w) = ow_ops w @ concat (map (\<lambda>i. write_slot (bit b i)) [0 ..< 8])"
proof -
  have "ow_ops (fold (\<lambda>i w. if drop_bit i b AND 1 \<noteq> 0 then writeBit1 w else writeBit0 w) xs w)
      = ow_ops w @ concat (map (\<lambda>i. write_slot (bit b i)) xs)" for xs
    by (induction xs arbitrary: w)
      (simp_all add: writeBit1_def writeBit0_def pin_def write_slot_def bit_iff_odd_drop_bit and_one_eq mod2_eq_if)
  then show ?thesis by (simp add: writeByte_def)
qed

lemma slots_of_writes:
  "slot_levels (concat (map write_slot bs)) = bs" "slots_in_time (concat (map write_slot bs))"
  by (induction bs) (auto simp: write_slot_def)

text \<open>A device that follows the bus timing reads back exactly the bits of a written byte, lowest
  first; every slot lasts between 60 and 120 us and is held low for 1 to 15 us or at least 60.\<close>

theorem written_byte_is_read:
  "\<exists>ops. ow_ops (writeByte b w) = ow_ops w @ ops \<and> slots_in_time ops
     \<and> slot_levels ops = map (bit b) [0 ..< 8]
     \<and> bits_byte (\<lambda>n. slot_levels ops ! n) 0 = b"
proof -
  let ?ops = "concat (map write_slot (map (bit b) [0 ..< 8]))"
  have s: "slot_levels ?ops = map (bit b) [0 ..< 8]" "slots_in_time ?ops" by (rule slots_of_writes)+
  have "bits_byte (\<lambda>n. map (bit b) [0 ..< 8] ! n) 0 = b"
    by (rule bit_word_eqI) (simp add: bit_bits_byte del: upt_conv_Cons)
  then show ?thesis using s writeByte_ops [of b w] by (intro exI [of _ ?ops]) (simp add: comp_def)
qed

subsection \<open>The published voltage\<close>

lemma calibrated_value:
  assumes "unat raw \<le> 4095"
  shows "calibratedFromRaw a b raw
     = Some (word_of_int (max (- 32768) (min 32767 (int (unat a) * int (unat raw) div 1000 + sint b))))"
proof -
  have "unat a * unat raw \<le> 65535 * 4095"
    using unsigned_less [of a, where ?'a = nat] assms by (intro mult_le_mono) auto
  then have "int (unat a * unat raw) \<le> int (65535 * 4095)" by (rule iffD2 [OF of_nat_le_iff])
  then show ?thesis by (simp add: calibratedFromRaw_def Let_def)
qed

lemma sint_clamped: "- 32768 \<le> v \<Longrightarrow> v \<le> 32767 \<Longrightarrow> sint (word_of_int v :: i16) = v"
  by (simp add: sint_sbintrunc' signed_take_bit_int_eq_self)

lemma twelve_bits:
  assumes "0 \<le> sint (v :: i32)" and "sint v \<le> 4095"
  shows "int (unat (ucast v :: u16)) = sint v"
proof -
  have "uint v = sint v" using assms by (simp add: uint_sint take_bit_int_eq_self)
  then have "uint (ucast v :: u16) = sint v" using assms by (simp add: unsigned_ucast_eq take_bit_int_eq_self)
  then show ?thesis by simp
qed

text \<open>For a twelve-bit reading the voltage published is defined whatever the coefficients:
  the calibrated value cut to the range 0 to 32767, and the sample buffer keeps its 64 places.\<close>

theorem voltage_is_published:
  assumes "0 \<le> sint v" and "sint v \<le> 4095" and "length (adc_buf d) = 64"
  shows "\<exists>d'. publish_mv a b (Some v) (Some d) g
      = Some (Some d', g\<lparr>gLastMv := word_of_int (max 0 (min 32767 (int (unat a) * sint v div 1000 + sint b)))\<rparr>)
    \<and> length (adc_buf d') = 64 \<and> adc_count d' \<le> 64"
proof -
  note t = twelve_bits [OF assms(1,2)]
  define z where "z = int (unat a) * sint v div 1000 + sint b"
  have c: "calibratedFromRaw a b (ucast v) = Some (word_of_int (max (- 32768) (min 32767 z)))"
    using calibrated_value [of "ucast v" a b] t assms(2) by (simp add: z_def)
  have "sint (word_of_int (max (- 32768) (min 32767 z)) :: i16) = max (- 32768) (min 32767 z)"
    by (rule sint_clamped) auto
  then have m: "(if sint (word_of_int (max (- 32768) (min 32767 z)) :: i16) < 0 then 0
       else word_of_int (max (- 32768) (min 32767 z))) = (word_of_int (max 0 (min 32767 z)) :: u16)"
    by (auto simp: max_def min_def)
  show ?thesis unfolding z_def [symmetric]
    by (simp add: publish_mv_def calibratedMv_def readRaw_def Let_def c m assms(3))
qed

theorem voltage_is_published_witness:
  "\<exists>d'. publish_mv 1500 (- 10) (Some 2000) (Some \<lparr>adc_buf = replicate 64 0, adc_count = 64\<rparr>) globals_init
     = Some (Some d', globals_init\<lparr>gLastMv := 2990\<rparr>)"
  using voltage_is_published [of 2000 "\<lparr>adc_buf = replicate 64 0, adc_count = 64\<rparr>" 1500 "- 10" globals_init]
  by auto

end
