(* ===== verification/Main_Loop.thy ===== *)
theory Main_Loop
  imports Burette Dispatch Broadcast Ble Serial_Reader Rgb_Led Temperature
begin

text \<open>
  The main loop (\<^verbatim>\<open>main/main.cpp\<close>): the boot steps that load the settings, and one iteration in the
  order of the code: ticks, broadcasts, the status light, the transport state, the commands
  received over BLE, the serial line, and the result of the motor.  \<open>ms_out\<close> are the texts written
  to the serial port, oldest first, and \<open>ms_light\<close> the pulse trains sent to the light.  The other
  tasks change the shared state between two operations of the loop; the model leaves it as it is
  within one iteration and makes no assumption about it between two.
\<close>

unbundle bit_operations_syntax
declare One_nat_def [simp del]

record 'w main_state =
  ms_app :: "'w app"
  ms_ble :: BleManager
  ms_serial :: SerialReader
  ms_out :: "string list"
  ms_sched :: TickScheduler
  ms_asm :: ApplicationStateMachine
  ms_led :: RgbLed
  ms_ledMode :: TransportMode
  ms_ledError :: bool
  ms_light :: "symbol list list"

subsection \<open>Boot\<close>

text \<open>Settings: defaults where nothing is stored, the stall threshold, and the calibration cache.\<close>

definition boot_settings :: "'w nvs_api \<Rightarrow> 'w app \<Rightarrow> 'w app" where
  "boot_settings api s =
     (let w1 = nvsInit api (st_flash (ap_store s));
          (sg, w2) = stallguardReadThreshold api w1;
          s1 = s\<lparr>ap_store := (ap_store s)\<lparr>st_flash := w2\<rparr>, gStallGuardThreshold := sg\<rparr>;
          (bootCal, st) = calibrationRead api (ap_store s1);
          s2 = s1\<lparr>ap_store := st\<rparr>
      in case bootCal of
           Inl _ \<Rightarrow> s2
         | Inr cal \<Rightarrow> s2\<lparr>ap_store := st\<lparr>gCalCache := Some cal\<rparr>\<rparr>)"

text \<open>\<^verbatim>\<open>adcSampleRead\<close>: 0 without a driver or on an error; \<open>r\<close> is what the converter delivers.\<close>

definition adcSampleRead :: "AdcDriver option \<Rightarrow> i32 option \<Rightarrow> u16" where
  "adcSampleRead adc r =
     (case adc of
        None \<Rightarrow> 0
      | Some d \<Rightarrow> (case fst (readRaw r d) of Inl _ \<Rightarrow> 0 | Inr raw \<Rightarrow> raw))"

subsection \<open>Sending\<close>

definition write_serial :: "string \<Rightarrow> 'w main_state \<Rightarrow> 'w main_state" where
  "write_serial s m = m\<lparr>ms_out := serial_write (ms_serial m) s (ms_out m)\<rparr>"

definition notify :: "string \<Rightarrow> 'w main_state \<Rightarrow> 'w main_state" where
  "notify s m = m\<lparr>ms_ble := ble_notify (take MAX_RSP_SIZE s) (ms_ble m)\<rparr>"

definition terminated :: "string \<Rightarrow> string" where
  "terminated s = (if length s < MAX_RSP_SIZE then s @ [LF] else s)"

definition sendResponse :: "CommandResponse \<Rightarrow> 'w main_state \<Rightarrow> 'w main_state" where
  "sendResponse rsp m =
     (let written = serializeToBuffer rsp
      in if 0 < length written
         then let text = terminated written in notify text (write_serial text m)
         else m)"

subsection \<open>Broadcast\<close>

definition broadcast_event :: "'w main_state \<Rightarrow> BroadcastEvent" where
  "broadcast_event m =
     (let s = ms_app m
      in \<lparr>be_tick = gTick (ms_sched m), be_tempCX100 = gTempCX100 s, be_mv = gLastMv s, be_vlv = gValvePosition s,
          be_brt = gBuretteState s, be_volumeMl = gVolumeMl s, be_speedMlMin = gSpeedMlMin s,
          be_limitFull = gStopFull s, be_limitEmpty = gStopEmpty s,
          be_usbSerialConnected = gUsbHandshakeReceived s, be_bleConnected = ble_isConnected (ms_ble m),
          be_stepperDrvConnected = True, be_stepperDrvOtpw = False, be_stepperDrvOt = False,
          be_stallGuardValue = 0, be_isStalled = False, be_stallGuardThreshold = gStallGuardThreshold s,
          be_stepsTaken = gDispensedSteps s\<rparr>)"

definition send_compact :: "string \<Rightarrow> 'w main_state \<Rightarrow> 'w main_state" where
  "send_compact sv m =
     (if sv = '''' then m
      else notify (terminated sv) (write_serial [LF] (write_serial sv m)))"

definition send_extended :: "string \<Rightarrow> 'w main_state \<Rightarrow> 'w main_state" where
  "send_extended sv m =
     (if sv = '''' then m
      else let s = ms_app m
           in m\<lparr>ms_app := s\<lparr>ap_wsQueue :=
                 snd (xQueueSend WS_BROADCAST_QUEUE_DEPTH (take MAX_RSP_SIZE sv) (ap_wsQueue s))\<rparr>\<rparr>)"

definition do_broadcast :: "'w main_state \<Rightarrow> 'w main_state" where
  "do_broadcast m =
     (let s = ms_app m;
          m1 = m\<lparr>ms_app := s\<lparr>gSpeedMlMin := (if 0 < gSpeed s then f32_lit 100 1 else f32_lit 0 1)\<rparr>\<rparr>;
          e = broadcast_event m1
      in send_extended (serializeBroadcastExtended e) (send_compact (serializeBroadcastCompact e) m1))"

text \<open>The ticks of the scheduler and of the state machine, and the broadcast when it is due.\<close>

definition tick_step :: "'w main_state \<Rightarrow> 'w main_state" where
  "tick_step m =
     (let sc1 = scheduler_tick (ms_sched m);
          asm1 = fst (asm_tick (ms_asm m) (gTick sc1));
          (sc2, due) = shouldBroadcast sc1;
          m1 = m\<lparr>ms_sched := sc2, ms_asm := asm1\<rparr>
      in if due then do_broadcast m1 else m1)"

subsection \<open>Light and transport\<close>

definition wanted_light :: "'w main_state \<Rightarrow> TransportMode \<times> bool" where
  "wanted_light m =
     (if gUsbHandshakeReceived (ms_app m) then (TransportMode.UsbActive, False)
      else if gBleError (ms_app m) then (TransportMode.BleAdvertising, True)
      else if ble_isConnected (ms_ble m) then (TransportMode.BleConnected, False)
      else (TransportMode.BleAdvertising, False))"

definition light_step :: "'w main_state \<Rightarrow> 'w main_state outcome" where
  "light_step m =
     (let (mode, err) = wanted_light m
      in if mode \<noteq> ms_ledMode m \<or> err \<noteq> ms_ledError m
         then map_option (\<lambda>(syms, led).
                m\<lparr>ms_ledMode := mode, ms_ledError := err, ms_led := led, ms_light := ms_light m @ [syms]\<rparr>)
              (setTransportMode mode err (ms_led m))
         else Some m)"

definition transport_step :: "'w main_state \<Rightarrow> 'w main_state" where
  "transport_step m =
     (let t = (if gUsbHandshakeReceived (ms_app m) then TransportState.UsbActive
               else if ble_isConnected (ms_ble m) then TransportState.BleConnected
               else TransportState.BleDisconnected)
      in m\<lparr>ms_asm := setTransportState (ms_asm m) t\<rparr>)"

subsection \<open>Commands\<close>

text \<open>One line from either side: \<open>json\<close> is the JSON parser, \<open>cb\<close> the ADC callback.\<close>

definition c_string :: "string \<Rightarrow> string" where
  "c_string s = takeWhile (\<lambda>c. c \<noteq> CHR 0x00) s"

definition handle_line ::
  "'w nvs_api \<Rightarrow> (nat \<Rightarrow> u16) option \<Rightarrow> (string \<Rightarrow> json option) \<Rightarrow> string \<Rightarrow> 'w main_state \<Rightarrow> 'w main_state outcome" where
  "handle_line api cb json line m =
     (case parseCommand json line of
        Inl _ \<Rightarrow>
          Some (sendResponse ((makeErrorResponse ''invalid_params'')\<lparr>r_id := extractCmdId (c_string line)\<rparr>) m)
      | Inr cmd \<Rightarrow>
          (case dispatch api cb cmd (ms_app m) of
             None \<Rightarrow> None
           | Some (Inl _, s) \<Rightarrow> Some (sendResponse (makeErrorResponse ''dispatch failed'') (m\<lparr>ms_app := s\<rparr>))
           | Some (Inr rsp, s) \<Rightarrow>
               let s1 = (if r_kind rsp = ResponseKind.AckThen then s\<lparr>gLastCmdId := c_id cmd\<rparr> else s)
               in Some (sendResponse rsp (m\<lparr>ms_app := s1\<rparr>))))"

text \<open>The commands waiting in the BLE queue; each item is read as a C string.\<close>

fun drain_ble ::
  "'w nvs_api \<Rightarrow> (nat \<Rightarrow> u16) option \<Rightarrow> (string \<Rightarrow> json option) \<Rightarrow> string list \<Rightarrow> 'w main_state \<Rightarrow> 'w main_state outcome" where
  "drain_ble api cb json [] m = Some m"
| "drain_ble api cb json (item # items) m =
     Option.bind (handle_line api cb json (c_string item) (m\<lparr>ms_ble := (ms_ble m)\<lparr>ble_cmdQueue := Some items\<rparr>\<rparr>))
       (drain_ble api cb json items)"

definition ble_step ::
  "'w nvs_api \<Rightarrow> (nat \<Rightarrow> u16) option \<Rightarrow> (string \<Rightarrow> json option) \<Rightarrow> 'w main_state \<Rightarrow> 'w main_state outcome" where
  "ble_step api cb json m =
     (if ble_initialized (ms_ble m)
      then (case ble_cmdQueue (ms_ble m) of None \<Rightarrow> None | Some items \<Rightarrow> drain_ble api cb json items m)
      else Some m)"

definition serial_step ::
  "'w nvs_api \<Rightarrow> (nat \<Rightarrow> u16) option \<Rightarrow> (string \<Rightarrow> json option) \<Rightarrow> u32 \<Rightarrow> string option
     \<Rightarrow> 'w main_state \<Rightarrow> 'w main_state outcome" where
  "serial_step api cb json now avail m =
     (case process now avail (ms_serial m) of
        None \<Rightarrow> None
      | Some (None, r) \<Rightarrow> Some (m\<lparr>ms_serial := r\<rparr>)
      | Some (Some line, r) \<Rightarrow>
          handle_line api cb json line
            (m\<lparr>ms_serial := r, ms_app := (ms_app m)\<lparr>gUsbHandshakeReceived := True\<rparr>\<rparr>))"

subsection \<open>The motor's result\<close>

text \<open>The formatter reads the calibration for results that report a volume.\<close>

definition result_calibration :: "'w nvs_api \<Rightarrow> SmResult \<Rightarrow> 'w store \<Rightarrow> CalibrationData option \<times> 'w store" where
  "result_calibration api r st =
     (if sm_type r = SmResultType.None' \<and> 0 < sint (sm_stepsTaken r) \<or> sm_type r = SmResultType.CalDoseComplete
      then (case calibrationRead api st of (Inl _, st1) \<Rightarrow> (None, st1) | (Inr c, st1) \<Rightarrow> (Some c, st1))
      else (None, st))"

definition result_step :: "'w nvs_api \<Rightarrow> 'w main_state \<Rightarrow> 'w main_state" where
  "result_step api m =
     (if \<not> ap_controller (ms_app m) then m
      else case waitResult (ms_app m) of
             (None, s) \<Rightarrow> m\<lparr>ms_app := s\<rparr>
           | (Some r, s) \<Rightarrow>
               let (cal, st) = result_calibration api r (ap_store s);
                   text = formatSmResult cal (gLastCmdId s) r;
                   m1 = m\<lparr>ms_app := s\<lparr>ap_store := st\<rparr>\<rparr>
               in if 0 < length text \<and> length text < MAX_RSP_SIZE
                  then notify (text @ [LF]) (write_serial (text @ [LF]) m1)
                  else m1)"

text \<open>One iteration; \<open>now\<close> and \<open>avail\<close> are the clock and what the serial port delivers.\<close>

definition main_iteration ::
  "'w nvs_api \<Rightarrow> (nat \<Rightarrow> u16) option \<Rightarrow> (string \<Rightarrow> json option) \<Rightarrow> u32 \<Rightarrow> string option
     \<Rightarrow> 'w main_state \<Rightarrow> 'w main_state outcome" where
  "main_iteration api cb json now avail m =
     Option.bind (light_step (tick_step m)) (\<lambda>m1.
     Option.bind (ble_step api cb json (transport_step m1)) (\<lambda>m2.
     map_option (result_step api) (serial_step api cb json now avail m2)))"

subsection \<open>Answers\<close>

lemma length_body_bytes: "length (body_bytes rsp n) \<le> n"
  by (simp add: body_bytes_def)

lemma serialized_length:
  assumes "r_kind rsp \<noteq> ResponseKind.NoResponse"
  shows "0 < length (serializeToBuffer rsp)" and "length (serializeToBuffer rsp) \<le> MAX_RSP_SIZE"
proof -
  have b: "n \<le> MAX_RSP_SIZE \<Longrightarrow> length (body_bytes rsp n) = n" for n by (simp add: body_bytes_def)
  have p: "1 < length (id_prefix i)" for i by (simp add: id_prefix_def)
  have m: "0 < length (minimal_text (r_kind rsp))" "length (minimal_text (r_kind rsp)) \<le> MAX_RSP_SIZE"
    using assms by (cases "r_kind rsp"; simp add: minimal_text_def accepted_text_def ok_prefix_def jkey_def quoted_def
        MAX_RSP_SIZE_def)+
  let ?fits = "0 < r_bodySize rsp \<and> r_bodySize rsp \<le> MAX_RSP_SIZE"
  let ?id = "r_id rsp \<noteq> 0 \<and> body_bytes rsp 1 = ''{'' \<and> length (id_prefix (r_id rsp)) + r_bodySize rsp - 1 < MAX_RSP_SIZE"
  have "length (serializeToBuffer rsp) =
     (if ?fits then (if ?id then length (id_prefix (r_id rsp)) + (r_bodySize rsp - 1) else r_bodySize rsp)
      else length (minimal_text (r_kind rsp)))"
    unfolding serializeToBuffer_def Let_def using assms b [of "r_bodySize rsp"] by simp
  then show "0 < length (serializeToBuffer rsp)" "length (serializeToBuffer rsp) \<le> MAX_RSP_SIZE"
    using p [of "r_id rsp"] m by (auto split: if_splits)
qed

definition request_id :: "(string \<Rightarrow> json option) \<Rightarrow> string \<Rightarrow> u64" where
  "request_id json line =
     (case parseCommand json line of Inl _ \<Rightarrow> extractCmdId (c_string line) | Inr cmd \<Rightarrow> c_id cmd)"

text \<open>A line written in answer to a request.\<close>

definition answers_request :: "(string \<Rightarrow> json option) \<Rightarrow> string \<Rightarrow> string \<Rightarrow> bool" where
  "answers_request json line a \<longleftrightarrow>
     (\<exists>rsp. r_kind rsp \<noteq> ResponseKind.NoResponse \<and> r_id rsp = request_id json line
        \<and> a = terminated (serializeToBuffer rsp))"

text \<open>The state after an answer: one more line on the serial port, and one more item for BLE if there
  is room.\<close>

definition answered :: "string \<Rightarrow> 'w main_state \<Rightarrow> 'w main_state \<Rightarrow> bool" where
  "answered a m m' \<longleftrightarrow>
     ms_out m' = serial_write (ms_serial m) a (ms_out m) \<and> ms_serial m' = ms_serial m
     \<and> ms_ble m' = ble_notify a (ms_ble m)"

lemma answer_length:
  "answers_request json line a \<Longrightarrow> a \<noteq> [] \<and> length a \<le> MAX_RSP_SIZE"
  unfolding answers_request_def
  by (elim exE conjE) (frule serialized_length, drule serialized_length(2), auto simp: terminated_def)

lemma sendResponse_answered:
  assumes "r_kind rsp \<noteq> ResponseKind.NoResponse"
  shows "answered (terminated (serializeToBuffer rsp)) m (sendResponse rsp m)"
    and "ms_app (sendResponse rsp m) = ms_app m"
proof -
  have "length (terminated (serializeToBuffer rsp)) \<le> MAX_RSP_SIZE"
    using serialized_length [OF assms] by (simp add: terminated_def)
  then show "answered (terminated (serializeToBuffer rsp)) m (sendResponse rsp m)"
    "ms_app (sendResponse rsp m) = ms_app m"
    using serialized_length [OF assms]
    by (simp_all add: answered_def sendResponse_def Let_def notify_def write_serial_def)
qed

lemma dispatch_cases:
  assumes "dispatch api cb cmd s = Some (r, s')"
  obtains rsp where "r = Inr rsp" and "r_id rsp = c_id cmd" and "r_kind rsp \<noteq> ResponseKind.NoResponse"
  using assms contract_dispatch [of s api cb cmd]
  by (auto simp: dispatch_def withId_def contract_def split: option.splits)

lemma handle_line_answered:
  assumes "handle_line api cb json line m = Some m'"
  shows "\<exists>a. answers_request json line a \<and> answered a m m'"
proof (cases "parseCommand json line")
  case (Inl e)
  define rsp where "rsp = (makeErrorResponse ''invalid_params'')\<lparr>r_id := extractCmdId (c_string line)\<rparr>"
  then have k: "r_kind rsp \<noteq> ResponseKind.NoResponse" "r_id rsp = request_id json line"
    using Inl by (simp_all add: request_id_def)
  have "m' = sendResponse rsp m" using assms Inl by (simp add: handle_line_def rsp_def)
  then show ?thesis using k sendResponse_answered(1) [OF k(1), of m] by (auto simp: answers_request_def)
next
  case (Inr cmd)
  then obtain r s where d: "dispatch api cb cmd (ms_app m) = Some (r, s)"
    using assms by (auto simp: handle_line_def split: option.splits)
  obtain rsp where rsp: "r = Inr rsp" "r_id rsp = c_id cmd" "r_kind rsp \<noteq> ResponseKind.NoResponse"
    using dispatch_cases [OF d] .
  let ?s = "if r_kind rsp = ResponseKind.AckThen then s\<lparr>gLastCmdId := c_id cmd\<rparr> else s"
  have "m' = sendResponse rsp (m\<lparr>ms_app := ?s\<rparr>)"
    using assms Inr d rsp by (simp add: handle_line_def Let_def)
  then have "answered (terminated (serializeToBuffer rsp)) m m'"
    using sendResponse_answered(1) [OF rsp(3), of "m\<lparr>ms_app := ?s\<rparr>"] by (simp add: answered_def)
  then show ?thesis using rsp Inr by (auto simp: answers_request_def request_id_def)
qed

lemma c_string_idem [simp]: "c_string (c_string s) = c_string s"
  by (simp add: c_string_def takeWhile_idem)

lemma drain_ble_answers:
  assumes "drain_ble api cb json items m = Some m'" and "0 \<le> ser_fd (ms_serial m)"
    and "ble_notifyQueue (ms_ble m) = Some q" and "length q \<le> BLE_NOTIFY_QUEUE_SIZE"
  shows "\<exists>as. list_all2 (answers_request json) (map c_string items) as
    \<and> ms_out m' = ms_out m @ as \<and> ms_serial m' = ms_serial m
    \<and> ble_notifyQueue (ms_ble m') = Some (q @ take (BLE_NOTIFY_QUEUE_SIZE - length q) as)"
  using assms
proof (induction items arbitrary: m q)
  case Nil
  then show ?case by auto
next
  case (Cons item items)
  let ?m = "m\<lparr>ms_ble := (ms_ble m)\<lparr>ble_cmdQueue := Some items\<rparr>\<rparr>"
  obtain m1 where h: "handle_line api cb json (c_string item) ?m = Some m1"
    and r: "drain_ble api cb json items m1 = Some m'"
    using Cons.prems(1) by (auto simp: bind_eq_Some_conv)
  obtain a where a: "answers_request json (c_string item) a" "answered a ?m m1"
    using handle_line_answered [OF h] by blast
  let ?q = "q @ take (BLE_NOTIFY_QUEUE_SIZE - length q) [a]"
  have q1: "ble_notifyQueue (ms_ble m1) = Some ?q" "length ?q \<le> BLE_NOTIFY_QUEUE_SIZE"
    using a(2) Cons.prems(3,4) by (auto simp: answered_def ble_notify_def xQueueSend_def)
  have o1: "ms_out m1 = ms_out m @ [a]" "ms_serial m1 = ms_serial m"
    using a Cons.prems(2) answer_length [OF a(1)] by (auto simp: answered_def serial_write_def)
  obtain as where as: "list_all2 (answers_request json) (map c_string items) as"
    "ms_out m' = ms_out m1 @ as" "ms_serial m' = ms_serial m1"
    "ble_notifyQueue (ms_ble m') = Some (?q @ take (BLE_NOTIFY_QUEUE_SIZE - length ?q) as)"
    using Cons.IH [OF r _ q1] o1 Cons.prems(2) by auto
  have "?q @ take (BLE_NOTIFY_QUEUE_SIZE - length ?q) as = q @ take (BLE_NOTIFY_QUEUE_SIZE - length q) (a # as)"
    by (cases "BLE_NOTIFY_QUEUE_SIZE - length q") (auto simp: Suc_diff_Suc [symmetric] diff_Suc)
  then show ?case using as o1 a(1) by (intro exI [of _ "a # as"]) simp
qed

text \<open>C3.  The commands waiting in the BLE queue are all answered in their order: each gets exactly one
  line on the serial port, which carries the id of its command (the id scanned from the text when
  it does not parse).  Of the same answers only as many reach BLE as its queue has room, the first
  ones; the queue has four places and takes up to eight commands at once.\<close>

theorem commands_answered_in_order:
  assumes "ble_initialized (ms_ble m)" and "ble_cmdQueue (ms_ble m) = Some items"
    and "0 \<le> ser_fd (ms_serial m)"
    and "ble_notifyQueue (ms_ble m) = Some q" and "length q \<le> 4"
    and "ble_step api cb json m = Some m'"
  shows "\<exists>as. list_all2 (answers_request json) (map c_string items) as
    \<and> ms_out m' = ms_out m @ as
    \<and> ble_notifyQueue (ms_ble m') = Some (q @ take (4 - length q) as)"
  using drain_ble_answers [of api cb json items m m' q] assms
  by (auto simp: ble_step_def BLE_NOTIFY_QUEUE_SIZE_def)

text \<open>The state in which the loop starts, with a port and a light that could be set up; the light shows
  the mode of a link that waits.\<close>

definition boot_light :: "RgbLed \<Rightarrow> (symbol list \<times> RgbLed) outcome" where
  "boot_light = setTransportMode TransportMode.BleAdvertising False"

definition main_init :: "'w nvs_api \<Rightarrow> 'w store \<Rightarrow> 'w main_state" where
  "main_init api st =
     \<lparr>ms_app = boot_settings api (app_init st), ms_ble = ble_new, ms_serial = serial_new\<lparr>ser_fd := 3\<rparr>, ms_out = [],
      ms_sched = scheduler_init, ms_asm = asm_init,
      ms_led = (case boot_light (led_new True True True) of Some (_, l) \<Rightarrow> l | None \<Rightarrow> led_new True True True),
      ms_ledMode = TransportMode.BleAdvertising, ms_ledError = False,
      ms_light = (case boot_light (led_new True True True) of Some (syms, _) \<Rightarrow> [syms] | None \<Rightarrow> [])\<rparr>"

theorem commands_answered_in_order_witness:
  "\<exists>as m'. ble_step ref_nvs None (\<lambda>_. None)
       ((main_init ref_nvs ref_store)\<lparr>ms_ble := ble_new\<lparr>ble_initialized := True, ble_cmdQueue := Some [''x'', ''y''],
          ble_notifyQueue := Some []\<rparr>\<rparr>) = Some m'
     \<and> length as = 2 \<and> ms_out m' = as \<and> ble_notifyQueue (ms_ble m') = Some as"
proof -
  let ?m = "(main_init ref_nvs ref_store)\<lparr>ms_ble := ble_new\<lparr>ble_initialized := True, ble_cmdQueue := Some [''x'', ''y''],
          ble_notifyQueue := Some []\<rparr>\<rparr>"
  obtain m' where m': "ble_step ref_nvs None (\<lambda>_. None) ?m = Some m'"
    by (simp add: ble_step_def handle_line_def parseCommand_def)
  obtain as where "list_all2 (answers_request (\<lambda>_. None)) (map c_string [''x'', ''y'']) as"
    "ms_out m' = ms_out ?m @ as" "ble_notifyQueue (ms_ble m') = Some (take 4 as)"
    using commands_answered_in_order [of ?m "[''x'', ''y'']" "[]" ref_nvs None "\<lambda>_. None" m'] m'
    by (auto simp: main_init_def serial_new_def)
  then show ?thesis using m' list_all2_lengthD [of "answers_request (\<lambda>_. None)"]
    by (fastforce simp: main_init_def)
qed

subsection \<open>The result of the motor goes to the last acknowledged command\<close>

lemma result_head_id: "result_head i = id_prefix i"
  by (simp add: result_head_def id_prefix_def id_key_def jkey_def quoted_def)

lemma result_text:
  assumes "fp_ok f32 (sm_measuredSpeedMlMin r)"
  shows "\<exists>rest. formatSmResult cal i r = id_prefix i @ rest \<and> length rest \<le> 150"
  using length_fmt_fixed [OF assms, of 2]
    length_fmt_fixed [of "f_div f32 (f_of_int f32 (sint (sm_stepsTaken r))) (stepsPerMl (the cal))" 2]
    length_fmt_fixed [of "fp_zero f32 False" 2]
  by (cases cal)
    (auto simp: formatSmResult_def Let_def result_head_id jkey_def quoted_def)

lemma length_id_prefix: "length (id_prefix i) \<le> 40"
proof -
  have "unat i < 10 ^ 20" using unsigned_less [of i, where ?'a = nat] by simp
  then have "length (nat_str (unat i)) \<le> 20" by (rule length_nat_str_le) simp
  then show ?thesis by (simp add: id_prefix_def id_key_def)
qed

lemma result_step_eq:
  assumes "ap_controller (ms_app m)" and "ap_resultQueue (ms_app m) = Some (r # rs)"
    and "fp_ok f32 (sm_measuredSpeedMlMin r)"
  shows "\<exists>cal st a. a = formatSmResult cal (gLastCmdId (ms_app m)) r @ [LF] \<and> extractCmdId a = gLastCmdId (ms_app m)
    \<and> result_step api m = notify a (write_serial a (m\<lparr>ms_app := ms_app m\<lparr>ap_resultQueue := Some rs, ap_store := st\<rparr>\<rparr>))
    \<and> length a \<le> MAX_RSP_SIZE"
proof -
  let ?s = "ms_app m\<lparr>ap_resultQueue := Some rs\<rparr>"
  obtain cal st where c: "result_calibration api r (ap_store ?s) = (cal, st)" by force
  obtain rest where rest: "formatSmResult cal (gLastCmdId (ms_app m)) r = id_prefix (gLastCmdId (ms_app m)) @ rest"
    "length rest \<le> 150" using result_text [OF assms(3)] by blast
  let ?t = "id_prefix (gLastCmdId (ms_app m)) @ rest"
  have len: "0 < length ?t" "length ?t + 1 \<le> MAX_RSP_SIZE" "length ?t < MAX_RSP_SIZE"
    using rest(2) length_id_prefix [of "gLastCmdId (ms_app m)"] by (simp_all add: id_prefix_def MAX_RSP_SIZE_def)
  have "result_step api m
      = notify (?t @ [LF]) (write_serial (?t @ [LF]) (m\<lparr>ms_app := ?s\<lparr>ap_store := st\<rparr>\<rparr>))"
    using assms(1,2) rest(1) len c unfolding result_step_def waitResult_def xQueueReceive_def by simp
  then show ?thesis
    using len rest(1) extract_id_prefix [of "gLastCmdId (ms_app m)" "rest @ [LF]"]
    by (intro exI [of _ cal] exI [of _ st] exI [of _ "?t @ [LF]"]) simp
qed

lemma result_step_line:
  assumes "ap_controller (ms_app m)" and "ap_resultQueue (ms_app m) = Some (r # rs)"
    and "fp_ok f32 (sm_measuredSpeedMlMin r)" and "0 \<le> ser_fd (ms_serial m)"
  shows "\<exists>a. extractCmdId a = gLastCmdId (ms_app m) \<and> ms_out (result_step api m) = ms_out m @ [a]
    \<and> ap_resultQueue (ms_app (result_step api m)) = Some rs
    \<and> ms_ble (result_step api m) = ble_notify a (ms_ble m)"
  using result_step_eq [OF assms(1-3), of api] assms(4)
  by (force simp: notify_def write_serial_def serial_write_def)

text \<open>When a line is acknowledged, the next result the motor task delivers is written as one line
  that carries the id of that line's command, as long as no other command is acknowledged in
  between; the result is taken from the queue.\<close>

theorem result_carries_acknowledged_id:
  assumes "parseCommand json line = Inr cmd"
    and "dispatch api cb cmd (ms_app m) = Some (Inr rsp, s)" and "r_kind rsp = ResponseKind.AckThen"
    and "handle_line api cb json line m = Some m1"
    and "gLastCmdId (ms_app m2) = gLastCmdId (ms_app m1)"
    and "ap_controller (ms_app m2)" and "ap_resultQueue (ms_app m2) = Some (r # rs)"
    and "fp_ok f32 (sm_measuredSpeedMlMin r)" and "0 \<le> ser_fd (ms_serial m2)"
  shows "\<exists>a. extractCmdId a = c_id cmd \<and> ms_out (result_step api m2) = ms_out m2 @ [a]
    \<and> ap_resultQueue (ms_app (result_step api m2)) = Some rs"
proof -
  have "gLastCmdId (ms_app m1) = c_id cmd"
    using assms(1-4) sendResponse_answered(2) [of rsp "m\<lparr>ms_app := s\<lparr>gLastCmdId := c_id cmd\<rparr>\<rparr>"]
    by (auto simp: handle_line_def)
  then show ?thesis using result_step_line [OF assms(6-9), of api] assms(5) by auto
qed

definition move_request :: json where
  "move_request = JObject [(''cmd'', JString ''burette.moveSteps''), (''id'', JUnsigned 7), (''steps'', JInteger 100)]"

definition idle_main :: "(string \<times> string \<Rightarrow> nvs_val option) main_state" where
  "idle_main = (main_init ref_nvs ref_store)\<lparr>ms_app := app_init ref_store\<rparr>"

definition done_result :: SmResult where
  "done_result = \<lparr>sm_type = SmResultType.RinseComplete, sm_stepsTaken = 0, sm_measuredSpeedMlMin = f32_lit 0 0,
     sm_results = [], sm_resultCount = 0\<rparr>"

lemma move_request_parsed: "parseCommand (\<lambda>_. Some move_request) line = Inr (read_fields move_request CommandType.MoveSteps)"
  by (simp add: parseCommand_def move_request_def lookupCmdType_def kCmdNames_def)

theorem result_carries_acknowledged_id_witness:
  "\<exists>m1 a. handle_line ref_nvs None (\<lambda>_. Some move_request) ''x'' idle_main = Some m1 \<and> extractCmdId a = 7
     \<and> ms_out (result_step ref_nvs (idle_main\<lparr>ms_app := (ms_app m1)\<lparr>ap_controller := True, ap_resultQueue := Some [done_result]\<rparr>\<rparr>))
        = [a]"
proof -
  let ?cmd = "read_fields move_request CommandType.MoveSteps"
  have cmd: "c_type ?cmd = CommandType.MoveSteps" "c_id ?cmd = 7" "c_steps ?cmd = Some 100"
    by (simp_all add: read_fields_def command_init_def move_request_def readId_def readInt_def)
  obtain rsp s where d: "dispatch ref_nvs None ?cmd (ms_app idle_main) = Some (Inr rsp, s)" "r_kind rsp = ResponseKind.AckThen"
    by (simp add: dispatch_def withId_def dispatch_handler_def cmd handleMoveSteps_def claim_def claim_burette_def
        start_motion_def sendMotorCommand_def xQueueSend_def MOTOR_CMD_QUEUE_LEN_def idle_main_def main_init_def)
  then obtain m1 where h: "handle_line ref_nvs None (\<lambda>_. Some move_request) ''x'' idle_main = Some m1"
    by (simp add: handle_line_def move_request_parsed)
  let ?m2 = "idle_main\<lparr>ms_app := (ms_app m1)\<lparr>ap_controller := True, ap_resultQueue := Some [done_result]\<rparr>\<rparr>"
  have "fp_ok f32 (sm_measuredSpeedMlMin done_result)" by (simp add: done_result_def)
  then show ?thesis
    using result_carries_acknowledged_id [OF move_request_parsed d h, of ?m2 done_result "[]"] h cmd(2)
    by (auto simp: idle_main_def main_init_def serial_new_def)
qed

subsection \<open>The light shows the state of the links\<close>

text \<open>The colour the last pulse train carries, in the order red, green, blue.\<close>

definition shown_color :: "symbol list \<Rightarrow> u8 \<times> u8 \<times> u8" where
  "shown_color syms = (decode_byte (take 8 (drop 8 syms)), decode_byte (take 8 syms), decode_byte (take 8 (drop 16 syms)))"

definition light_ok :: "'w main_state \<Rightarrow> bool" where
  "light_ok m \<longleftrightarrow>
     led_initialized (ms_led m) \<and> led_channel (ms_led m) \<and> led_encoder (ms_led m)
     \<and> ms_light m \<noteq> [] \<and> shown_color (last (ms_light m)) = mode_color (ms_ledMode m) (ms_ledError m)"

lemma setTransportMode_shows:
  assumes "led_initialized l" "led_channel l" "led_encoder l"
  shows "\<exists>syms l'. setTransportMode mode err l = Some (syms, l') \<and> shown_color syms = mode_color mode err
    \<and> led_initialized l' \<and> led_channel l' \<and> led_encoder l'"
  using assms
  by (cases "mode_color mode err")
    (simp add: setTransportMode_def setColor_def refresh_symbols shown_color_def decode_byte_symbols)

text \<open>In every iteration the light is updated without fault, ends up showing the colour of the
  links' state (off for USB, red for a BLE error, green when connected, blue otherwise), and
  sends nothing when that has not changed; the transport state recorded for the state machine
  says the same about USB and BLE.\<close>

theorem light_shows_links:
  assumes "light_ok m"
  shows "\<exists>m'. light_step m = Some m' \<and> light_ok m' \<and> (ms_ledMode m', ms_ledError m') = wanted_light m
    \<and> shown_color (last (ms_light m'))
      = (if gUsbHandshakeReceived (ms_app m) then (0, 0, 0)
         else if gBleError (ms_app m) then (255, 0, 0)
         else if ble_isConnected (ms_ble m) then (0, 255, 0)
         else (0, 0, 255))
    \<and> (if wanted_light m = (ms_ledMode m, ms_ledError m) then m' = m
       else length (ms_light m') = length (ms_light m) + 1)
    \<and> (asm_transport (ms_asm (transport_step m')) = TransportState.UsbActive
         \<longleftrightarrow> ms_ledMode m' = TransportMode.UsbActive)"
proof -
  obtain mode err where w: "wanted_light m = (mode, err)" by force
  obtain syms l where t: "setTransportMode mode err (ms_led m) = Some (syms, l)"
    "shown_color syms = mode_color mode err" "led_initialized l" "led_channel l" "led_encoder l"
    using setTransportMode_shows [of "ms_led m" mode err] assms by (auto simp: light_ok_def)
  show ?thesis
  proof (cases "mode = ms_ledMode m \<and> err = ms_ledError m")
    case True
    then show ?thesis using assms w
      by (auto simp: light_step_def light_ok_def wanted_light_def mode_color_def transport_step_def setTransportState_def
          split: if_splits)
  next
    case False
    then show ?thesis using assms w t
      by (auto simp: light_step_def light_ok_def wanted_light_def mode_color_def transport_step_def setTransportState_def
          split: if_splits)
  qed
qed

lemma light_ok_init: "light_ok (main_init api st)"
  using setTransportMode_shows [of "led_new True True True" TransportMode.BleAdvertising False]
  by (auto simp: light_ok_def main_init_def boot_light_def led_new_def)

theorem light_shows_links_witness:
  "\<exists>m'. light_step (idle_main\<lparr>ms_app := (app_init ref_store)\<lparr>gUsbHandshakeReceived := True\<rparr>\<rparr>) = Some m'
     \<and> shown_color (last (ms_light m')) = (0, 0, 0)"
  using light_shows_links [of "idle_main\<lparr>ms_app := (app_init ref_store)\<lparr>gUsbHandshakeReceived := True\<rparr>\<rparr>"]
    light_ok_init [of ref_nvs ref_store]
  by (auto simp: light_ok_def idle_main_def)

text \<open>A serial port that could not be opened is polled all the same, which is undefined.\<close>

lemma unopened_port_is_polled:
  "ser_fd (ms_serial m) < 0 \<Longrightarrow> serial_step api cb json now avail m = None"
  by (simp add: serial_step_def process_def)

end
