(* ===== verification/Boot.thy ===== *)
theory Boot
  imports Main_Loop Diagnostics Temperature
begin

text \<open>
  The start of the program: the pins of the board (\<^verbatim>\<open>infrastructure/config.hpp\<close>,
  \<^verbatim>\<open>main/gpio_config.cpp\<close>), the memory checks (\<^verbatim>\<open>diag/src/heap_snapshot.cpp\<close>,
  \<^verbatim>\<open>diag/include/diag/heap_monitor.hpp\<close>), and the sequence of boot steps of \<^verbatim>\<open>main/main.cpp\<close> up to the
  main loop.  What the drivers and the system answer is given by a record of outcomes.
\<close>

unbundle bit_operations_syntax
declare One_nat_def [simp del]

subsection \<open>Pins\<close>

definition PIN_LED_RGB :: nat where "PIN_LED_RGB = 48"
definition PIN_ADC_PH :: nat where "PIN_ADC_PH = 4"
definition PIN_VALVE :: nat where "PIN_VALVE = 14"
definition PIN_STEP :: nat where "PIN_STEP = 21"
definition PIN_DIR :: nat where "PIN_DIR = 5"
definition PIN_EN :: nat where "PIN_EN = 13"
definition PIN_DS18B20 :: nat where "PIN_DS18B20 = 6"
definition PIN_LIMIT_FULL :: nat where "PIN_LIMIT_FULL = 7"
definition PIN_LIMIT_EMPTY :: nat where "PIN_LIMIT_EMPTY = 15"
definition PIN_TMC_UART_TX :: nat where "PIN_TMC_UART_TX = 17"
definition PIN_TMC_UART_RX :: nat where "PIN_TMC_UART_RX = 16"

lemmas pin_defs = PIN_LED_RGB_def PIN_ADC_PH_def PIN_VALVE_def PIN_STEP_def PIN_DIR_def PIN_EN_def PIN_DS18B20_def
  PIN_LIMIT_FULL_def PIN_LIMIT_EMPTY_def PIN_TMC_UART_TX_def PIN_TMC_UART_RX_def

datatype gpio_mode = OUTPUT | INPUT | INPUT_OUTPUT_OD
datatype gpio_intr = INTR_DISABLE | INTR_POSEDGE

record gpio_conf =
  pin_bit_mask :: u64
  gc_mode :: gpio_mode
  pull_up_en :: bool
  pull_down_en :: bool
  intr_type :: gpio_intr

datatype pin_call = Set_direction nat gpio_mode | Set_level nat bool | Gpio_config gpio_conf | Install_isr_service

text \<open>Calls inside \<^verbatim>\<open>ESP_ERROR_CHECK\<close> abort the program when they fail; the results of the others are
  dropped.  The result is the calls made and whether the sequence reached its end.\<close>

fun checked :: "pin_call \<Rightarrow> bool" where
  "checked (Gpio_config c) \<longleftrightarrow> True"
| "checked Install_isr_service \<longleftrightarrow> True"
| "checked _ \<longleftrightarrow> False"

fun run_pins :: "(pin_call \<Rightarrow> bool) \<Rightarrow> pin_call list \<Rightarrow> pin_call list \<times> bool" where
  "run_pins ok [] = ([], True)"
| "run_pins ok (c # cs) =
     (if checked c \<and> \<not> ok c then ([c], False) else let (made, done) = run_pins ok cs in (c # made, done))"

definition endstop_conf :: "nat \<Rightarrow> gpio_conf" where
  "endstop_conf p = \<lparr>pin_bit_mask = push_bit p 1, gc_mode = INPUT, pull_up_en = False, pull_down_en = True,
     intr_type = INTR_POSEDGE\<rparr>"

definition onewire_conf :: gpio_conf where
  "onewire_conf = \<lparr>pin_bit_mask = push_bit PIN_DS18B20 1, gc_mode = INPUT_OUTPUT_OD, pull_up_en = True,
     pull_down_en = False, intr_type = INTR_DISABLE\<rparr>"

definition configureGpioPins :: "(pin_call \<Rightarrow> bool) \<Rightarrow> pin_call list \<times> bool" where
  "configureGpioPins ok =
     run_pins ok
       [Set_direction PIN_DIR OUTPUT, Set_level PIN_DIR False,
        Set_direction PIN_EN OUTPUT, Set_level PIN_EN False,
        Gpio_config (endstop_conf PIN_LIMIT_FULL),
        Gpio_config (endstop_conf PIN_LIMIT_EMPTY),
        Gpio_config onewire_conf,
        Install_isr_service]"

subsection \<open>Memory checks\<close>

text \<open>What the allocator answers: free bytes and the largest free block of both memories.\<close>

record heap_info =
  hi_psram_free :: u32
  hi_psram_largest :: u32
  hi_dram_total :: u32
  hi_dram_free :: u32
  hi_dram_largest :: u32

text \<open>A log line with its level.\<close>

type_synonym log_line = "string \<times> string"

definition dec :: "u32 \<Rightarrow> string" where "dec x = nat_str (unat x)"

definition canAllocate :: "heap_info \<Rightarrow> u32 \<Rightarrow> bool" where
  "canAllocate h bytes \<longleftrightarrow> hi_dram_largest h \<ge> bytes"

definition largestFreeBlock :: "heap_info \<Rightarrow> u32" where
  "largestFreeBlock h = hi_dram_largest h"

definition heap_log :: "heap_info \<Rightarrow> log_line list" where
  "heap_log h =
     [(''I'', ''DRAM: total='' @ dec (hi_dram_total h) @ '' free='' @ dec (hi_dram_free h)
        @ '' largest='' @ dec (hi_dram_largest h))]"

definition assertCanAllocate :: "heap_info \<Rightarrow> u32 \<Rightarrow> bool \<times> log_line list" where
  "assertCanAllocate h bytes =
     (if hi_dram_largest h < bytes
      then (False, [(''W'', ''Cannot alloc '' @ dec bytes @ '' B (largest='' @ dec (hi_dram_largest h) @ '' B)'')])
      else (True, []))"

definition print_heap_stats :: "heap_info \<Rightarrow> log_line list" where
  "print_heap_stats h =
     [(''I'', ''PSRAM free='' @ dec (hi_psram_free h) @ '' largest='' @ dec (hi_psram_largest h)
        @ '' | DRAM free='' @ dec (hi_dram_free h) @ '' largest='' @ dec (hi_dram_largest h))]
     @ (if hi_psram_free h < 4 * 1024 * 1024
        then [(''W'', ''CRITICAL: PSRAM free < 4 MB ('' @ dec (hi_psram_free h) @ '')'')] else [])
     @ (if hi_psram_largest h < 256 * 1024
        then [(''W'', ''CRITICAL: PSRAM largest block < 256 KB ('' @ dec (hi_psram_largest h) @ '')'')] else [])
     @ (if hi_dram_free h < 20 * 1024
        then [(''W'', ''CRITICAL: DRAM free < 20 KB ('' @ dec (hi_dram_free h) @ '')'')] else [])
     @ (if hi_dram_largest h < 4 * 1024
        then [(''W'', ''CRITICAL: DRAM largest block < 4 KB ('' @ dec (hi_dram_largest h) @ '')'')] else [])"

definition DRAM_SAFETY_MARGIN :: u32 where "DRAM_SAFETY_MARGIN = 4096"

definition logDramBeforeTask :: "heap_info \<Rightarrow> string \<Rightarrow> u32 \<Rightarrow> log_line list" where
  "logDramBeforeTask h name stackSize =
     [(''I'', ''Creating '' @ name @ '', stack='' @ dec stackSize @ '', largest_free='' @ dec (hi_dram_largest h))]
     @ (if hi_dram_largest h < stackSize + DRAM_SAFETY_MARGIN
        then [(''W'', ''DRAM pressure! Largest free block '' @ dec (hi_dram_largest h) @ '' < needed ''
                @ dec (stackSize + DRAM_SAFETY_MARGIN))]
        else [])"

subsection \<open>The boot sequence\<close>

definition MOTOR_THREAD_STACK :: u32 where "MOTOR_THREAD_STACK = 20480"
definition NET_OWNER_STACK :: u32 where "NET_OWNER_STACK = 20480"
definition TEMP_THREAD_STACK :: u32 where "TEMP_THREAD_STACK = 16384"
definition FFI_BOOT_SEQUENCE :: u16 where "FFI_BOOT_SEQUENCE = 50"

text \<open>The outcomes of the calls: \<open>be_led\<close> are those of the light's constructor, \<open>be_heap\<close> the allocator's
  answers at the places of the sequence, \<open>be_create\<close> those of the creation of tasks, \<open>be_adc\<close> those of the
  two calls that set up the converter; \<open>be_depth_size\<close> is the size of the type of stack depths.\<close>

record ('w, 'h) boot_env =
  be_nvs :: "'w nvs_api"
  be_main :: 'h
  be_handle_of :: "string \<Rightarrow> 'h option"
  be_uart :: uart_port
  be_rtc_hz :: u32
  be_pin :: "pin_call \<Rightarrow> bool"
  be_led :: "bool \<times> bool \<times> bool"
  be_heap :: "string \<Rightarrow> heap_info"
  be_create :: "string \<Rightarrow> bool"
  be_depth_size :: u32
  be_now :: u64
  be_adc :: "bool \<times> bool"

record ('w, 'h) machine =
  bo_app :: "'w app"
  bo_progress :: "BootProgress list"
  bo_logbuf :: LogBuffer
  bo_hook :: bool
  bo_bb :: BlackBoxRing
  bo_threads :: "'h thread list"
  bo_serial :: SerialReader
  bo_wdt :: "hal_op list \<times> RtcWatchdog"
  bo_ble :: BleManager
  bo_pins :: "pin_call list"
  bo_led :: RgbLed
  bo_light :: "symbol list list"
  bo_tasks :: "(string \<times> u32 \<times> bool) list"
  bo_lines :: "log_line list"
  bo_adc :: "AdcDriver option"
  bo_adcCb :: bool

text \<open>The state in which \<^verbatim>\<open>app_main\<close> is entered: no queue is created and no controller registered.\<close>

definition entry_state :: "'w store \<Rightarrow> ('w, 'h) machine" where
  "entry_state st =
     \<lparr>bo_app = (app_init st)\<lparr>ap_motorQueue := None, ap_resultQueue := None, ap_wsQueue := None, ap_controller := False\<rparr>,
      bo_progress = [], bo_logbuf = lb_new, bo_hook = False, bo_bb = bb_new, bo_threads = [], bo_serial = serial_new,
      bo_wdt = ([], \<lparr>rw_enabled = False, rw_published = False\<rparr>), bo_ble = ble_new, bo_pins = [],
      bo_led = led_new False False False, bo_light = [], bo_tasks = [], bo_lines = [], bo_adc = None, bo_adcCb = False\<rparr>"

definition publish :: "BootProgress \<Rightarrow> ('w, 'h) machine \<Rightarrow> ('w, 'h) machine" where
  "publish p b = b\<lparr>bo_app := (bo_app b)\<lparr>gBootProgress := p\<rparr>, bo_progress := bo_progress b @ [p]\<rparr>"

definition step_log :: "('w, 'h) machine \<Rightarrow> ('w, 'h) machine" where
  "step_log b = b\<lparr>bo_logbuf := lb_init LOG_BUF_ENTRIES (bo_logbuf b), bo_hook := True\<rparr>"

definition step_nvs :: "('w, 'h) boot_env \<Rightarrow> ('w, 'h) machine \<Rightarrow> ('w, 'h) machine" where
  "step_nvs env b =
     (let b1 = publish BootProgress.Nvs b in b1\<lparr>bo_app := boot_settings (be_nvs env) (bo_app b1)\<rparr>)"

definition step_blackbox :: "('w, 'h) machine \<Rightarrow> ('w, 'h) machine" where
  "step_blackbox b = (let b1 = publish BootProgress.BlackBox b in b1\<lparr>bo_bb := bb_init (bo_bb b1)\<rparr>)"

definition step_stackmon :: "('w, 'h) boot_env \<Rightarrow> ('w, 'h) machine \<Rightarrow> ('w, 'h) machine" where
  "step_stackmon env b =
     (let b1 = publish BootProgress.StackMonitor b
      in b1\<lparr>bo_threads := registerMainTask (be_main env) (be_handle_of env) (bo_threads b1)\<rparr>)"

definition step_serial :: "('w, 'h) boot_env \<Rightarrow> ('w, 'h) machine \<Rightarrow> ('w, 'h) machine" where
  "step_serial env b =
     (let b1 = publish BootProgress.Serial b;
          (initResult, ser, _) = serial_init (be_uart env) serial_new;
          b2 = b1\<lparr>bo_serial := ser\<rparr>
      in case initResult of
           Inl e \<Rightarrow> b2\<lparr>bo_lines := bo_lines b2 @ [(''E'', ''Serial init failed: '' @ nat_str 0)]\<rparr>
         | Inr _ \<Rightarrow> b2)"

definition step_rwdt :: "('w, 'h) boot_env \<Rightarrow> ('w, 'h) machine \<Rightarrow> ('w, 'h) machine" where
  "step_rwdt env b =
     (let b1 = publish BootProgress.RtcWdt b; (ops, w) = rtc_wdt_new (be_rtc_hz env)
      in b1\<lparr>bo_wdt := (ops, w\<lparr>rw_published := True\<rparr>)\<rparr>)"

definition step_ble_object :: "('w, 'h) machine \<Rightarrow> ('w, 'h) machine" where
  "step_ble_object b = (publish BootProgress.BleInit b)\<lparr>bo_ble := ble_new\<rparr>"

definition step_gpio :: "('w, 'h) boot_env \<Rightarrow> ('w, 'h) machine \<Rightarrow> ('w, 'h) machine option" where
  "step_gpio env b =
     (let b1 = publish BootProgress.PhyWait b; (calls, done) = configureGpioPins (be_pin env)
      in if done then Some (b1\<lparr>bo_pins := calls\<rparr>) else None)"

definition step_led :: "('w, 'h) boot_env \<Rightarrow> ('w, 'h) machine \<Rightarrow> ('w, 'h) machine option" where
  "step_led env b =
     (let (channel, encoder, en) = be_led env
      in map_option (\<lambda>(syms, l). b\<lparr>bo_led := l, bo_light := [syms]\<rparr>) (boot_light (led_new channel encoder en)))"

definition step_task ::
  "BootProgress \<Rightarrow> string \<Rightarrow> u32 \<Rightarrow> ('w, 'h) boot_env \<Rightarrow> ('w, 'h) machine \<Rightarrow> ('w, 'h) machine" where
  "step_task p name stack env b =
     (let b1 = publish p b
      in b1\<lparr>bo_lines := bo_lines b1 @ logDramBeforeTask (be_heap env name) name stack,
            bo_tasks := bo_tasks b1 @ [(name, stack div be_depth_size env, be_create env name)]\<rparr>)"

definition step_net_owner :: "('w, 'h) boot_env \<Rightarrow> ('w, 'h) machine \<Rightarrow> ('w, 'h) machine" where
  "step_net_owner env b =
     (let b1 = publish BootProgress.NetOwner b; name = ''net_owner'';
          (fits, lines) = assertCanAllocate (be_heap env name) (NET_OWNER_STACK + DRAM_SAFETY_MARGIN)
      in b1\<lparr>bo_lines := bo_lines b1 @ logDramBeforeTask (be_heap env name) name NET_OWNER_STACK @ lines
               @ (if fits then [] else [(''W'', ''Low DRAM before net_owner task creation'')]),
            bo_tasks := bo_tasks b1 @ [(name, NET_OWNER_STACK div be_depth_size env, be_create env name)]\<rparr>)"

text \<open>The motor controller is a new object on the global queues.\<close>

definition step_running :: "('w, 'h) boot_env \<Rightarrow> ('w, 'h) machine \<Rightarrow> ('w, 'h) machine" where
  "step_running env b =
     (let b1 = publish BootProgress.Running b
      in b1\<lparr>bo_lines := bo_lines b1 @ print_heap_stats (be_heap env ''stats''),
            bo_app := (bo_app b1)\<lparr>ap_controller := True\<rparr>\<rparr>)"

definition adc_new :: AdcDriver where
  "adc_new = \<lparr>adc_buf = replicate 64 0, adc_count = 0\<rparr>"

definition step_adc :: "('w, 'h) boot_env \<Rightarrow> ('w, 'h) machine \<Rightarrow> ('w, 'h) machine option" where
  "step_adc env b =
     (let b1 = b\<lparr>bo_bb := ffi_enter ''main'' (be_now env) FFI_BOOT_SEQUENCE (bo_bb b)\<rparr>
      in if fst (be_adc env) \<and> snd (be_adc env) then Some (b1\<lparr>bo_adc := Some adc_new, bo_adcCb := True\<rparr>) else None)"

definition app_main_boot :: "('w, 'h) boot_env \<Rightarrow> 'w store \<Rightarrow> ('w, 'h) machine option" where
  "app_main_boot env st =
     (let b1 = step_ble_object (step_rwdt env (step_serial env (step_stackmon env (step_blackbox
                 (step_nvs env (step_log (entry_state st)))))))
      in Option.bind (step_gpio env b1) (\<lambda>b2.
         Option.bind (step_led env b2) (\<lambda>b3.
         step_adc env
           (step_running env
             (step_net_owner env
               (step_task BootProgress.MotorTask ''motor'' MOTOR_THREAD_STACK env
                 (step_task BootProgress.TempTask ''temp'' TEMP_THREAD_STACK env b3)))))))"

text \<open>The variables the main loop starts with.\<close>

definition main_of :: "('w, 'h) machine \<Rightarrow> 'w main_state" where
  "main_of b =
     \<lparr>ms_app = bo_app b, ms_ble = bo_ble b, ms_serial = bo_serial b, ms_out = [],
      ms_sched = scheduler_init, ms_asm = asm_init,
      ms_led = bo_led b, ms_ledMode = TransportMode.BleAdvertising, ms_ledError = False, ms_light = bo_light b\<rparr>"

subsection \<open>The pins are free\<close>

text \<open>The pins whose function a call changes; writing a level changes none.  On this board the pins 26 to
  37 belong to the flash and the external memory, and the program must not touch their function.\<close>

fun touches :: "pin_call \<Rightarrow> nat set" where
  "touches (Set_direction p _) = {p}"
| "touches (Gpio_config c) = {p. bit (pin_bit_mask c) p}"
| "touches _ = {}"

definition memory_pins :: "nat set" where "memory_pins = {26..37}"

definition board_pins :: "nat list" where
  "board_pins = [PIN_LED_RGB, PIN_ADC_PH, PIN_VALVE, PIN_STEP, PIN_DIR, PIN_EN, PIN_DS18B20, PIN_LIMIT_FULL,
     PIN_LIMIT_EMPTY, PIN_TMC_UART_TX, PIN_TMC_UART_RX]"

lemma run_pins_prefix: "\<exists>rest. cs = fst (run_pins ok cs) @ rest"
  by (induction ok cs rule: run_pins.induct) (auto simp: case_prod_beta Let_def)

lemma run_pins_done: "snd (run_pins ok cs) \<longleftrightarrow> (\<forall>c \<in> set cs. checked c \<longrightarrow> ok c)"
  by (induction ok cs rule: run_pins.induct) (auto simp: case_prod_beta Let_def)

lemma run_pins_all: "snd (run_pins ok cs) \<Longrightarrow> fst (run_pins ok cs) = cs"
  by (induction ok cs rule: run_pins.induct) (auto simp: case_prod_beta Let_def split: if_splits)

lemma one_pin: "p < 64 \<Longrightarrow> touches (Gpio_config (endstop_conf p)) = {p}"
  by (auto simp: endstop_conf_def bit_exp_iff)

lemma onewire_pin: "touches (Gpio_config onewire_conf) = {PIN_DS18B20}"
  using one_pin [of PIN_DS18B20] by (simp add: endstop_conf_def onewire_conf_def PIN_DS18B20_def)

text \<open>The firmware's functions are on distinct pins, none of them a pin of the memories, and the boot
  configures no others, wherever it aborts.  The motor driver is enabled before the first call that
  may abort.\<close>

lemma boot_pins_free:
  "distinct board_pins \<and> set board_pins \<inter> memory_pins = {}
   \<and> (\<Union>c \<in> set (fst (configureGpioPins ok)). touches c) \<subseteq> {PIN_DIR, PIN_EN, PIN_LIMIT_FULL, PIN_LIMIT_EMPTY, PIN_DS18B20}
   \<and> Set_level PIN_EN False \<in> set (fst (configureGpioPins ok))"
proof -
  let ?calls = "[Set_direction PIN_DIR OUTPUT, Set_level PIN_DIR False, Set_direction PIN_EN OUTPUT, Set_level PIN_EN False,
      Gpio_config (endstop_conf PIN_LIMIT_FULL), Gpio_config (endstop_conf PIN_LIMIT_EMPTY), Gpio_config onewire_conf,
      Install_isr_service]"
  have "set (fst (configureGpioPins ok)) \<subseteq> set ?calls"
    using run_pins_prefix [of ?calls ok] unfolding configureGpioPins_def by (metis Un_upper1 set_append)
  moreover have "\<Union> (touches ` set ?calls) \<subseteq> {PIN_DIR, PIN_EN, PIN_LIMIT_FULL, PIN_LIMIT_EMPTY, PIN_DS18B20}"
    using one_pin [of PIN_LIMIT_FULL] one_pin [of PIN_LIMIT_EMPTY]
    by (simp add: onewire_pin del: touches.simps(2)) (simp add: pin_defs)
  moreover have "Set_level PIN_EN False \<in> set (fst (configureGpioPins ok))"
    by (simp add: configureGpioPins_def case_prod_beta Let_def)
  moreover have "distinct board_pins \<and> set board_pins \<inter> memory_pins = {}"
    by (simp add: board_pins_def memory_pins_def pin_defs)
  ultimately show ?thesis by blast
qed

subsection \<open>What the boot establishes\<close>

lemmas boot_steps = step_log_def step_nvs_def step_blackbox_def step_stackmon_def step_serial_def step_rwdt_def
  step_ble_object_def step_task_def step_net_owner_def step_running_def publish_def entry_state_def Let_def case_prod_beta

lemma boot_light_total: "\<exists>syms l. boot_light (led_new c e i) = Some (syms, l)"
  "boot_light (led_new True True True) = Some (syms, l) \<Longrightarrow> shown_color syms = mode_color TransportMode.BleAdvertising False
     \<and> led_initialized l \<and> led_channel l \<and> led_encoder l"
proof -
  note lit = setTransportMode_shows [of "led_new True True True" TransportMode.BleAdvertising False]
  show "\<exists>syms l. boot_light (led_new c e i) = Some (syms, l)"
  proof (cases "c \<and> e \<and> i")
    case True
    then show ?thesis using lit by (auto simp: boot_light_def led_new_def)
  next
    case False
    then show ?thesis
      by (cases "mode_color TransportMode.BleAdvertising False")
        (auto simp: boot_light_def led_new_def setTransportMode_def setColor_def refresh_def)
  qed
  show "boot_light (led_new True True True) = Some (syms, l) \<Longrightarrow> shown_color syms = mode_color TransportMode.BleAdvertising False
     \<and> led_initialized l \<and> led_channel l \<and> led_encoder l"
    using lit by (auto simp: boot_light_def led_new_def)
qed

lemma boot_light_init: "boot_light (led_new c e i) = Some (syms, l) \<Longrightarrow> led_initialized l \<longleftrightarrow> c \<and> e \<and> i"
  by (cases "mode_color TransportMode.BleAdvertising False")
    (auto simp: boot_light_def led_new_def setTransportMode_def setColor_def Let_def)

lemma boot_settings_keeps [simp]:
  "gBuretteState (boot_settings api s) = gBuretteState s" "gValveIsSettling (boot_settings api s) = gValveIsSettling s"
  "gStopFull (boot_settings api s) = gStopFull s" "ap_controller (boot_settings api s) = ap_controller s"
  "ap_motorQueue (boot_settings api s) = ap_motorQueue s" "ap_resultQueue (boot_settings api s) = ap_resultQueue s"
  by (auto simp: boot_settings_def Let_def case_prod_beta split: sum.split)

lemma bb_boot_inv: "bb_inv 1 (ffi_enter name now i (bb_init bb_new))"
  by (simp add: bb_inv_def ffi_enter_def bb_record_def bb_init_def bb_new_def RING_SIZE_def One_nat_def)

lemma serial_ready: "isInitialized (fst (snd (serial_init u serial_new)))
    \<longleftrightarrow> up_install u \<and> up_config u \<and> up_pins u \<and> 0 \<le> up_open u"
  by (simp add: serial_init_def isInitialized_def serial_new_def Let_def)

lemma boot_aborts:
  "app_main_boot env st = None \<longleftrightarrow> \<not> snd (configureGpioPins (be_pin env)) \<or> be_adc env \<noteq> (True, True)"
proof -
  obtain c e i where led: "be_led env = (c, e, i)" by (cases "be_led env")
  obtain syms l where "boot_light (led_new c e i) = Some (syms, l)" using boot_light_total(1) by blast
  with led show ?thesis
    by (auto simp: app_main_boot_def step_gpio_def step_led_def step_adc_def Let_def case_prod_beta prod_eq_iff bind_eq_None_conv)
qed

lemma boot_facts:
  assumes "app_main_boot env st = Some b0"
  shows "bo_progress b0 = [BootProgress.Nvs, BootProgress.BlackBox, BootProgress.StackMonitor, BootProgress.Serial,
          BootProgress.RtcWdt, BootProgress.BleInit, BootProgress.PhyWait, BootProgress.TempTask,
          BootProgress.MotorTask, BootProgress.NetOwner, BootProgress.Running]
    \<and> gBootProgress (bo_app b0) = BootProgress.Running
    \<and> map fst (bo_tasks b0) = [''temp'', ''motor'', ''net_owner'']
    \<and> bb_inv 1 (bo_bb b0) \<and> lb_inv 0 (bo_logbuf b0) \<and> bo_hook b0
    \<and> isInitialized (bo_serial b0)
          = (up_install (be_uart env) \<and> up_config (be_uart env) \<and> up_pins (be_uart env) \<and> 0 \<le> up_open (be_uart env))
    \<and> light_ok (main_of b0) = (be_led env = (True, True, True))
    \<and> gBuretteState (bo_app b0) = BuretteState.Idle \<and> \<not> gValveIsSettling (bo_app b0) \<and> \<not> gStopFull (bo_app b0)
    \<and> ap_motorQueue (bo_app b0) = None \<and> ap_resultQueue (bo_app b0) = None \<and> ap_controller (bo_app b0)"
proof -
  have t: "snd (configureGpioPins (be_pin env))" "be_adc env = (True, True)"
    using assms boot_aborts [of env st] by auto
  obtain c e i where led: "be_led env = (c, e, i)" by (cases "be_led env")
  obtain syms l where l: "boot_light (led_new c e i) = Some (syms, l)" using boot_light_total(1) by blast
  define b1 where "b1 = step_ble_object (step_rwdt env (step_serial env (step_stackmon env (step_blackbox
               (step_nvs env (step_log (entry_state st)))))))"
  define b3 where "b3 = (publish BootProgress.PhyWait b1)\<lparr>bo_pins := fst (configureGpioPins (be_pin env)), bo_led := l, bo_light := [syms]\<rparr>"
  define b4 where "b4 = step_running env (step_net_owner env
    (step_task BootProgress.MotorTask ''motor'' MOTOR_THREAD_STACK env
      (step_task BootProgress.TempTask ''temp'' TEMP_THREAD_STACK env b3)))"
  define b where "b = b4\<lparr>bo_bb := ffi_enter ''main'' (be_now env) FFI_BOOT_SEQUENCE (bo_bb b4), bo_adc := Some adc_new,
    bo_adcCb := True\<rparr>"
  have val: "app_main_boot env st = Some b"
    using t l led by (simp add: app_main_boot_def step_gpio_def step_led_def step_adc_def Let_def case_prod_beta
        b1_def [symmetric] b3_def [symmetric] b4_def [symmetric] b_def)
  have "bo_progress b = [BootProgress.Nvs, BootProgress.BlackBox, BootProgress.StackMonitor, BootProgress.Serial,
          BootProgress.RtcWdt, BootProgress.BleInit, BootProgress.PhyWait, BootProgress.TempTask,
          BootProgress.MotorTask, BootProgress.NetOwner, BootProgress.Running]"
    by (simp add: b_def b4_def b3_def b1_def boot_steps split: sum.split)
  moreover have "map fst (bo_tasks b) = [''temp'', ''motor'', ''net_owner'']"
    by (simp add: b_def b4_def b3_def b1_def boot_steps split: sum.split)
  moreover have "bb_inv 1 (bo_bb b)"
    by (simp add: b_def b4_def b3_def b1_def boot_steps bb_boot_inv split: sum.split)
  moreover have "lb_inv 0 (bo_logbuf b)" "bo_hook b"
    by (simp_all add: b_def b4_def b3_def b1_def boot_steps lb_init_inv split: sum.split)
  moreover have "gBootProgress (bo_app b) = BootProgress.Running" "ap_controller (bo_app b)"
      "gBuretteState (bo_app b) = BuretteState.Idle" "\<not> gValveIsSettling (bo_app b)" "\<not> gStopFull (bo_app b)"
      "ap_motorQueue (bo_app b) = None" "ap_resultQueue (bo_app b) = None"
    by (simp_all add: b_def b4_def b3_def b1_def boot_steps app_init_def globals.defs app.defs globals_init_def split: sum.split)
  moreover have "isInitialized (bo_serial b)
      \<longleftrightarrow> up_install (be_uart env) \<and> up_config (be_uart env) \<and> up_pins (be_uart env) \<and> 0 \<le> up_open (be_uart env)"
    unfolding serial_ready [symmetric]
    by (simp add: b_def b4_def b3_def b1_def boot_steps split: sum.split)
  moreover have "bo_led b = l \<and> bo_light b = [syms]"
    by (simp add: b_def b4_def b3_def b1_def boot_steps split: sum.split)
  then have "light_ok (main_of b) \<longleftrightarrow> be_led env = (True, True, True)"
    using boot_light_total(2) [of syms l] boot_light_init [OF l] l led by (auto simp: light_ok_def main_of_def)
  moreover have "b0 = b" using val assms by simp
  ultimately show ?thesis by simp
qed


end
