(* ===== verification/Tmc_Uart.thy ===== *)
theory Tmc_Uart
  imports Diagnostics
begin

text \<open>
  The register interface of the TMC2209 motor driver
  (\<^verbatim>\<open>infrastructure/src/drivers/tmc_uart.cpp\<close>).  The UART library is a parameter of the model:
  a record of its calls over an abstract port.  The port number and the pins are constants of the
  program; delays are not observable here.
\<close>

unbundle bit_operations_syntax

declare One_nat_def [simp del]

subsection \<open>The UART library\<close>

record 'u uart_api =
  ua_install :: "u32 \<Rightarrow> 'u \<Rightarrow> bool \<times> 'u"
  ua_param :: "'u \<Rightarrow> bool \<times> 'u"
  ua_pins :: "'u \<Rightarrow> bool \<times> 'u"
  ua_delete :: "'u \<Rightarrow> 'u"
  ua_write :: "u8 list \<Rightarrow> 'u \<Rightarrow> int \<times> 'u"
  ua_wait_tx :: "'u \<Rightarrow> bool \<times> 'u"
  ua_read :: "nat \<Rightarrow> 'u \<Rightarrow> u8 list \<times> 'u"

record 'u TmcUart =
  tu_initialized :: bool
  tu_port :: 'u

definition TMC_REG_GCONF :: u8 where "TMC_REG_GCONF = 0x00"
definition TMC_REG_IOIN :: u8 where "TMC_REG_IOIN = 0x08"
definition TMC_REG_TCOOLTHRS :: u8 where "TMC_REG_TCOOLTHRS = 0x14"
definition TMC_REG_SGTHRS :: u8 where "TMC_REG_SGTHRS = 0x40"
definition TMC_REG_COOLCONF :: u8 where "TMC_REG_COOLCONF = 0x42"
definition TMC_REG_CHOPCONF :: u8 where "TMC_REG_CHOPCONF = 0x6C"
definition TMC_REG_PWMCONF :: u8 where "TMC_REG_PWMCONF = 0x70"

subsection \<open>The checksum\<close>

definition crc_bit :: "u8 \<Rightarrow> u8" where
  "crc_bit crc = (if crc AND 0x80 \<noteq> 0 then push_bit 1 crc XOR 0x07 else push_bit 1 crc)"

definition crc_byte :: "u8 \<Rightarrow> u8 \<Rightarrow> u8" where
  "crc_byte d crc = (crc_bit ^^ 8) (crc XOR d)"

definition computeCrc :: "u8 list \<Rightarrow> u8" where
  "computeCrc data = fold crc_byte data 0"

subsection \<open>Frames\<close>

definition byte_of :: "nat \<Rightarrow> u32 \<Rightarrow> u8" where
  "byte_of k v = ucast (drop_bit k v AND 0xFF)"

definition write_body :: "u8 \<Rightarrow> u32 \<Rightarrow> u8 list" where
  "write_body reg v = [0x05, reg, byte_of 24 v, byte_of 16 v, byte_of 8 v, byte_of 0 v]"

definition write_frame :: "u8 \<Rightarrow> u32 \<Rightarrow> u8 list" where
  "write_frame reg v = (let b = write_body reg v; crc = computeCrc b in b @ [crc, crc])"

definition read_request :: "u8 \<Rightarrow> u8 list" where
  "read_request reg = [0x07, reg, computeCrc [0x07, reg]]"

text \<open>\<open>resp\<close> is the eight bytes read.\<close>

definition validateResponse :: "u8 \<Rightarrow> u8 list \<Rightarrow> u32 option" where
  "validateResponse reg resp =
     (if resp ! 0 \<noteq> 0x05 \<or> resp ! 1 \<noteq> reg then None
      else let expectedCrc = computeCrc (take 6 resp);
               receivedCrc = (ucast (resp ! 6) :: u16) OR push_bit 8 (ucast (resp ! 7))
           in if (ucast expectedCrc :: u16) \<noteq> receivedCrc AND 0xFF then None
              else Some (push_bit 24 (ucast (resp ! 2)) OR push_bit 16 (ucast (resp ! 3))
                         OR push_bit 8 (ucast (resp ! 4)) OR ucast (resp ! 5)))"

subsection \<open>The driver\<close>

definition tmc_deinit :: "'u uart_api \<Rightarrow> 'u TmcUart \<Rightarrow> 'u TmcUart" where
  "tmc_deinit api t =
     (if tu_initialized t then t\<lparr>tu_port := ua_delete api (tu_port t), tu_initialized := False\<rparr> else t)"

definition tmc_init :: "'u uart_api \<Rightarrow> u32 \<Rightarrow> 'u TmcUart \<Rightarrow> bool \<times> 'u TmcUart" where
  "tmc_init api baud t0 =
     (let t = (if tu_initialized t0 then tmc_deinit api t0 else t0);
          (ok1, p1) = ua_install api baud (tu_port t)
      in if \<not> ok1 then (False, t\<lparr>tu_port := p1\<rparr>)
         else let (ok2, p2) = ua_param api p1
              in if \<not> ok2 then (False, t\<lparr>tu_port := ua_delete api p2\<rparr>)
                 else let (ok3, p3) = ua_pins api p2
                      in if \<not> ok3 then (False, t\<lparr>tu_port := ua_delete api p3\<rparr>)
                         else (True, t\<lparr>tu_port := p3, tu_initialized := True\<rparr>))"

definition send_bytes :: "'u uart_api \<Rightarrow> u8 list \<Rightarrow> 'u \<Rightarrow> bool \<times> 'u" where
  "send_bytes api bs p =
     (let (written, p1) = ua_write api bs p
      in if written \<noteq> int (length bs) then (False, p1) else ua_wait_tx api p1)"

definition writeRegister :: "'u uart_api \<Rightarrow> u8 \<Rightarrow> u32 \<Rightarrow> 'u TmcUart \<Rightarrow> bool \<times> 'u TmcUart" where
  "writeRegister api reg v t =
     (if \<not> tu_initialized t then (False, t)
      else let (ok, p) = send_bytes api (write_frame reg v) (tu_port t) in (ok, t\<lparr>tu_port := p\<rparr>))"

definition receiveResponse :: "'u uart_api \<Rightarrow> 'u \<Rightarrow> u8 list option \<times> 'u" where
  "receiveResponse api p =
     (let (bs, p1) = ua_read api 8 p in (if length bs < 8 then None else Some bs, p1))"

definition sendReadRequest :: "'u uart_api \<Rightarrow> u8 \<Rightarrow> 'u \<Rightarrow> bool \<times> 'u" where
  "sendReadRequest api reg p = send_bytes api (read_request reg) p"

definition readRegister :: "'u uart_api \<Rightarrow> u8 \<Rightarrow> 'u TmcUart \<Rightarrow> u32 option \<times> 'u TmcUart" where
  "readRegister api reg t =
     (if \<not> tu_initialized t then (None, t)
      else let (ok, p) = sendReadRequest api reg (tu_port t)
           in if \<not> ok then (None, t\<lparr>tu_port := p\<rparr>)
              else let (r, p1) = receiveResponse api p
                   in (Option.bind r (validateResponse reg), t\<lparr>tu_port := p1\<rparr>))"

definition testConnection :: "'u uart_api \<Rightarrow> 'u TmcUart \<Rightarrow> bool \<times> 'u TmcUart" where
  "testConnection api t =
     (let (r, t1) = readRegister api TMC_REG_IOIN t
      in (case r of None \<Rightarrow> (False, t1) | Some ioin \<Rightarrow> (ioin \<noteq> 0 \<and> ioin \<noteq> 0xFFFFFFFF, t1)))"

subsection \<open>Every corrupted byte is detected\<close>

text \<open>One bit of the division can be undone: the low bit of the result tells whether the polynomial
  was subtracted.\<close>

definition crc_unbit :: "u8 \<Rightarrow> u8" where
  "crc_unbit c = (if c AND 1 \<noteq> 0 then drop_bit 1 (c XOR 0x07) OR 0x80 else drop_bit 1 c)"

declare bit_numeral_word_iff [simp del]

lemma const_bits:
  "bit (0x07 :: u8) n \<longleftrightarrow> n < 3" "bit (0x80 :: u8) n \<longleftrightarrow> n = 7"
proof -
  have m: "(0x07 :: u8) = mask 3" "(0x80 :: u8) = push_bit 7 1" by (simp_all add: mask_eq_exp_minus_1)
  show "bit (0x07 :: u8) n \<longleftrightarrow> n < 3" unfolding m bit_mask_iff by auto
  show "bit (0x80 :: u8) n \<longleftrightarrow> n = 7" unfolding m bit_push_bit_iff bit_1_iff by auto
qed

lemma high_bit: "x AND 0x80 \<noteq> 0 \<longleftrightarrow> bit (x :: u8) 7"
proof -
  have "x AND 0x80 \<noteq> 0 \<longleftrightarrow> (\<exists>n. bit (x AND 0x80) n)" by (metis bit_eq_iff bit_0_eq bot_apply bot_bool_def)
  then show ?thesis by (auto simp: bit_and_iff const_bits)
qed

lemma bit_crc_bit: "n < 8 \<Longrightarrow> bit (crc_bit x) n \<longleftrightarrow> (0 < n \<and> bit x (n - 1)) \<noteq> (bit x 7 \<and> n < 3)"
  unfolding crc_bit_def high_bit by (auto simp: bit_push_bit_iff bit_xor_iff const_bits)

lemma odd_bit: "x AND 1 \<noteq> 0 \<longleftrightarrow> bit (x :: u8) 0"
  by (simp add: and_one_eq bit_0 odd_iff_mod_2_eq_one)

lemma bit_crc_unbit: "n < 8 \<Longrightarrow> bit (crc_unbit c) n \<longleftrightarrow>
    (if bit c 0 then n = 7 \<or> (bit c (n + 1) \<noteq> (n < 2)) else bit c (n + 1))"
  unfolding crc_unbit_def odd_bit
  by (auto simp: add.commute [of 1] bit_drop_bit_eq bit_xor_iff bit_or_iff const_bits)

lemma crc_unbit_bit: "crc_unbit (crc_bit x) = x"
proof (rule bit_word_eqI)
  fix n assume "n < LENGTH(8)"
  then have n: "n < 8" by simp
  show "bit (crc_unbit (crc_bit x)) n = bit x n"
  proof (cases "n = 7")
    case True
    have "\<not> bit (crc_bit x) 8" using bit_imp_le_length [of "crc_bit x" 8] by auto
    then show ?thesis using bit_crc_bit [of 0 x] by (simp add: True bit_crc_unbit)
  next
    case False
    then show ?thesis using n bit_crc_bit [of 0 x] bit_crc_bit [of "n + 1" x] by (auto simp add: bit_crc_unbit)
  qed
qed

declare bit_numeral_word_iff [simp]

lemma crc_byte_inj: "crc_byte d x = crc_byte d y \<Longrightarrow> x = y"
proof -
  have u: "(crc_unbit ^^ n) ((crc_bit ^^ n) z) = z" for n z
    by (induction n arbitrary: z) (simp_all add: crc_unbit_bit funpow_swap1)
  assume "crc_byte d x = crc_byte d y"
  then have "x XOR d = y XOR d" unfolding crc_byte_def by (metis u)
  then have "(x XOR d) XOR d = (y XOR d) XOR d" by simp
  then show ?thesis by (simp add: xor.assoc)
qed

lemma fold_crc_inj: "fold crc_byte ds x = fold crc_byte ds y \<Longrightarrow> x = y"
  by (induction ds arbitrary: x y) (auto dest: crc_byte_inj)

lemma crc_byte_data: "crc_byte d x = crc_byte e x \<Longrightarrow> d = e"
  using crc_byte_inj [of x d e] by (simp add: crc_byte_def xor.commute)

lemma computeCrc_update:
  assumes "computeCrc (bs[i := b]) = computeCrc bs" and "i < length bs"
  shows "b = bs ! i"
proof -
  let ?p = "fold crc_byte (take i bs) 0"
  have "computeCrc bs = fold crc_byte (drop (Suc i) bs) (crc_byte (bs ! i) ?p)"
    by (subst id_take_nth_drop [OF assms(2)]) (simp add: computeCrc_def)
  moreover have "computeCrc (bs[i := b]) = fold crc_byte (drop (Suc i) bs) (crc_byte b ?p)"
    by (subst upd_conv_take_nth_drop [OF assms(2)]) (simp add: computeCrc_def)
  ultimately have "crc_byte b ?p = crc_byte (bs ! i) ?p"
    using assms(1) fold_crc_inj [of "drop (Suc i) bs"] by simp
  then show ?thesis by (rule crc_byte_data)
qed

lemma join_bytes:
  "push_bit 24 (ucast (byte_of 24 v)) OR push_bit 16 (ucast (byte_of 16 v))
     OR push_bit 8 (ucast (byte_of 8 v)) OR ucast (byte_of 0 v) = (v :: u32)"
proof (rule bit_word_eqI)
  fix n assume n: "n < LENGTH(32)"
  have "bit (0xFF :: u32) k \<longleftrightarrow> k < 8" for k
  proof -
    have m: "(0xFF :: u32) = mask 8" by (simp add: mask_eq_exp_minus_1)
    show ?thesis unfolding m bit_mask_iff by auto
  qed
  then have b: "bit (byte_of k v) j \<longleftrightarrow> j < 8 \<and> bit v (k + j)" for k j
    unfolding byte_of_def by (auto simp: bit_simps)
  have "n < 8 \<or> n \<in> {8 ..< 16} \<or> n \<in> {16 ..< 24} \<or> n \<in> {24 ..< 32}" using n by auto
  then show "bit (push_bit 24 (ucast (byte_of 24 v)) OR push_bit 16 (ucast (byte_of 16 v))
     OR push_bit 8 (ucast (byte_of 8 v)) OR (ucast (byte_of 0 v) :: u32)) n = bit v n"
    using n by (auto simp: bit_simps b)
qed

lemma low_byte:
  fixes c d :: u8
  shows "((ucast c :: u16) OR push_bit 8 (ucast d)) AND 0xFF = ucast c"
proof (rule bit_word_eqI)
  fix n assume n: "n < LENGTH(16)"
  have m: "(0xFF :: u16) = mask 8" by (simp add: mask_eq_exp_minus_1)
  have "bit (0xFF :: u16) n \<longleftrightarrow> n < 8" unfolding m bit_mask_iff using n by auto
  then show "bit (((ucast c :: u16) OR push_bit 8 (ucast d)) AND 0xFF) n = bit (ucast c :: u16) n"
    using n by (auto simp: bit_simps dest: bit_imp_le_length)
qed

lemma validateResponse_eq:
  "validateResponse reg resp =
     (if resp ! 0 = 0x05 \<and> resp ! 1 = reg \<and> computeCrc (take 6 resp) = resp ! 6
      then Some (push_bit 24 (ucast (resp ! 2)) OR push_bit 16 (ucast (resp ! 3))
                 OR push_bit 8 (ucast (resp ! 4)) OR ucast (resp ! 5)) else None)"
proof -
  have "(ucast (a :: u8) :: u16) = ucast b \<longleftrightarrow> a = b" for a b
    by (simp add: word_unat_eq_iff unat_ucast_up)
  then show ?thesis by (simp add: validateResponse_def low_byte)
qed


end
