(* ===== verification/Motor_Driver.thy ===== *)
theory Motor_Driver
  imports Tmc_Uart App_State
begin

text \<open>
  The stepper driver and the limit switches (\<^verbatim>\<open>infrastructure/src/drivers/stepper.cpp\<close>,
  \<^verbatim>\<open>limitswitch.cpp\<close>) as the motor task sees them.  The pulse peripheral and the plant
  behind it are a parameter, \<open>motor_api\<close>, over an abstract hardware state \<open>'h\<close>.  What interrupts and
  other tasks do concurrently becomes visible when the motor task next reads an atomic flag or the
  tick counter: \<open>look\<close> asks the plant which stop flags were raised and how many ticks went by.  A
  loop that does not end, like an undefined operation, has the value \<^term>\<open>None\<close>.
\<close>

unbundle bit_operations_syntax

declare One_nat_def [simp del]

subsection \<open>The hardware\<close>

datatype esp_err = ESP_OK | ESP_ERR_TIMEOUT | ESP_ERR_INVALID_STATE | ESP_FAIL

record seen =
  sn_full :: bool
  sn_empty :: bool
  sn_ticks :: u32

record 'h motor_api =
  hw_transmit :: "u32 list \<Rightarrow> 'h \<Rightarrow> esp_err \<times> 'h"
  hw_wait :: "nat \<Rightarrow> 'h \<Rightarrow> esp_err \<times> 'h"
  hw_look :: "bool \<Rightarrow> bool \<Rightarrow> 'h \<Rightarrow> seen \<times> 'h"
  hw_now :: "'h \<Rightarrow> u64"

text \<open>
  The state of the motor task: the state it shares with the other tasks, the hardware, the tick
  counter, the levels of the direction and enable pins (enabled when low), the step position,
  the black box and the driver of the TMC2209.  Feeding the watchdogs has no effect here.
\<close>

record ('w, 'h, 'u) motor =
  mt_app :: "'w app"
  mt_hw :: 'h
  mt_tick :: u32
  mt_dirPin :: bool
  mt_enPin :: bool
  mt_position :: i32
  mt_bb :: BlackBoxRing
  mt_tmc :: "'u TmcUart"

definition RMT_CHUNK_SYMBOLS :: nat where "RMT_CHUNK_SYMBOLS = 128"

subsection \<open>Stop flags\<close>

datatype stop_flag = StopFull | StopEmpty

definition flag_set :: "stop_flag \<Rightarrow> ('w, 'h, 'u) motor \<Rightarrow> bool" where
  "flag_set fl m = (case fl of StopFull \<Rightarrow> gStopFull (mt_app m) | StopEmpty \<Rightarrow> gStopEmpty (mt_app m))"

definition store_flag :: "stop_flag \<Rightarrow> bool \<Rightarrow> ('w, 'h, 'u) motor \<Rightarrow> ('w, 'h, 'u) motor" where
  "store_flag fl b m =
     (case fl of
        StopFull \<Rightarrow> m\<lparr>mt_app := (mt_app m)\<lparr>gStopFull := b\<rparr>\<rparr>
      | StopEmpty \<Rightarrow> m\<lparr>mt_app := (mt_app m)\<lparr>gStopEmpty := b\<rparr>\<rparr>)"

text \<open>The interrupt handler of a limit switch only raises its flag; so do the other tasks.\<close>

definition look :: "'h motor_api \<Rightarrow> ('w, 'h, 'u) motor \<Rightarrow> ('w, 'h, 'u) motor" where
  "look api m =
     (let (s, h) = hw_look api (mt_dirPin m) (mt_enPin m) (mt_hw m)
      in m\<lparr>mt_app := (mt_app m)\<lparr>gStopFull := gStopFull (mt_app m) \<or> sn_full s,
                               gStopEmpty := gStopEmpty (mt_app m) \<or> sn_empty s\<rparr>,
           mt_hw := h, mt_tick := mt_tick m + sn_ticks s\<rparr>)"

definition delay :: "'h motor_api \<Rightarrow> u32 \<Rightarrow> ('w, 'h, 'u) motor \<Rightarrow> ('w, 'h, 'u) motor" where
  "delay api n m = look api (m\<lparr>mt_tick := mt_tick m + n\<rparr>)"

definition set_state :: "BuretteState \<Rightarrow> ('w, 'h, 'u) motor \<Rightarrow> ('w, 'h, 'u) motor" where
  "set_state st m = m\<lparr>mt_app := (mt_app m)\<lparr>gBuretteState := st\<rparr>\<rparr>"

definition trace :: "'h motor_api \<Rightarrow> ('w, 'h, 'u) motor \<Rightarrow> ('w, 'h, 'u) motor" where
  "trace api m = m\<lparr>mt_bb := logBuretteTransition (hw_now api (mt_hw m)) (mt_bb m)\<rparr>"

subsection \<open>The limit switch\<close>

definition isTriggered :: "stop_flag \<Rightarrow> ('w, 'h, 'u) motor \<Rightarrow> bool" where
  "isTriggered sw m = flag_set sw m"

definition clear_switch :: "stop_flag \<Rightarrow> ('w, 'h, 'u) motor \<Rightarrow> ('w, 'h, 'u) motor" where
  "clear_switch sw m = store_flag sw False m"

definition limitswitch_isr_handler :: "stop_flag \<Rightarrow> ('w, 'h, 'u) motor \<Rightarrow> ('w, 'h, 'u) motor" where
  "limitswitch_isr_handler sw m = store_flag sw True m"

subsection \<open>The stepper\<close>

definition emergencyStop :: "'h motor_api \<Rightarrow> ('w, 'h, 'u) motor \<Rightarrow> ('w, 'h, 'u) motor" where
  "emergencyStop api m = (let m1 = m\<lparr>mt_enPin := True\<rparr> in m1\<lparr>mt_hw := snd (hw_wait api 0 (mt_hw m1))\<rparr>)"

definition enable :: "('w, 'h, 'u) motor \<Rightarrow> ('w, 'h, 'u) motor" where
  "enable m = m\<lparr>mt_enPin := False\<rparr>"

definition disable :: "('w, 'h, 'u) motor \<Rightarrow> ('w, 'h, 'u) motor" where
  "disable m = m\<lparr>mt_enPin := True\<rparr>"

text \<open>One pulse symbol: two durations of 15 bits with their levels.\<close>

definition pulse_us :: "u32 \<Rightarrow> u32" where
  "pulse_us interval = (let pulseUs = 5 in if interval \<le> pulseUs * 2 then interval div 2 else pulseUs)"

definition symbol_of :: "u32 \<Rightarrow> u32" where
  "symbol_of interval =
     (let d0 = ucast (ucast (pulse_us interval) :: u16) AND 0x7FFF;
          d1 = ucast (ucast (interval - pulse_us interval) :: u16) AND 0x7FFF
      in d0 OR push_bit 15 1 OR push_bit 16 d1)"

definition MAX_RETRIES :: nat where "MAX_RETRIES = 10"

type_synonym ('w, 'h, 'u) moved = "(StepperError + unit) \<times> ('w, 'h, 'u) motor"

definition stopped :: "'h motor_api \<Rightarrow> ('w, 'h, 'u) motor \<Rightarrow> ('w, 'h, 'u) moved" where
  "stopped api m = (Inl LimitSwitchTriggered, emergencyStop api m)"

fun transmit :: "'h motor_api \<Rightarrow> stop_flag \<Rightarrow> u32 list \<Rightarrow> nat \<Rightarrow> ('w, 'h, 'u) motor \<Rightarrow> ('w, 'h, 'u) moved" where
  "transmit api fl symbols left m =
     (let m1 = look api m
      in if flag_set fl m1 then stopped api m1
         else let (e, h) = hw_transmit api symbols (mt_hw m1); m2 = m1\<lparr>mt_hw := h\<rparr>
              in if e = ESP_OK then (Inr (), m2)
                 else if e \<noteq> ESP_ERR_INVALID_STATE then (Inl StepperError.Rmt, m2)
                 else case left of
                        0 \<Rightarrow> (Inl StepperError.Rmt, m2)
                      | Suc k \<Rightarrow> transmit api fl symbols k (delay api 10 m2))"

declare transmit.simps [simp del]

partial_function (option) wait_all_done ::
  "'h motor_api \<Rightarrow> stop_flag \<Rightarrow> ('w, 'h, 'u) motor \<Rightarrow> ('w, 'h, 'u) moved option" where
  "wait_all_done api fl m =
     (let (e, h) = hw_wait api 100 (mt_hw m); m1 = m\<lparr>mt_hw := h\<rparr>
      in if e = ESP_OK then Some (Inr (), m1)
         else if e \<noteq> ESP_ERR_TIMEOUT then Some (Inl StepperError.Rmt, m1)
         else let m2 = look api m1
              in if flag_set fl m2 then Some (stopped api m2) else wait_all_done api fl m2)"

definition send_chunk :: "'h motor_api \<Rightarrow> stop_flag \<Rightarrow> u32 list \<Rightarrow> ('w, 'h, 'u) motor \<Rightarrow> ('w, 'h, 'u) moved option" where
  "send_chunk api fl chunk m =
     (case transmit api fl (map symbol_of chunk) MAX_RETRIES m of
        (Inl e, m1) \<Rightarrow> Some (Inl e, m1)
      | (Inr _, m1) \<Rightarrow>
          (case wait_all_done api fl m1 of
             None \<Rightarrow> None
           | Some (Inl e, m2) \<Rightarrow> Some (Inl e, m2)
           | Some (Inr _, m2) \<Rightarrow> Some (Inr (), m2\<lparr>mt_position := mt_position m2 + word_of_nat (length chunk)\<rparr>)))"

function moveStepsIntervals ::
  "'h motor_api \<Rightarrow> stop_flag \<Rightarrow> u32 list \<Rightarrow> ('w, 'h, 'u) motor \<Rightarrow> ('w, 'h, 'u) moved option" where
  "moveStepsIntervals api fl intervals m =
     (if intervals = [] then Some (Inr (), m)
      else let m1 = look api m
           in if flag_set fl m1 then Some (stopped api m1)
              else case send_chunk api fl (take RMT_CHUNK_SYMBOLS intervals) m1 of
                     None \<Rightarrow> None
                   | Some (Inl e, m2) \<Rightarrow> Some (Inl e, m2)
                   | Some (Inr _, m2) \<Rightarrow> moveStepsIntervals api fl (drop RMT_CHUNK_SYMBOLS intervals) m2)"
  by pat_completeness auto
termination
  by (relation "measure (\<lambda>(api, fl, xs, m). length xs)") (auto simp: RMT_CHUNK_SYMBOLS_def)

declare moveStepsIntervals.simps [simp del]

subsection \<open>What the operations keep\<close>

lemma look_simps [simp]:
  "mt_position (look api m) = mt_position m" "mt_enPin (look api m) = mt_enPin m"
  "mt_dirPin (look api m) = mt_dirPin m" "mt_bb (look api m) = mt_bb m" "mt_tmc (look api m) = mt_tmc m"
  by (simp_all add: look_def case_prod_beta)

lemma flag_look: "flag_set fl m \<Longrightarrow> flag_set fl (look api m)"
  by (cases fl) (simp_all add: look_def flag_set_def case_prod_beta)

text \<open>The shared state without its stop flags, which is all that the concurrent tasks change.\<close>

definition calm :: "'w app \<Rightarrow> 'w app" where
  "calm s = s\<lparr>gStopFull := False, gStopEmpty := False\<rparr>"

lemma calm_look [simp]: "calm (mt_app (look api m)) = calm (mt_app m)"
  by (simp add: look_def calm_def case_prod_beta)

lemma calm_store_flag [simp]: "calm (mt_app (store_flag fl b m)) = calm (mt_app m)"
  by (cases fl) (simp_all add: store_flag_def calm_def)

lemma calm_stop [simp]: "mt_app (emergencyStop api m) = mt_app m"
  by (simp add: emergencyStop_def Let_def)

text \<open>\<open>m'\<close> differs from \<open>m\<close> in the hardware, the clock, the enable pin and raised flags only.\<close>

definition same :: "stop_flag \<Rightarrow> ('w, 'h, 'u) motor \<Rightarrow> ('w, 'h, 'u) motor \<Rightarrow> bool" where
  "same fl m m' \<longleftrightarrow>
     calm (mt_app m') = calm (mt_app m) \<and> mt_dirPin m' = mt_dirPin m \<and> mt_bb m' = mt_bb m \<and> mt_tmc m' = mt_tmc m
     \<and> mt_position m' = mt_position m \<and> (flag_set fl m \<longrightarrow> flag_set fl m')"

lemma same_refl [simp]: "same fl m m"
  by (simp add: same_def)

lemma same_trans: "same fl m1 m2 \<Longrightarrow> same fl m2 m3 \<Longrightarrow> same fl m1 m3"
  by (simp add: same_def)

lemma same_look [simp]: "same fl m (look api m)"
  by (simp add: same_def flag_look)

lemma same_hw [simp]: "same fl m (m\<lparr>mt_hw := h\<rparr>)" "same fl m (m\<lparr>mt_tick := n\<rparr>)" "same fl m (m\<lparr>mt_enPin := b\<rparr>)"
  by (simp_all add: same_def flag_set_def split: stop_flag.split)

lemma same_delay [simp]: "same fl m (delay api n m)"
  unfolding delay_def by (rule same_trans [of _ _ "m\<lparr>mt_tick := mt_tick m + n\<rparr>"]) simp_all

lemma same_stop [simp]: "same fl m (emergencyStop api m)"
  unfolding emergencyStop_def Let_def by (rule same_trans [of _ _ "m\<lparr>mt_enPin := True\<rparr>"]) simp_all

lemma en_simps [simp]:
  "mt_enPin (delay api n m) = mt_enPin m" "mt_enPin (emergencyStop api m)" "\<not> mt_enPin (enable m)"
  "mt_position (emergencyStop api m) = mt_position m" "flag_set fl (emergencyStop api m) = flag_set fl m"
  by (simp_all add: delay_def emergencyStop_def enable_def Let_def flag_set_def split: stop_flag.split)

text \<open>The outcome of a part of a move: a stop comes with a raised flag and a disabled driver.\<close>

definition outcome_ok :: "stop_flag \<Rightarrow> ('w, 'h, 'u) motor \<Rightarrow> ('w, 'h, 'u) moved \<Rightarrow> bool" where
  "outcome_ok fl m r \<longleftrightarrow>
     (if fst r = Inl LimitSwitchTriggered then mt_enPin (snd r) \<and> flag_set fl (snd r)
      else mt_enPin (snd r) = mt_enPin m)"

lemma stopped_ok: "flag_set fl m \<Longrightarrow> same fl m' m \<Longrightarrow> same fl m' (snd (stopped api m)) \<and> outcome_ok fl m' (stopped api m)"
  using same_trans [OF _ same_stop] by (simp add: stopped_def outcome_ok_def)

lemma transmit_ok: "same fl m (snd (transmit api fl symbols left m)) \<and> outcome_ok fl m (transmit api fl symbols left m)"
proof (induction api fl symbols left m rule: transmit.induct)
  case (1 api fl symbols left m)
  obtain e h where e: "hw_transmit api symbols (mt_hw (look api m)) = (e, h)" by fastforce
  let ?m2 = "(look api m)\<lparr>mt_hw := h\<rparr>"
  have m2: "same fl m ?m2" "mt_enPin ?m2 = mt_enPin m" by (auto intro: same_trans [OF same_look same_hw(1)])
  show ?case
  proof (cases "flag_set fl (look api m)")
    case True
    then show ?thesis using stopped_ok [OF True same_look] by (subst (1 2) transmit.simps) (simp add: Let_def)
  next
    case False
    show ?thesis
    proof (cases "e = ESP_ERR_INVALID_STATE \<and> left \<noteq> 0")
      case True
      then obtain k where k: "left = Suc k" by (cases left) auto
      have "same fl (delay api 10 ?m2) (snd (transmit api fl symbols k (delay api 10 ?m2)))
          \<and> outcome_ok fl (delay api 10 ?m2) (transmit api fl symbols k (delay api 10 ?m2))"
        by (rule "1.IH" [OF refl False e [symmetric] refl]) (use True k in auto)
      moreover have "transmit api fl symbols left m = transmit api fl symbols k (delay api 10 ?m2)"
        using False e True k by (subst transmit.simps) (simp add: Let_def)
      ultimately show ?thesis
        using same_trans [OF same_trans [OF m2(1) same_delay]] m2(2) by (auto simp: outcome_ok_def)
    next
      case no: False
      then show ?thesis using False e m2
        by (subst (1 2) transmit.simps) (auto simp: Let_def outcome_ok_def split: nat.split)
    qed
  qed
qed

lemma wait_ok:
  fixes m :: "('w, 'h, 'u) motor"
  assumes "wait_all_done api fl m = Some r"
  shows "same fl m (snd r) \<and> outcome_ok fl m r"
proof (rule wait_all_done.raw_induct [of "\<lambda>api fl m r. same fl m (snd r) \<and> outcome_ok fl m r", OF _ assms])
  fix wait :: "'h motor_api \<Rightarrow> stop_flag \<Rightarrow> ('w, 'h, 'u) motor \<Rightarrow> ('w, 'h, 'u) moved option"
    and api :: "'h motor_api" and fl and m :: "('w, 'h, 'u) motor" and r
  assume IH: "\<And>api fl (m :: ('w, 'h, 'u) motor) r. wait api fl m = Some r \<Longrightarrow> same fl m (snd r) \<and> outcome_ok fl m r"
  obtain e h where e: "hw_wait api 100 (mt_hw m) = (e, h)" by fastforce
  let ?m1 = "m\<lparr>mt_hw := h\<rparr>"
  have l: "same fl m (look api ?m1)" by (rule same_trans [OF same_hw(1) same_look])
  assume "(let (e, h) = hw_wait api 100 (mt_hw m); m1 = m\<lparr>mt_hw := h\<rparr>
      in if e = ESP_OK then Some (Inr (), m1)
         else if e \<noteq> ESP_ERR_TIMEOUT then Some (Inl StepperError.Rmt, m1)
         else let m2 = look api m1
              in if flag_set fl m2 then Some (stopped api m2) else wait api fl m2) = Some r"
  then show "same fl m (snd r) \<and> outcome_ok fl m r"
    using stopped_ok [of fl "look api ?m1", OF _ l] IH [of api fl "look api ?m1" r] same_trans [OF l]
    by (auto simp: e Let_def outcome_ok_def split: if_splits)
qed

text \<open>A move advances the position by whole chunks only, by the whole move when it succeeds.\<close>

definition advanced :: "stop_flag \<Rightarrow> nat \<Rightarrow> ('w, 'h, 'u) motor \<Rightarrow> ('w, 'h, 'u) moved \<Rightarrow> bool" where
  "advanced fl n m r \<longleftrightarrow>
     (\<exists>k \<le> n. same fl (m\<lparr>mt_position := mt_position m + word_of_nat k\<rparr>) (snd r) \<and> (fst r = Inr () \<longrightarrow> k = n))
     \<and> outcome_ok fl m r"

lemma same_position: "same fl m m' \<Longrightarrow> same fl (m\<lparr>mt_position := mt_position m + x\<rparr>) (m'\<lparr>mt_position := mt_position m' + x\<rparr>)"
  by (simp add: same_def flag_set_def split: stop_flag.splits)

lemma advanced_0: "same fl m (snd r) \<Longrightarrow> outcome_ok fl m r \<Longrightarrow> fst r \<noteq> Inr () \<Longrightarrow> advanced fl n m r"
  unfolding advanced_def by (auto intro!: exI [of _ 0])

lemma send_chunk_ok:
  assumes "send_chunk api fl chunk m = Some r"
  shows "advanced fl (length chunk) m r"
proof -
  obtain a m1 where t: "transmit api fl (map symbol_of chunk) MAX_RETRIES m = (a, m1)" by fastforce
  have s1: "same fl m m1" and o1: "outcome_ok fl m (a, m1)"
    using transmit_ok [of fl m api "map symbol_of chunk" MAX_RETRIES] by (simp_all add: t)
  show ?thesis
  proof (cases a)
    case (Inl e)
    then show ?thesis using assms s1 o1 by (auto simp: send_chunk_def t intro: advanced_0)
  next
    case (Inr u)
    then obtain b m2 where w: "wait_all_done api fl m1 = Some (b, m2)"
      using assms by (auto simp: send_chunk_def t split: option.splits)
    have s2: "same fl m m2" and o2: "outcome_ok fl m1 (b, m2)"
      using wait_ok [OF w] same_trans [OF s1] by auto
    have e1: "mt_enPin m1 = mt_enPin m" using o1 Inr by (simp add: outcome_ok_def)
    show ?thesis
    proof (cases b)
      case b: (Inl e)
      then show ?thesis using assms s2 o2 e1
        by (auto simp: send_chunk_def t w Inr outcome_ok_def intro!: advanced_0 split: if_splits)
    next
      case b: (Inr v)
      then have "r = (Inr (), m2\<lparr>mt_position := mt_position m2 + word_of_nat (length chunk)\<rparr>)"
        using assms by (simp add: send_chunk_def t w Inr)
      then show ?thesis using same_position [OF s2] o2 e1
        by (auto simp: advanced_def b outcome_ok_def)
    qed
  qed
qed

lemma same_advance:
  "same fl (m\<lparr>mt_position := mt_position m + x\<rparr>) m'
    \<Longrightarrow> same fl (m\<lparr>mt_position := mt_position m + (x + y)\<rparr>) (m'\<lparr>mt_position := mt_position m' + y\<rparr>)"
  by (simp add: same_def flag_set_def add.assoc split: stop_flag.splits)

lemma same_flag: "same fl m m' \<Longrightarrow> same fl (m\<lparr>mt_position := p\<rparr>) (m'\<lparr>mt_position := p\<rparr>)"
  by (simp add: same_def flag_set_def split: stop_flag.splits)

lemma intervals_ok:
  "moveStepsIntervals api fl xs m = Some r \<Longrightarrow> advanced fl (length xs) m r"
proof (induction api fl xs m arbitrary: r rule: moveStepsIntervals.induct)
  case (1 api fl xs m)
  show ?case
  proof (cases "xs = [] \<or> flag_set fl (look api m)")
    case True
    then show ?thesis
      using "1.prems" stopped_ok [of fl "look api m" m api]
      by (subst (asm) moveStepsIntervals.simps)
        (auto simp: Let_def advanced_def outcome_ok_def stopped_def intro!: exI [of _ 0] split: if_splits)
  next
    case False
    let ?n = "length (take RMT_CHUNK_SYMBOLS xs)" and ?d = "drop RMT_CHUNK_SYMBOLS xs"
    have eq: "moveStepsIntervals api fl xs m = (case send_chunk api fl (take RMT_CHUNK_SYMBOLS xs) (look api m) of
                     None \<Rightarrow> None
                   | Some (Inl e, m2) \<Rightarrow> Some (Inl e, m2)
                   | Some (Inr _, m2) \<Rightarrow> moveStepsIntervals api fl ?d m2)"
      using False by (subst moveStepsIntervals.simps) (simp add: Let_def)
    then obtain a m2 where c: "send_chunk api fl (take RMT_CHUNK_SYMBOLS xs) (look api m) = Some (a, m2)"
      using "1.prems" by (auto split: option.splits)
    have A: "advanced fl ?n (look api m) (a, m2)" by (rule send_chunk_ok [OF c])
    have l: "same fl (m\<lparr>mt_position := p\<rparr>) ((look api m)\<lparr>mt_position := p\<rparr>)" for p by (rule same_flag) simp
    show ?thesis
    proof (cases a)
      case (Inl e)
      then have r: "r = (a, m2)" using "1.prems" by (simp add: eq c)
      obtain k where "k \<le> ?n" "same fl ((look api m)\<lparr>mt_position := mt_position m + word_of_nat k\<rparr>) m2"
        using A by (auto simp: advanced_def)
      then show ?thesis using A Inl same_trans [OF l]
        by (auto simp: r advanced_def outcome_ok_def intro!: exI [of _ k])
    next
      case (Inr u)
      have m2: "same fl (m\<lparr>mt_position := mt_position m + word_of_nat ?n\<rparr>) m2" and e2: "mt_enPin m2 = mt_enPin m"
        using A Inr same_trans [OF l] by (auto simp: advanced_def outcome_ok_def)
      have "advanced fl (length ?d) m2 r"
        by (rule "1.IH" [OF _ refl _ c]) (use "1.prems" False Inr in \<open>auto simp: eq c\<close>)
      then obtain k where k: "k \<le> length ?d" "same fl (m2\<lparr>mt_position := mt_position m2 + word_of_nat k\<rparr>) (snd r)"
          "fst r = Inr () \<longrightarrow> k = length ?d" and o2: "outcome_ok fl m2 r"
        by (auto simp: advanced_def)
      have "same fl (m\<lparr>mt_position := mt_position m + word_of_nat (?n + k)\<rparr>) (snd r)"
        using same_trans [OF same_advance [OF m2] k(2)] by simp
      then show ?thesis using k o2 e2
        by (auto simp: advanced_def outcome_ok_def intro!: exI [of _ "?n + k"])
    qed
  qed
qed

subsection \<open>When a move returns\<close>

text \<open>The documented behaviour of the pulse peripheral that the task relies on: a transmission that
  was accepted finishes after finitely many waits, whatever else happens meanwhile.\<close>

inductive finishes :: "'h motor_api \<Rightarrow> 'h \<Rightarrow> bool" for api where
  at_once: "hw_wait api 100 h = (e, h') \<Longrightarrow> e \<noteq> ESP_ERR_TIMEOUT \<Longrightarrow> finishes api h"
| later: "hw_wait api 100 h = (ESP_ERR_TIMEOUT, h') \<Longrightarrow>
     (\<And>d en. finishes api (snd (hw_look api d en h'))) \<Longrightarrow> finishes api h"

lemma look_hw: "mt_hw (look api m) = snd (hw_look api (mt_dirPin m) (mt_enPin m) (mt_hw m))"
  by (simp add: look_def case_prod_beta)

lemma wait_returns: "finishes api (mt_hw m) \<Longrightarrow> wait_all_done api fl m \<noteq> None"
proof (induction "mt_hw m" arbitrary: m rule: finishes.induct)
  case (at_once e h')
  then show ?case by (subst wait_all_done.simps) (auto simp: Let_def split: prod.split)
next
  case (later h')
  have "wait_all_done api fl (look api (m\<lparr>mt_hw := h'\<rparr>)) \<noteq> None"
    by (rule later(3)) (simp add: look_hw)
  then show ?case using later(1) by (subst wait_all_done.simps) (auto simp: Let_def)
qed

lemma send_returns: "(\<And>h. finishes api h) \<Longrightarrow> send_chunk api fl xs m \<noteq> None"
proof -
  assume f: "\<And>h. finishes api h"
  obtain a m1 where t: "transmit api fl (map symbol_of xs) MAX_RETRIES m = (a, m1)" by fastforce
  obtain b m2 where "wait_all_done api fl m1 = Some (b, m2)" using wait_returns [OF f] by fastforce
  then show ?thesis by (simp add: send_chunk_def t split: sum.split)
qed

lemma intervals_return: "(\<And>h. finishes api h) \<Longrightarrow> moveStepsIntervals api fl xs m \<noteq> None"
proof (induction api fl xs m rule: moveStepsIntervals.induct)
  case (1 api fl xs m)
  show ?case
  proof (cases "xs = [] \<or> flag_set fl (look api m)")
    case True
    then show ?thesis by (subst moveStepsIntervals.simps) (auto simp: Let_def)
  next
    case False
    obtain a m2 where c: "send_chunk api fl (take RMT_CHUNK_SYMBOLS xs) (look api m) = Some (a, m2)"
      using send_returns [OF "1.prems"] by fastforce
    have "moveStepsIntervals api fl (drop RMT_CHUNK_SYMBOLS xs) m2 \<noteq> None" if "a = Inr u" for u
      by (rule "1.IH" [OF _ refl _ c refl that "1.prems"]) (use False in auto)
    then show ?thesis using False c
      by (subst moveStepsIntervals.simps) (auto simp: Let_def split: sum.split)
  qed
qed

subsection \<open>A working peripheral\<close>

definition working :: "'h motor_api \<Rightarrow> bool" where
  "working api \<longleftrightarrow> (\<forall>xs h. fst (hw_transmit api xs h) = ESP_OK) \<and> (\<forall>n h. fst (hw_wait api n h) = ESP_OK)"

definition raises :: "stop_flag \<Rightarrow> seen \<Rightarrow> bool" where
  "raises fl s = (case fl of StopFull \<Rightarrow> sn_full s | StopEmpty \<Rightarrow> sn_empty s)"

text \<open>Nobody raises the flag.\<close>

definition quiet :: "stop_flag \<Rightarrow> 'h motor_api \<Rightarrow> bool" where
  "quiet fl api \<longleftrightarrow> (\<forall>d en h. \<not> raises fl (fst (hw_look api d en h)))"

lemma flag_look_iff:
  "flag_set fl (look api m) \<longleftrightarrow> flag_set fl m \<or> raises fl (fst (hw_look api (mt_dirPin m) (mt_enPin m) (mt_hw m)))"
  by (cases fl) (simp_all add: look_def flag_set_def raises_def case_prod_beta)

lemma working_finishes: "working api \<Longrightarrow> finishes api h"
  by (rule finishes.at_once [of api h "fst (hw_wait api 100 h)" "snd (hw_wait api 100 h)"]) (auto simp: working_def prod_eq_iff)

lemma working_send:
  assumes "working api" and "quiet fl api" and "\<not> flag_set fl m"
  shows "\<exists>m2. send_chunk api fl chunk m = Some (Inr (), m2) \<and> \<not> flag_set fl m2"
proof -
  have l: "\<not> flag_set fl (look api m)" using assms by (simp add: flag_look_iff quiet_def)
  obtain e h where t: "hw_transmit api (map symbol_of chunk) (mt_hw (look api m)) = (e, h)" by fastforce
  have e: "e = ESP_OK" using assms(1) t by (metis fst_conv working_def)
  obtain e2 h2 where w: "hw_wait api 100 h = (e2, h2)" by fastforce
  have e2: "e2 = ESP_OK" using assms(1) w by (metis fst_conv working_def)
  show ?thesis using l
    by (simp add: send_chunk_def transmit.simps wait_all_done.simps Let_def t e w e2 flag_set_def
        split: stop_flag.splits)
qed

lemma working_intervals:
  assumes "working api" and "quiet fl api" and "\<not> flag_set fl m"
  shows "\<exists>m'. moveStepsIntervals api fl xs m = Some (Inr (), m') \<and> \<not> flag_set fl m'
    \<and> advanced fl (length xs) m (Inr (), m')"
proof -
  have "\<exists>m'. moveStepsIntervals api fl xs m = Some (Inr (), m') \<and> \<not> flag_set fl m'"
    using assms
  proof (induction api fl xs m rule: moveStepsIntervals.induct)
    case (1 api fl xs m)
    show ?case
    proof (cases "xs = []")
      case True
      then show ?thesis using "1.prems" by (subst moveStepsIntervals.simps) simp
    next
      case False
      have l: "\<not> flag_set fl (look api m)" using "1.prems" by (simp add: flag_look_iff quiet_def)
      obtain m2 where c: "send_chunk api fl (take RMT_CHUNK_SYMBOLS xs) (look api m) = Some (Inr (), m2)"
          "\<not> flag_set fl m2"
        using working_send [OF "1.prems"(1,2) l] by blast
      show ?thesis using "1.IH" [OF False refl l c(1) refl refl "1.prems"(1,2) c(2)] False l c(1)
        by (subst moveStepsIntervals.simps) (simp add: Let_def)
    qed
  qed
  then show ?thesis using intervals_ok by blast
qed

subsection \<open>The period of a pulse\<close>

text \<open>The microseconds of both levels of a symbol.\<close>

definition symbol_period :: "u32 \<Rightarrow> nat" where
  "symbol_period s = unat (s AND 0x7FFF) + unat (drop_bit 16 s AND 0x7FFF)"

lemma mask15: "(0x7FFF :: u32) = mask 15"
  by (simp add: mask_eq_exp_minus_1)

lemma symbol_fields:
  fixes d0 d1 :: u32
  assumes "d0 = take_bit 15 d0" and "d1 = take_bit 15 d1"
  shows "(d0 OR push_bit 15 1 OR push_bit 16 d1) AND 0x7FFF = d0"
    and "drop_bit 16 (d0 OR push_bit 15 1 OR push_bit 16 d1) AND 0x7FFF = d1"
proof -
  have b: "bit d0 n \<Longrightarrow> n < 15" "bit d1 n \<Longrightarrow> n < 15" for n
    using assms by (metis bit_take_bit_iff)+
  show "(d0 OR push_bit 15 1 OR push_bit 16 d1) AND 0x7FFF = d0"
    unfolding mask15
    by (rule bit_word_eqI) (auto simp only: bit_and_iff bit_or_iff bit_push_bit_iff bit_1_iff bit_mask_iff
        possible_bit_word dest: b)
  show "drop_bit 16 (d0 OR push_bit 15 1 OR push_bit 16 d1) AND 0x7FFF = d1"
    unfolding mask15
  proof (rule bit_word_eqI)
    fix n assume n: "n < LENGTH(32)"
    have a: "16 + n - 16 = n" "16 + n - 15 \<noteq> 0" "16 \<le> 16 + n" "n < 15 \<Longrightarrow> 16 + n < 32" by simp_all
    show "bit (drop_bit 16 (d0 OR push_bit 15 1 OR push_bit 16 d1) AND mask 15) n = bit d1 n"
      using n a b [of "16 + n"] b [of n]
      by (auto simp only: bit_and_iff bit_or_iff bit_push_bit_iff bit_1_iff bit_mask_iff
          bit_drop_bit_eq comp_apply possible_bit_word len_num1 len_num0 len_bit0 mult.left_neutral)
        simp_all
  qed
qed

lemma field_take: "(ucast (ucast (x :: u32) :: u16) AND 0x7FFF :: u32) = take_bit 15 x"
  unfolding mask15 by (rule bit_word_eqI) (auto simp: bit_simps)

lemma symbol_period_eq:
  "symbol_period (symbol_of v) = unat (pulse_us v) mod 2 ^ 15 + unat (v - pulse_us v) mod 2 ^ 15"
proof -
  have "symbol_of v = take_bit 15 (pulse_us v) OR push_bit 15 1 OR push_bit 16 (take_bit 15 (v - pulse_us v))"
    by (simp add: symbol_of_def Let_def field_take)
  moreover have i: "take_bit 15 x = take_bit 15 (take_bit 15 x)" for x :: u32
    by (simp only: take_bit_take_bit min.idem)
  ultimately have "symbol_of v AND 0x7FFF = take_bit 15 (pulse_us v)"
    "drop_bit 16 (symbol_of v) AND 0x7FFF = take_bit 15 (v - pulse_us v)"
    by (simp_all only: symbol_fields [OF i i])
  then show ?thesis
    unfolding symbol_period_def by (simp only: unsigned_take_bit_eq take_bit_nat_def)
qed

text \<open>The interval between the steps at a frequency.\<close>

definition step_interval :: "u32 \<Rightarrow> u32" where
  "step_interval speed = 1000000 div speed"

lemma unat_step_interval: "unat (step_interval hz) = 1000000 div unat hz"
  by (simp add: step_interval_def unat_div)

text \<open>C28.  The pulses have the period of the requested frequency for every frequency from 31 Hz up to
  the motor's maximum of 3000 Hz; at the documented minimum of 30 Hz the interval does not fit the
  15 bits of a duration and the motor steps every 565 microseconds, 59 times too fast.\<close>

theorem step_pulses_have_period:
  "if 31 \<le> unat hz \<and> unat hz \<le> STEP_FREQ_MAX_HZ
   then symbol_period (symbol_of (step_interval hz)) = 1000000 div unat hz
   else if unat hz = STEP_FREQ_MIN_HZ then symbol_period (symbol_of (step_interval hz)) = 565
   else True"
proof -
  have hi: "symbol_period (symbol_of v) = 5 + (unat v - 5) mod 2 ^ 15" if "10 < unat v" for v :: u32
  proof -
    have "pulse_us v = 5" using that by (simp add: pulse_us_def word_le_nat_alt not_le)
    moreover have "unat (v - 5) = unat v - 5"
      using that by (subst unat_sub) (simp_all add: word_le_nat_alt)
    ultimately show ?thesis by (simp add: symbol_period_eq)
  qed
  have "symbol_period (symbol_of (step_interval hz)) = 1000000 div unat hz" if "31 \<le> unat hz" "unat hz \<le> 3000"
  proof -
    have "1000000 div unat hz \<le> 1000000 div 31" using that(1) by (intro div_le_mono2) simp_all
    moreover have "1000000 div 3000 \<le> 1000000 div unat hz" using that by (intro div_le_mono2) simp_all
    ultimately show ?thesis using hi [of "step_interval hz"] by (simp add: unat_step_interval)
  qed
  moreover have "symbol_period (symbol_of (step_interval hz)) = 565" if "unat hz = 30"
    using hi [of "step_interval hz"] that by (simp add: unat_step_interval)
  ultimately show ?thesis by (simp add: STEP_FREQ_MIN_HZ_def STEP_FREQ_MAX_HZ_def)
qed

end
