(* ===== verification/Motion.thy ===== *)
theory Motion
  imports Motor_Driver Cycle_SMs
begin

text \<open>
  The motions of the motor task (\<^verbatim>\<open>infrastructure/src/motor/motion.cpp\<close> and
  \<^verbatim>\<open>homing.cpp\<close>): moves to an end switch, moves by steps, homing, and the report of a
  finished motion.  \<^term>\<open>None\<close> is a motion that never ends or an undefined operation.
\<close>

declare One_nat_def [simp del]

subsection \<open>The valve\<close>

definition VALVE_SETTLE_MS :: nat where "VALVE_SETTLE_MS = 500"

definition set_valve :: "ValvePosition \<Rightarrow> ('w, 'h, 'u) motor \<Rightarrow> ('w, 'h, 'u) motor" where
  "set_valve pos m =
     m\<lparr>mt_app := (mt_app m)\<lparr>ap_valve := setPosition pos (ap_valve (mt_app m)), gValvePosition := pos\<rparr>\<rparr>"

fun settle_steps :: "'h motor_api \<Rightarrow> stop_flag \<Rightarrow> nat \<Rightarrow> ('w, 'h, 'u) motor \<Rightarrow> ('w, 'h, 'u) motor" where
  "settle_steps api fl 0 m = m"
| "settle_steps api fl (Suc n) m =
     (let m1 = look api m in if flag_set fl m1 then m1 else settle_steps api fl n (delay api 10 m1))"

definition settle_valve :: "'h motor_api \<Rightarrow> stop_flag \<Rightarrow> ('w, 'h, 'u) motor \<Rightarrow> ('w, 'h, 'u) motor" where
  "settle_valve api fl m = settle_steps api fl (VALVE_SETTLE_MS div 10) m"

definition ml_min_to_hz :: "fp \<Rightarrow> u32 outcome" where
  "ml_min_to_hz speed =
     speedMlMinToHz speed
       \<lparr>stepsPerMl = kDefaultStepsPerMl, nominalVolumeMl = f32_lit 500 1, speedCoeff = kDefaultSpeedCoeff,
        minFreqHz = kDefaultMinFreqHz, maxFreqHz = kDefaultMaxFreqHz\<rparr>"

subsection \<open>Moves to an end switch\<close>

partial_function (option) endstop_loop ::
  "'h motor_api \<Rightarrow> stop_flag \<Rightarrow> u32 list \<Rightarrow> ('w, 'h, 'u) motor \<Rightarrow> ('w, 'h, 'u) motor option" where
  "endstop_loop api fl intervals m =
     (let m1 = look api m
      in if flag_set fl m1 then Some m1
         else Option.bind (moveStepsIntervals api fl intervals m1)
                (\<lambda>(r, m2). case r of Inl e \<Rightarrow> Some m2 | Inr _ \<Rightarrow> endstop_loop api fl intervals m2))"

definition set_dir :: "'h motor_api \<Rightarrow> Direction \<Rightarrow> ('w, 'h, 'u) motor \<Rightarrow> ('w, 'h, 'u) motor" where
  "set_dir api dir m = delay api 1 (m\<lparr>mt_dirPin := (dir = Direction.LiqIn)\<rparr>)"

definition move_to_endstop ::
  "'h motor_api \<Rightarrow> Direction \<Rightarrow> u32 \<Rightarrow> stop_flag \<Rightarrow> ('w, 'h, 'u) motor \<Rightarrow> ('w, 'h, 'u) motor option" where
  "move_to_endstop api dir speedHz fl m =
     (let m1 = set_dir api dir m
      in if speedHz = 0 then None
         else map_option (\<lambda>m2. enable (emergencyStop api m2))
                (endstop_loop api fl (replicate RMT_CHUNK_SYMBOLS (step_interval speedHz)) (store_flag fl False m1)))"

definition move_fill :: "'h motor_api \<Rightarrow> u32 \<Rightarrow> ('w, 'h, 'u) motor \<Rightarrow> ('w, 'h, 'u) motor option" where
  "move_fill api speedHz m =
     move_to_endstop api Direction.LiqIn speedHz StopFull
       (set_state BuretteState.Filling (settle_valve api StopFull (set_valve ValvePosition.Input m)))"

definition move_empty :: "'h motor_api \<Rightarrow> u32 \<Rightarrow> ('w, 'h, 'u) motor \<Rightarrow> ('w, 'h, 'u) motor option" where
  "move_empty api speedHz m =
     move_to_endstop api Direction.LiqOut speedHz StopEmpty
       (set_state BuretteState.Emptying (settle_valve api StopEmpty (set_valve ValvePosition.Output m)))"

subsection \<open>The report of a motion\<close>

definition MAX_STORED_RESULTS :: nat where "MAX_STORED_RESULTS = 3"

fun result_code :: "SmResultType \<Rightarrow> nat" where
  "result_code SmResultType.None' = 0"
| "result_code SmResultType.RinseComplete = 1"
| "result_code SmResultType.CalDoseComplete = 2"
| "result_code SmResultType.CalSpeedComplete = 3"
| "result_code SmResultType.CalSpeedSeqComplete = 4"
| "result_code SmResultType.Error = 5"

definition sm_result :: "SmResultType \<Rightarrow> i32 \<Rightarrow> fp \<Rightarrow> fp list \<Rightarrow> nat \<Rightarrow> SmResult" where
  "sm_result type stepsTaken speed results count =
     \<lparr>sm_type = type, sm_stepsTaken = stepsTaken, sm_measuredSpeedMlMin = speed,
      sm_results = take MAX_STORED_RESULTS
        (take count results @ replicate MAX_STORED_RESULTS (fp_zero f32 False)),
      sm_resultCount = int count\<rparr>"

definition complete_event :: "SmResultType \<Rightarrow> i32 \<Rightarrow> string" where
  "complete_event type steps = ''{'' @ jkey ''event'' @ quoted ''motor_complete'' @ '','' @ jkey ''type''
     @ nat_str (result_code type) @ '','' @ jkey ''steps'' @ int_str (sint steps) @ ''}''"

definition push_event :: "string \<Rightarrow> 'w app \<Rightarrow> 'w app" where
  "push_event e s = s\<lparr>ap_wsQueue := snd (xQueueSend WS_BROADCAST_QUEUE_DEPTH e (ap_wsQueue s))\<rparr>"

text \<open>The result queue holds one entry, which is overwritten.\<close>

definition store_result ::
  "SmResultType \<Rightarrow> i32 \<Rightarrow> fp \<Rightarrow> fp list \<Rightarrow> nat \<Rightarrow> ('w, 'h, 'u) motor \<Rightarrow> ('w, 'h, 'u) motor" where
  "store_result type stepsTaken speed results count m =
     (let s = mt_app m;
          s1 = s\<lparr>ap_resultQueue := map_option (\<lambda>_. [sm_result type stepsTaken speed results count]) (ap_resultQueue s)\<rparr>
      in m\<lparr>mt_app := (push_event (complete_event type stepsTaken) s1)\<lparr>gBuretteState := BuretteState.Idle\<rparr>\<rparr>)"

definition store_plain :: "SmResultType \<Rightarrow> i32 \<Rightarrow> ('w, 'h, 'u) motor \<Rightarrow> ('w, 'h, 'u) motor" where
  "store_plain type steps = store_result type steps (fp_zero f32 False) [] 0"

subsection \<open>Moves by steps\<close>

definition clamp_speed :: "u32 \<Rightarrow> u32" where
  "clamp_speed speed =
     (let s = (if unat speed < STEP_FREQ_MIN_HZ then of_nat STEP_FREQ_MIN_HZ else speed)
      in if unat s > STEP_FREQ_MAX_HZ then of_nat STEP_FREQ_MAX_HZ else s)"

function move_loop ::
  "'h motor_api \<Rightarrow> u32 \<Rightarrow> nat \<Rightarrow> ('w, 'h, 'u) motor \<Rightarrow> ('w, 'h, 'u) motor option" where
  "move_loop api interval remaining m =
     (if remaining = 0 then Some m
      else let m1 = look api m
           in if flag_set StopFull m1 then Some m1
              else let chunk = (if remaining > RMT_CHUNK_SYMBOLS then RMT_CHUNK_SYMBOLS else remaining)
                   in case moveStepsIntervals api StopFull (replicate chunk interval) m1 of
                        None \<Rightarrow> None
                      | Some (Inl e, m2) \<Rightarrow>
                          Some (if e = LimitSwitchTriggered then trace api (set_state BuretteState.Error m2) else m2)
                      | Some (Inr _, m2) \<Rightarrow> move_loop api interval (remaining - chunk) m2)"
  by pat_completeness auto
termination
  by (relation "measure (\<lambda>(api, i, n, m). n)") (auto simp: RMT_CHUNK_SYMBOLS_def)

declare move_loop.simps [simp del]

definition execute_move_steps :: "'h motor_api \<Rightarrow> i32 \<Rightarrow> ('w, 'h, 'u) motor \<Rightarrow> ('w, 'h, 'u) motor option" where
  "execute_move_steps api steps m =
     (if sint steps \<le> 0 then Some m
      else let m1 = set_dir api (gDirection (mt_app m)) m;
               interval = step_interval (clamp_speed (gSpeed (mt_app m1)))
           in move_loop api interval (nat (sint steps)) m1)"

subsection \<open>Homing\<close>

definition HOME_INTERVAL_US :: u32 where "HOME_INTERVAL_US = 1000000 div 1500"
definition HOMING_TIMEOUT_MS :: u32 where "HOMING_TIMEOUT_MS = 2000"
definition FFI_HOMING :: u16 where "FFI_HOMING = 30"

text \<open>Whether to stop, the two flags of the caller, and the state.\<close>

definition checkHomingTermination ::
  "'h motor_api \<Rightarrow> u32 \<Rightarrow> bool \<times> bool \<Rightarrow> ('w, 'h, 'u) motor \<Rightarrow> bool \<times> (bool \<times> bool) \<times> ('w, 'h, 'u) motor" where
  "checkHomingTermination api startTick flags m =
     (let (homed, timedOut) = flags; m1 = look api m
      in if flag_set StopFull m1 then (True, (True, timedOut), m1)
         else if mt_tick m1 - startTick \<ge> HOMING_TIMEOUT_MS then (True, (homed, True), m1)
         else (False, (homed, timedOut), m1))"

datatype homing_end = Homed | TimedOut | Failed

definition ending :: "bool \<times> bool \<Rightarrow> homing_end" where
  "ending flags = (if fst flags then Homed else TimedOut)"

text \<open>The loop ends with the flags of the last check or with an error of the pulses.\<close>

partial_function (option) homing_loop ::
  "'h motor_api \<Rightarrow> u32 \<Rightarrow> ('w, 'h, 'u) motor \<Rightarrow> (homing_end \<times> ('w, 'h, 'u) motor) option" where
  "homing_loop api startTick m =
     (let (stop, flags, m1) = checkHomingTermination api startTick (False, False) m
      in if stop then Some (ending flags, m1)
         else Option.bind (moveStepsIntervals api StopFull (replicate RMT_CHUNK_SYMBOLS HOME_INTERVAL_US) m1)
                (\<lambda>(r, m2).
                  if r \<noteq> Inr () \<and> r \<noteq> Inl LimitSwitchTriggered
                  then Some (Failed, trace api (set_state BuretteState.Error m2))
                  else let (_, flags2, m3) = checkHomingTermination api startTick (r = Inl LimitSwitchTriggered, False) m2
                       in if fst flags2 \<or> snd flags2 then Some (ending flags2, m3)
                          else homing_loop api startTick m3))"

definition postHomingCleanup ::
  "'h motor_api \<Rightarrow> homing_end \<Rightarrow> ('w, 'h, 'u) motor \<Rightarrow> ('w, 'h, 'u) motor" where
  "postHomingCleanup api e m =
     (let m1 = enable (emergencyStop api m)
      in if e = Failed then m1
         else let m2 = (if e = Homed then store_flag StopFull False (m1\<lparr>mt_position := 0\<rparr>) else m1)
              in trace api (set_state BuretteState.Idle m2))"

definition run_homing :: "'h motor_api \<Rightarrow> stop_flag \<Rightarrow> ('w, 'h, 'u) motor \<Rightarrow> ('w, 'h, 'u) motor option" where
  "run_homing api fullSwitch m =
     (let m1 = m\<lparr>mt_bb := ffi_enter ''motor'' (hw_now api (mt_hw m)) FFI_HOMING (mt_bb m)\<rparr>;
          m2 = (trace api (set_state BuretteState.Homing m1))\<lparr>mt_dirPin := True\<rparr>;
          m3 = look api (store_flag StopFull False (clear_switch fullSwitch m2))
      in map_option (\<lambda>(e, m4). let m5 = postHomingCleanup api e m4
             in m5\<lparr>mt_bb := ffi_exit False ''motor'' (hw_now api (mt_hw m5)) FFI_HOMING (mt_bb m5)\<rparr>)
           (homing_loop api (mt_tick m3) m3))"

subsection \<open>Moves by steps: what they do\<close>

lemma set_dir_simps [simp]:
  "mt_position (set_dir api d m) = mt_position m" "mt_enPin (set_dir api d m) = mt_enPin m"
  "calm (mt_app (set_dir api d m)) = calm (mt_app m)" "mt_dirPin (set_dir api d m) = (d = Direction.LiqIn)"
  "mt_bb (set_dir api d m) = mt_bb m" "mt_tmc (set_dir api d m) = mt_tmc m"
  by (simp_all add: set_dir_def delay_def)

lemma flag_dir: "flag_set fl m \<Longrightarrow> flag_set fl (set_dir api d m)"
  unfolding set_dir_def delay_def
  by (rule flag_look) (simp add: flag_set_def split: stop_flag.splits)

lemma quiet_dir: "quiet fl api \<Longrightarrow> flag_set fl (set_dir api d m) = flag_set fl m"
  by (simp add: set_dir_def delay_def flag_look_iff quiet_def) (simp add: flag_set_def split: stop_flag.splits)

text \<open>The common part of all motions: the hardware, the clock, the enable pin, the flags and the
  position may change, the burette state may become an error.\<close>

definition steps_done :: "nat \<Rightarrow> ('w, 'h, 'u) motor \<Rightarrow> ('w, 'h, 'u) motor \<Rightarrow> bool" where
  "steps_done k m m' \<longleftrightarrow>
     mt_position m' = mt_position m + word_of_nat k \<and> mt_dirPin m' = mt_dirPin m \<and> mt_tmc m' = mt_tmc m
     \<and> calm (mt_app m') \<in> {calm (mt_app m), (calm (mt_app m))\<lparr>gBuretteState := BuretteState.Error\<rparr>}"

lemma calm_error: "calm (s\<lparr>gBuretteState := st\<rparr>) = (calm s)\<lparr>gBuretteState := st\<rparr>"
  by (simp add: calm_def)

lemma set_state_simps [simp]:
  "mt_position (set_state st m) = mt_position m" "mt_dirPin (set_state st m) = mt_dirPin m"
  "mt_tmc (set_state st m) = mt_tmc m" "mt_enPin (set_state st m) = mt_enPin m"
  "calm (mt_app (set_state st m)) = (calm (mt_app m))\<lparr>gBuretteState := st\<rparr>"
  "mt_position (trace api m) = mt_position m" "mt_dirPin (trace api m) = mt_dirPin m"
  "mt_tmc (trace api m) = mt_tmc m" "mt_enPin (trace api m) = mt_enPin m" "mt_app (trace api m) = mt_app m"
  "gBuretteState (mt_app (set_state st m)) = st"
  by (simp_all add: set_state_def trace_def calm_error)

lemma advanced_steps:
  assumes "advanced fl n m r"
  shows "\<exists>k \<le> n. steps_done k m (snd r) \<and> (fst r = Inr () \<longrightarrow> k = n \<and> calm (mt_app (snd r)) = calm (mt_app m))"
  using assms by (auto simp: advanced_def same_def steps_done_def)

lemma steps_done_look: "steps_done k (look api m) m' = steps_done k m m'"
  by (simp add: steps_done_def)

lemma steps_done_trans:
  "steps_done j m m1 \<Longrightarrow> calm (mt_app m1) = calm (mt_app m) \<Longrightarrow> steps_done k m1 m' \<Longrightarrow> steps_done (j + k) m m'"
  by (simp add: steps_done_def add.assoc)

lemma steps_done_error: "steps_done k m m' \<Longrightarrow> steps_done k m (trace api (set_state BuretteState.Error m'))"
  by (auto simp: steps_done_def)

text \<open>A move by steps never takes more steps than it was asked to.\<close>

lemma move_loop_bound:
  "move_loop api interval n m = Some m' \<Longrightarrow> \<exists>k \<le> n. steps_done k m m'"
proof (induction api interval n m arbitrary: m' rule: move_loop.induct)
  case (1 api interval n m)
  let ?c = "if n > RMT_CHUNK_SYMBOLS then RMT_CHUNK_SYMBOLS else n"
  show ?case
  proof (cases "n = 0 \<or> flag_set StopFull (look api m)")
    case True
    then have "m' = m \<or> m' = look api m"
      using "1.prems" by (subst (asm) move_loop.simps) (auto simp: Let_def split: if_splits)
    then show ?thesis by (auto simp: steps_done_def)
  next
    case False
    then obtain a m2 where c: "moveStepsIntervals api StopFull (replicate ?c interval) (look api m) = Some (a, m2)"
      using "1.prems" by (subst (asm) move_loop.simps) (auto simp: Let_def split: option.splits)
    obtain j where j: "j \<le> ?c" "steps_done j m m2" "a = Inr () \<longrightarrow> j = ?c \<and> calm (mt_app m2) = calm (mt_app m)"
      using advanced_steps [OF intervals_ok [OF c]] by (auto simp: steps_done_look)
    show ?thesis
    proof (cases a)
      case (Inl e)
      then have "m' = (if e = LimitSwitchTriggered then trace api (set_state BuretteState.Error m2) else m2)"
        using "1.prems" False c by (subst (asm) move_loop.simps) (simp add: Let_def)
      then show ?thesis using j steps_done_error [OF j(2)] by (auto intro!: exI [of _ j] split: if_splits)
    next
      case (Inr u)
      then have r: "move_loop api interval (n - ?c) m2 = Some m'"
        using "1.prems" False c by (subst (asm) move_loop.simps) (simp add: Let_def)
      obtain k where "k \<le> n - ?c" "steps_done k m2 m'"
        using "1.IH" [OF _ refl _ refl c refl Inr r] False by auto
      then show ?thesis using j Inr steps_done_trans [OF j(2)]
        by (intro exI [of _ "?c + k"]) auto
    qed
  qed
qed

lemma move_loop_returns: "(\<And>h. finishes api h) \<Longrightarrow> move_loop api interval n m \<noteq> None"
proof (induction api interval n m rule: move_loop.induct)
  case (1 api interval n m)
  let ?c = "if n > RMT_CHUNK_SYMBOLS then RMT_CHUNK_SYMBOLS else n"
  show ?case
  proof (cases "n = 0 \<or> flag_set StopFull (look api m)")
    case True
    then show ?thesis by (subst move_loop.simps) (auto simp: Let_def)
  next
    case False
    obtain a m2 where c: "moveStepsIntervals api StopFull (replicate ?c interval) (look api m) = Some (a, m2)"
      using intervals_return [OF "1.prems"] by fastforce
    have "move_loop api interval (n - ?c) m2 \<noteq> None" if "a = Inr u" for u
      by (rule "1.IH" [OF _ refl _ refl c refl that "1.prems"]) (use False in auto)
    then show ?thesis using False c by (subst move_loop.simps) (auto simp: Let_def split: sum.split)
  qed
qed

text \<open>Undisturbed, it takes all of them.\<close>

lemma move_loop_quiet:
  assumes "working api" and "quiet StopFull api" and "\<not> flag_set StopFull m"
  shows "\<exists>m'. move_loop api interval n m = Some m' \<and> steps_done n m m' \<and> calm (mt_app m') = calm (mt_app m)
    \<and> \<not> flag_set StopFull m' \<and> mt_enPin m' = mt_enPin m"
  using assms
proof (induction api interval n m rule: move_loop.induct)
  case (1 api interval n m)
  let ?c = "if n > RMT_CHUNK_SYMBOLS then RMT_CHUNK_SYMBOLS else n"
  show ?case
  proof (cases "n = 0")
    case True
    then show ?thesis using "1.prems" by (subst move_loop.simps) (simp add: steps_done_def)
  next
    case False
    have l: "\<not> flag_set StopFull (look api m)" using "1.prems" by (simp add: flag_look_iff quiet_def)
    obtain m2 where c: "moveStepsIntervals api StopFull (replicate ?c interval) (look api m) = Some (Inr (), m2)"
        and f2: "\<not> flag_set StopFull m2" and A: "advanced StopFull ?c (look api m) (Inr (), m2)"
      using working_intervals [OF "1.prems"(1,2) l, of "replicate ?c interval"] by (auto simp: length_replicate)
    have e2: "mt_enPin m2 = mt_enPin m" using A by (simp add: advanced_def outcome_ok_def)
    have j: "steps_done ?c m m2" "calm (mt_app m2) = calm (mt_app m)"
      using advanced_steps [OF A] by (auto simp: steps_done_look)
    obtain m' where m': "move_loop api interval (n - ?c) m2 = Some m'" "steps_done (n - ?c) m2 m'"
        "calm (mt_app m') = calm (mt_app m2)" "\<not> flag_set StopFull m'" "mt_enPin m' = mt_enPin m2"
      using "1.IH" [OF False refl l refl c refl refl "1.prems"(1,2) f2] by blast
    have "steps_done n m m'" using steps_done_trans [OF j m'(2)] by simp
    moreover have "move_loop api interval n m = Some m'"
      using False l c m'(1) by (subst move_loop.simps) (simp add: Let_def)
    ultimately show ?thesis using m'(3,4,5) j(2) e2 by auto
  qed
qed

lemma execute_bound:
  "execute_move_steps api steps m = Some m' \<Longrightarrow>
    \<exists>k \<le> nat (sint steps). mt_position m' = mt_position m + word_of_nat k"
  using move_loop_bound
  by (fastforce simp: execute_move_steps_def Let_def steps_done_def split: if_splits)

lemma execute_returns: "(\<And>h. finishes api h) \<Longrightarrow> execute_move_steps api steps m \<noteq> None"
  by (simp add: execute_move_steps_def Let_def move_loop_returns del: not_None_eq)

lemma execute_quiet:
  assumes "working api" and "quiet StopFull api" and "\<not> flag_set StopFull m"
  shows "\<exists>m'. execute_move_steps api steps m = Some m' \<and> mt_position m' = mt_position m + word_of_nat (nat (sint steps))
    \<and> calm (mt_app m') = calm (mt_app m) \<and> \<not> flag_set StopFull m' \<and> mt_enPin m' = mt_enPin m
    \<and> (0 < sint steps \<longrightarrow> mt_dirPin m' = (gDirection (mt_app m) = Direction.LiqIn))"
proof (cases "sint steps \<le> 0")
  case True
  then show ?thesis using assms by (simp add: execute_move_steps_def)
next
  case False
  have "\<not> flag_set StopFull (set_dir api d m)" for d using assms by (simp add: quiet_dir)
  from move_loop_quiet [OF assms(1,2) this] show ?thesis using False
    by (fastforce simp: execute_move_steps_def Let_def steps_done_def)
qed

text \<open>A flag that is already raised: no step is taken, nothing but the direction pin changes.\<close>

lemma execute_blocked:
  assumes "flag_set StopFull m"
  shows "\<exists>m'. execute_move_steps api steps m = Some m' \<and> mt_position m' = mt_position m
    \<and> calm (mt_app m') = calm (mt_app m) \<and> flag_set StopFull m' \<and> mt_enPin m' = mt_enPin m"
  using assms flag_look [OF flag_dir [OF assms]]
  by (auto simp: execute_move_steps_def Let_def move_loop.simps)

subsection \<open>Moves to an end switch: what they do\<close>

lemma flag_store [simp]: "flag_set fl (store_flag fl b m) = b"
  by (cases fl) (simp_all add: flag_set_def store_flag_def)

lemma endstop_look: "endstop_loop api fl xs m = (if flag_set fl (look api m) then Some (look api m)
    else Option.bind (moveStepsIntervals api fl xs (look api m))
                (\<lambda>(r, m2). case r of Inl e \<Rightarrow> Some m2 | Inr _ \<Rightarrow> endstop_loop api fl xs m2))"
  by (subst endstop_loop.simps) (simp add: Let_def)

text \<open>If nobody raises the flag, the loop never ends.\<close>

lemma endstop_forever:
  fixes m :: "('w, 'h, 'u) motor"
  assumes "working api" and "quiet fl api" and "\<not> flag_set fl m"
  shows "endstop_loop api fl xs m = None"
proof -
  have "endstop_loop api fl xs m = Some r \<longrightarrow> False" for r
  proof
    assume "endstop_loop api fl xs m = Some r"
    then have "working api \<longrightarrow> quiet fl api \<longrightarrow> \<not> flag_set fl m \<longrightarrow> False"
    proof (rule endstop_loop.raw_induct [rotated])
      fix loop :: "'h motor_api \<Rightarrow> stop_flag \<Rightarrow> u32 list \<Rightarrow> ('w, 'h, 'u) motor \<Rightarrow> ('w, 'h, 'u) motor option"
        and api :: "'h motor_api" and fl xs and m r :: "('w, 'h, 'u) motor"
      assume IH: "\<And>api fl xs m r. loop api fl xs m = Some r \<Longrightarrow>
          working api \<longrightarrow> quiet fl api \<longrightarrow> \<not> flag_set fl m \<longrightarrow> False"
        and step: "(let m1 = look api m
          in if flag_set fl m1 then Some m1
             else Option.bind (moveStepsIntervals api fl xs m1)
                    (\<lambda>(r, m2). case r of Inl e \<Rightarrow> Some m2 | Inr _ \<Rightarrow> loop api fl xs m2)) = Some r"
      show "working api \<longrightarrow> quiet fl api \<longrightarrow> \<not> flag_set fl m \<longrightarrow> False"
      proof (intro impI)
        assume w: "working api" "quiet fl api" and f: "\<not> flag_set fl m"
        have l: "\<not> flag_set fl (look api m)" using w f by (simp add: flag_look_iff quiet_def)
        obtain m2 where "moveStepsIntervals api fl xs (look api m) = Some (Inr (), m2)" "\<not> flag_set fl m2"
          using working_intervals [OF w l] by blast
        then show False using step l IH [of api fl xs m2 r] w by (simp add: Let_def)
      qed
    qed
    then show False using assms by blast
  qed
  then show ?thesis by (cases "endstop_loop api fl xs m") auto
qed

text \<open>The documented behaviour of the plant: the switch is a finite way off, every chunk of pulses
  with the right direction and an enabled driver brings it nearer, and at the end it is raised.\<close>

definition approaches :: "'h motor_api \<Rightarrow> stop_flag \<Rightarrow> ('h \<Rightarrow> nat) \<Rightarrow> bool" where
  "approaches api fl gap \<longleftrightarrow>
     working api
     \<and> (\<forall>h. gap (snd (hw_look api (fl = StopFull) False h)) \<le> gap h)
     \<and> (\<forall>h. gap h = 0 \<longrightarrow> raises fl (fst (hw_look api (fl = StopFull) False h)))
     \<and> (\<forall>n h. gap (snd (hw_wait api n h)) \<le> gap h)
     \<and> (\<forall>xs h. xs \<noteq> [] \<longrightarrow>
          gap (snd (hw_transmit api xs (snd (hw_look api (fl = StopFull) False h))))
            \<le> gap (snd (hw_look api (fl = StopFull) False h)) - 1)"

lemma gap_look:
  assumes "approaches api fl gap" and "mt_dirPin m = (fl = StopFull)" and "\<not> mt_enPin m"
  shows "gap (mt_hw (look api m)) \<le> gap (mt_hw m)"
    and "gap (mt_hw m) = 0 \<Longrightarrow> flag_set fl (look api m)"
  using assms by (simp_all add: look_hw approaches_def flag_look_iff)

lemma chunk_approaches:
  assumes A: "approaches api fl gap" and D: "mt_dirPin m = (fl = StopFull)" and E: "\<not> mt_enPin m"
    and "\<not> flag_set fl (look api m)" and "chunk \<noteq> []"
  shows "\<exists>m2. send_chunk api fl chunk m = Some (Inr (), m2)
    \<and> gap (mt_hw m2) < gap (mt_hw m) \<and> mt_dirPin m2 = mt_dirPin m \<and> \<not> mt_enPin m2"
proof -
  have w: "working api" using A by (simp add: approaches_def)
  obtain e h where t: "hw_transmit api (map symbol_of chunk) (mt_hw (look api m)) = (e, h)" by fastforce
  have e: "e = ESP_OK" using w t by (metis fst_conv working_def)
  obtain e2 h2 where wt: "hw_wait api 100 h = (e2, h2)" by fastforce
  have e2: "e2 = ESP_OK" using w wt by (metis fst_conv working_def)
  have "gap h \<le> gap (mt_hw (look api m)) - 1"
    using A D E t assms(5) by (simp add: approaches_def look_hw) (metis map_is_Nil_conv snd_conv)
  moreover have "gap h2 \<le> gap h" using A wt unfolding approaches_def by (metis snd_conv)
  moreover have "gap (mt_hw m) \<noteq> 0" using gap_look(2) [OF A D E] assms(4) by auto
  ultimately have "gap h2 < gap (mt_hw m)" using gap_look(1) [OF A D E] by simp
  then show ?thesis
    using assms(4) E
    by (simp add: send_chunk_def transmit.simps wait_all_done.simps Let_def t e wt e2)
qed

lemma endstop_returns:
  assumes "approaches api fl gap" and "mt_dirPin m = (fl = StopFull)" and "\<not> mt_enPin m"
    and "xs \<noteq> []" and "length xs \<le> RMT_CHUNK_SYMBOLS"
  shows "\<exists>m'. endstop_loop api fl xs m = Some m' \<and> flag_set fl m'"
  using assms
proof (induction "gap (mt_hw m)" arbitrary: m rule: less_induct)
  case less
  note A = less.prems(1) and D = less.prems(2) and E = less.prems(3)
  show ?case
  proof (cases "flag_set fl (look api m)")
    case True
    then show ?thesis by (simp add: endstop_look)
  next
    case False
    show ?thesis
    proof (cases "flag_set fl (look api (look api m))")
      case True
      then have "moveStepsIntervals api fl xs (look api m) = Some (stopped api (look api (look api m)))"
        using less.prems(4) by (subst moveStepsIntervals.simps) (simp add: Let_def)
      then show ?thesis using False True by (simp add: endstop_look [of api fl xs m] stopped_def)
    next
      case l2: False
      let ?m2 = "look api (look api m)"
      show ?thesis
      proof (cases "flag_set fl (look api ?m2)")
        case True
        have "send_chunk api fl xs ?m2 = Some (stopped api (look api ?m2))"
          using True by (simp add: send_chunk_def transmit.simps Let_def stopped_def)
        then have "moveStepsIntervals api fl xs (look api m) = Some (stopped api (look api ?m2))"
          using less.prems(4,5) l2 by (subst moveStepsIntervals.simps) (simp add: Let_def stopped_def)
        then show ?thesis using False True by (simp add: endstop_look [of api fl xs m] stopped_def)
      next
        case l3: False
        obtain m3 where c: "send_chunk api fl xs ?m2 = Some (Inr (), m3)"
            "gap (mt_hw m3) < gap (mt_hw ?m2)" "mt_dirPin m3 = mt_dirPin ?m2" "\<not> mt_enPin m3"
          using chunk_approaches [OF A _ _ l3 less.prems(4)] D E by auto
        have g: "gap (mt_hw ?m2) \<le> gap (mt_hw m)"
          using gap_look(1) [OF A, of m] gap_look(1) [OF A, of "look api m"] D E by simp
        have "moveStepsIntervals api fl xs (look api m) = Some (Inr (), m3)"
          using less.prems(4,5) l2 c(1)
          by (subst moveStepsIntervals.simps) (simp add: Let_def, subst moveStepsIntervals.simps, simp)
        then have "endstop_loop api fl xs m = endstop_loop api fl xs m3"
          using False by (simp add: endstop_look [of api fl xs m])
        moreover have "\<exists>m'. endstop_loop api fl xs m3 = Some m' \<and> flag_set fl m'"
          using less.hyps [of m3] c(2,3,4) g D A less.prems(4,5) by auto
        ultimately show ?thesis by simp
      qed
    qed
  qed
qed

lemma endstop_keeps:
  assumes "endstop_loop api fl xs m = Some m'"
  shows "calm (mt_app m') = calm (mt_app m) \<and> mt_dirPin m' = mt_dirPin m"
proof (rule endstop_loop.raw_induct [of "\<lambda>api fl xs m m'. calm (mt_app m') = calm (mt_app m) \<and> mt_dirPin m' = mt_dirPin m",
    OF _ assms])
  fix loop :: "'h motor_api \<Rightarrow> stop_flag \<Rightarrow> u32 list \<Rightarrow> ('w, 'h, 'u) motor \<Rightarrow> ('w, 'h, 'u) motor option"
    and api :: "'h motor_api" and fl xs and m r :: "('w, 'h, 'u) motor"
  assume IH: "\<And>api fl xs (m :: ('w, 'h, 'u) motor) r. loop api fl xs m = Some r \<Longrightarrow>
      calm (mt_app r) = calm (mt_app m) \<and> mt_dirPin r = mt_dirPin m"
    and step: "(let m1 = look api m
          in if flag_set fl m1 then Some m1
             else Option.bind (moveStepsIntervals api fl xs m1)
                    (\<lambda>(r, m2). case r of Inl e \<Rightarrow> Some m2 | Inr _ \<Rightarrow> loop api fl xs m2)) = Some r"
  show "calm (mt_app r) = calm (mt_app m) \<and> mt_dirPin r = mt_dirPin m"
  proof (cases "flag_set fl (look api m)")
    case True
    then show ?thesis using step by (auto simp: Let_def)
  next
    case False
    then obtain a m2 where c: "moveStepsIntervals api fl xs (look api m) = Some (a, m2)"
      using step by (auto simp: Let_def bind_eq_Some_conv)
    have "calm (mt_app m2) = calm (mt_app m) \<and> mt_dirPin m2 = mt_dirPin m"
      using intervals_ok [OF c] by (auto simp: advanced_def same_def)
    then show ?thesis using step False c IH [of api fl xs m2 r] by (cases a) (simp_all add: Let_def)
  qed
qed

lemma enable_simps [simp]:
  "mt_app (enable m) = mt_app m" "mt_dirPin (enable m) = mt_dirPin m" "mt_position (enable m) = mt_position m"
  "mt_tick (enable m) = mt_tick m" "mt_bb (enable m) = mt_bb m" "flag_set fl (enable m) = flag_set fl m"
  "mt_dirPin (emergencyStop api m) = mt_dirPin m" "mt_tick (emergencyStop api m) = mt_tick m"
  "mt_bb (emergencyStop api m) = mt_bb m"
  by (simp_all add: enable_def emergencyStop_def Let_def flag_set_def split: stop_flag.splits)

lemma store_flag_simps [simp]:
  "mt_dirPin (store_flag fl b m) = mt_dirPin m" "mt_enPin (store_flag fl b m) = mt_enPin m"
  "mt_hw (store_flag fl b m) = mt_hw m" "mt_tick (store_flag fl b m) = mt_tick m"
  "mt_position (store_flag fl b m) = mt_position m" "mt_bb (store_flag fl b m) = mt_bb m"
  by (cases fl; simp add: store_flag_def)+

text \<open>A move to the switch ahead returns with the driver enabled and the switch's flag raised.\<close>

lemma move_to_endstop_returns:
  assumes "approaches api fl gap" and "(dir = Direction.LiqIn) = (fl = StopFull)" and "\<not> mt_enPin m" and "hz \<noteq> 0"
  shows "\<exists>m'. move_to_endstop api dir hz fl m = Some m' \<and> flag_set fl m' \<and> \<not> mt_enPin m'
    \<and> calm (mt_app m') = calm (mt_app m) \<and> mt_dirPin m' = (dir = Direction.LiqIn)"
proof -
  let ?m = "store_flag fl False (set_dir api dir m)"
  let ?xs = "replicate RMT_CHUNK_SYMBOLS (step_interval hz)"
  have "?xs \<noteq> []" "length ?xs \<le> RMT_CHUNK_SYMBOLS" by (simp_all add: RMT_CHUNK_SYMBOLS_def)
  then obtain m' where m': "endstop_loop api fl ?xs ?m = Some m'" "flag_set fl m'"
    using endstop_returns [OF assms(1), of ?m ?xs] assms(2,3) by auto
  then show ?thesis using endstop_keeps [OF m'(1)] assms(2,4)
    by (simp add: move_to_endstop_def Let_def)
qed

lemma settle_keeps:
  "calm (mt_app (settle_steps api fl n m)) = calm (mt_app m) \<and> mt_enPin (settle_steps api fl n m) = mt_enPin m
   \<and> mt_position (settle_steps api fl n m) = mt_position m"
  by (induction n arbitrary: m) (simp_all add: Let_def delay_def)

lemma set_valve_simps [simp]:
  "mt_enPin (set_valve p m) = mt_enPin m" "mt_position (set_valve p m) = mt_position m"
  "gBuretteState (mt_app (set_valve p m)) = gBuretteState (mt_app m)"
  by (simp_all add: set_valve_def)

text \<open>Emptying watches the empty switch only: as long as that one is not raised the motor never
  stops, whatever happens to the other flag.\<close>

lemma move_empty_forever:
  assumes "working api" and "quiet StopEmpty api"
  shows "move_empty api hz m = None"
  by (simp add: move_empty_def move_to_endstop_def Let_def endstop_forever [OF assms])

subsection \<open>Homing: what it does\<close>

text \<open>The clock goes on between two looks, by at most a tenth of a second.\<close>

definition ticking :: "'h motor_api \<Rightarrow> bool" where
  "ticking api \<longleftrightarrow> (\<forall>d en h. 0 < unat (sn_ticks (fst (hw_look api d en h)))
      \<and> unat (sn_ticks (fst (hw_look api d en h))) \<le> 100)"

definition elapsed :: "u32 \<Rightarrow> ('w, 'h, 'u) motor \<Rightarrow> nat" where
  "elapsed start m = unat (mt_tick m - start)"

lemma elapsed_look:
  assumes "ticking api" and "elapsed start m < 2 ^ 31"
  shows "elapsed start m < elapsed start (look api m)" and "elapsed start (look api m) \<le> elapsed start m + 100"
proof -
  let ?s = "sn_ticks (fst (hw_look api (mt_dirPin m) (mt_enPin m) (mt_hw m)))"
  have s: "0 < unat ?s" "unat ?s \<le> 100" using assms(1) by (simp_all add: ticking_def)
  have t: "mt_tick (look api m) - start = (mt_tick m - start) + ?s"
    by (simp add: look_def case_prod_beta)
  have "unat ((mt_tick m - start) + ?s) = unat (mt_tick m - start) + unat ?s"
    using s assms(2) by (subst unat_add_lem [THEN iffD1]) (simp_all add: elapsed_def)
  then have "elapsed start (look api m) = elapsed start m + unat ?s"
    by (simp only: elapsed_def t)
  then show "elapsed start m < elapsed start (look api m)" "elapsed start (look api m) \<le> elapsed start m + 100"
    using s by simp_all
qed

lemma intervals_Nil: "moveStepsIntervals api fl [] m = Some (Inr (), m)"
  by (simp add: moveStepsIntervals.simps)

lemma one_chunk:
  assumes "working api" and "xs \<noteq> []" and "length xs \<le> RMT_CHUNK_SYMBOLS"
  shows "\<exists>r m'. moveStepsIntervals api fl xs m = Some (r, m') \<and> r \<in> {Inr (), Inl LimitSwitchTriggered}
    \<and> mt_tick m' \<in> {mt_tick (look api m), mt_tick (look api (look api m))}
    \<and> calm (mt_app m') = calm (mt_app m)"
proof (cases "flag_set fl (look api m)")
  case True
  then show ?thesis using assms(2) by (subst moveStepsIntervals.simps) (auto simp: Let_def stopped_def)
next
  case False
  obtain e h where t: "hw_transmit api (map symbol_of xs) (mt_hw (look api (look api m))) = (e, h)" by fastforce
  have e: "e = ESP_OK" using assms(1) t by (metis fst_conv working_def)
  obtain e2 h2 where w: "hw_wait api 100 h = (e2, h2)" by fastforce
  have e2: "e2 = ESP_OK" using assms(1) w by (metis fst_conv working_def)
  show ?thesis using False assms(2,3)
    by (subst moveStepsIntervals.simps)
      (auto simp: Let_def intervals_Nil send_chunk_def transmit.simps wait_all_done.simps t e w e2 stopped_def)
qed

lemma check_cases:
  "checkHomingTermination api start (False, False) m =
     (if flag_set StopFull (look api m) then (True, (True, False), look api m)
      else if 2000 \<le> elapsed start (look api m) then (True, (False, True), look api m)
      else (False, (False, False), look api m))"
  "\<exists>b t. checkHomingTermination api start (True, False) m = (b, (True, t), look api m)"
  by (auto simp: checkHomingTermination_def Let_def elapsed_def HOMING_TIMEOUT_MS_def word_le_nat_alt)

lemma homing_returns:
  assumes "working api" and "ticking api" and "elapsed start m < 2000"
  shows "\<exists>e m'. homing_loop api start m = Some (e, m') \<and> e \<noteq> Failed
    \<and> calm (mt_app m') = calm (mt_app m) \<and> (e = TimedOut \<longrightarrow> \<not> flag_set StopFull m')"
  using assms(3)
proof (induction "2000 - elapsed start m" arbitrary: m rule: less_induct)
  case less
  let ?m1 = "look api m"
  have l1: "elapsed start m < elapsed start ?m1" "elapsed start ?m1 \<le> elapsed start m + 100"
    using elapsed_look [OF assms(2), of start m] less.prems by simp_all
  show ?case
  proof (cases "flag_set StopFull ?m1 \<or> 2000 \<le> elapsed start ?m1")
    case True
    then show ?thesis
      by (subst homing_loop.simps) (auto simp: check_cases Let_def ending_def)
  next
    case False
    let ?xs = "replicate RMT_CHUNK_SYMBOLS HOME_INTERVAL_US"
    obtain r m2 where c: "moveStepsIntervals api StopFull ?xs ?m1 = Some (r, m2)" "r \<in> {Inr (), Inl LimitSwitchTriggered}"
        "mt_tick m2 \<in> {mt_tick (look api ?m1), mt_tick (look api (look api ?m1))}"
        "calm (mt_app m2) = calm (mt_app m)"
      using one_chunk [OF assms(1), of ?xs StopFull ?m1] by (fastforce simp: RMT_CHUNK_SYMBOLS_def)
    have l2: "elapsed start ?m1 < elapsed start (look api ?m1)" "elapsed start (look api ?m1) \<le> elapsed start ?m1 + 100"
      using elapsed_look [OF assms(2), of start ?m1] l1 less.prems by simp_all
    have l3: "elapsed start (look api ?m1) < elapsed start (look api (look api ?m1))"
        "elapsed start (look api (look api ?m1)) \<le> elapsed start (look api ?m1) + 100"
      using elapsed_look [OF assms(2), of start "look api ?m1"] l1 l2 less.prems by simp_all
    have g: "elapsed start m < elapsed start m2" "elapsed start m2 < 2400"
      using c(3) l1 l2 l3 False by (auto simp: elapsed_def)
    have l4: "elapsed start m2 < elapsed start (look api m2)"
      using elapsed_look [OF assms(2), of start m2] g(2) by simp
    let ?k = "checkHomingTermination api start (r = Inl LimitSwitchTriggered, False) m2"
    have eq: "homing_loop api start m =
        (let (_, flags2, m3) = ?k in if fst flags2 \<or> snd flags2 then Some (ending flags2, m3) else homing_loop api start m3)"
      using False c(1,2) by (subst homing_loop.simps) (auto simp: check_cases Let_def)
    show ?thesis
    proof (cases "r = Inr ()")
      case True
      show ?thesis
      proof (cases "flag_set StopFull (look api m2) \<or> 2000 \<le> elapsed start (look api m2)")
        case True
        then show ?thesis using \<open>r = Inr ()\<close> c(4) by (auto simp: eq check_cases ending_def)
      next
        case no: False
        then have "\<exists>e m'. homing_loop api start (look api m2) = Some (e, m') \<and> e \<noteq> Failed
            \<and> calm (mt_app m') = calm (mt_app (look api m2)) \<and> (e = TimedOut \<longrightarrow> \<not> flag_set StopFull m')"
        proof -
          have "2000 - elapsed start (look api m2) < 2000 - elapsed start m" using g l4 no by linarith
          moreover have "elapsed start (look api m2) < 2000" using no by simp
          ultimately show ?thesis using less.hyps by blast
        qed
        then show ?thesis using True no c(4) by (simp add: eq check_cases)
      qed
    next
      case False
      then obtain b t where "?k = (b, (True, t), look api m2)" using c(2) check_cases(2) by fastforce
      then show ?thesis using c(4) by (simp add: eq ending_def)
    qed
  qed
qed

lemma calm_same [simp]:
  "calm (mt_app (clear_switch fl m)) = calm (mt_app m)" "calm (mt_app (trace api m)) = calm (mt_app m)"
  "calm (mt_app (enable m)) = calm (mt_app m)"
  by (simp_all add: clear_switch_def trace_def enable_def)

lemma calm_state: "calm (mt_app (set_state st m)) = (calm (mt_app m))\<lparr>gBuretteState := st\<rparr>"
  by (simp add: calm_def set_state_def)

lemma homing_done:
  assumes "working api" and "ticking api"
  shows "\<exists>m'. run_homing api sw m = Some m' \<and> gBuretteState (mt_app m') = BuretteState.Idle
    \<and> \<not> mt_enPin m' \<and> \<not> gStopFull (mt_app m')
    \<and> calm (mt_app m') = calm ((mt_app m)\<lparr>gBuretteState := BuretteState.Idle\<rparr>)"
proof -
  let ?m2 = "(trace api (set_state BuretteState.Homing
      (m\<lparr>mt_bb := ffi_enter ''motor'' (hw_now api (mt_hw m)) FFI_HOMING (mt_bb m)\<rparr>)))\<lparr>mt_dirPin := True\<rparr>"
  let ?m3 = "look api (store_flag StopFull False (clear_switch sw ?m2))"
  have "elapsed (mt_tick ?m3) ?m3 < 2000" by (simp add: elapsed_def)
  then obtain e m4 where h: "homing_loop api (mt_tick ?m3) ?m3 = Some (e, m4)" and e: "e \<noteq> Failed"
    and c: "calm (mt_app m4) = calm (mt_app ?m3)" and f: "e = TimedOut \<longrightarrow> \<not> flag_set StopFull m4"
    using homing_returns [OF assms] by blast
  have m3: "calm (mt_app ?m3) = (calm (mt_app m))\<lparr>gBuretteState := BuretteState.Homing\<rparr>"
    by (simp add: calm_state)
  have "calm (mt_app (postHomingCleanup api e m4)) = calm ((mt_app m)\<lparr>gBuretteState := BuretteState.Idle\<rparr>)"
    using e c unfolding m3 by (cases e) (simp_all add: postHomingCleanup_def Let_def calm_state, simp_all add: calm_def)
  moreover have "gBuretteState (mt_app (postHomingCleanup api e m4)) = BuretteState.Idle"
    "\<not> mt_enPin (postHomingCleanup api e m4)"
    using e by (simp_all add: postHomingCleanup_def Let_def)
  moreover have "\<not> gStopFull (mt_app (postHomingCleanup api e m4))"
    using e f by (cases e)
      (auto simp: postHomingCleanup_def Let_def flag_set_def store_flag_def set_state_def trace_def enable_def emergencyStop_def)
  ultimately show ?thesis using h by (simp add: run_homing_def Let_def)
qed


end
