(* ===== verification/Rest_Api.thy ===== *)
theory Rest_Api
  imports Main_Loop
begin

text \<open>
  The REST interface (\<^verbatim>\<open>interface/src/rest_api.cpp\<close>): the ping, status, command and valve
  handlers.  A request is its announced length and what the server delivers of its body; a reply
  is its status, content type and text, and whether the handler reports success.  The JSON
  library is the parameter \<open>json\<close>, as for the command parser.
\<close>

unbundle bit_operations_syntax
declare One_nat_def [simp del]

subsection \<open>Requests and replies\<close>

record http_request =
  rq_content_len :: nat
  rq_recv :: "nat \<Rightarrow> string option"

record reply =
  rp_ok :: bool
  rp_status :: string
  rp_type :: string
  rp_body :: string

definition sent_json :: "bool \<Rightarrow> string \<Rightarrow> string \<Rightarrow> reply" where
  "sent_json ok status body = \<lparr>rp_ok = ok, rp_status = status, rp_type = ''application/json'', rp_body = body\<rparr>"

definition sent_err :: "string \<Rightarrow> string \<Rightarrow> reply" where
  "sent_err status msg = \<lparr>rp_ok = False, rp_status = status, rp_type = ''text/html'', rp_body = msg\<rparr>"

definition HTTP_200 :: string where "HTTP_200 = ''200 OK''"
definition HTTP_400 :: string where "HTTP_400 = ''400 Bad Request''"
definition HTTP_500 :: string where "HTTP_500 = ''500 Internal Server Error''"

text \<open>The body, up to the size of the buffer; an error, or nothing received, is \<^term>\<open>None\<close>.\<close>

definition received :: "nat \<Rightarrow> http_request \<Rightarrow> string option" where
  "received cap req =
     (case rq_recv req (min (rq_content_len req) cap) of
        None \<Rightarrow> None
      | Some s \<Rightarrow> if s = [] then None else Some s)"

definition status_pair :: "string \<Rightarrow> string" where
  "status_pair s = ''{'' @ jkey ''status'' @ quoted s @ ''}''"

definition error_pair :: "string \<Rightarrow> string" where
  "error_pair msg = ''{'' @ jkey ''status'' @ quoted ''error'' @ '','' @ jkey ''message'' @ quoted msg @ ''}''"

subsection \<open>The cores of the handlers\<close>

text \<open>A core leaves a text in the buffer and answers its size or an HTTP code.\<close>

definition handlePingCore :: "string \<times> (nat + nat)" where
  "handlePingCore = (let (b, n) = snprintf MAX_RSP_SIZE (status_pair ''ok'') in (b, Inr n))"

definition handleStatusCore :: "'g globals_scheme \<Rightarrow> string \<times> (nat + nat)" where
  "handleStatusCore s =
     (let text = serializeStatusJson [] (gBuretteState s) (gVolumeMl s) (gBuretteState s = BuretteState.Homing)
      in (text, if length text = 0 then Inl 500 else Inr (length text)))"

definition handleCommandCore ::
  "'w nvs_api \<Rightarrow> (nat \<Rightarrow> u16) option \<Rightarrow> (string \<Rightarrow> json option) \<Rightarrow> string \<Rightarrow> 'w app
     \<Rightarrow> ((string \<times> (nat + nat)) \<times> 'w app) outcome" where
  "handleCommandCore api cb json body s =
     (case parseCommand json body of
        Inl _ \<Rightarrow> Some ((fst (snprintf MAX_RSP_SIZE (error_pair ''invalid_params'')), Inl 400), s)
      | Inr cmd \<Rightarrow>
          (case dispatch api cb cmd s of
             None \<Rightarrow> None
           | Some (Inl _, s1) \<Rightarrow> Some ((fst (snprintf MAX_RSP_SIZE (error_pair ''start_failed'')), Inl 500), s1)
           | Some (Inr rsp, s1) \<Rightarrow>
               let text = serializeToBuffer rsp
               in if r_kind rsp = ResponseKind.Error then Some ((text, Inl 400), s1)
                  else Some ((text, Inr (length text)), s1)))"

subsection \<open>The handlers\<close>

definition send_core :: "string \<times> (nat + nat) \<Rightarrow> reply" where
  "send_core r =
     (case r of
        (b, Inl _) \<Rightarrow> sent_err HTTP_500 ''internal error''
      | (b, Inr n) \<Rightarrow> sent_json True HTTP_200 (take n b))"

definition ping_handler :: reply where
  "ping_handler = send_core handlePingCore"

definition status_handler :: "'g globals_scheme \<Rightarrow> reply" where
  "status_handler s = send_core (handleStatusCore s)"

definition command_handler ::
  "'w nvs_api \<Rightarrow> (nat \<Rightarrow> u16) option \<Rightarrow> (string \<Rightarrow> json option) \<Rightarrow> http_request \<Rightarrow> 'w app \<Rightarrow> (reply \<times> 'w app) outcome" where
  "command_handler api cb json req s =
     (case received MAX_CMD_SIZE req of
        None \<Rightarrow> Some (sent_err HTTP_400 ''bad request'', s)
      | Some body \<Rightarrow>
          (case parseCommand json body of
             Inl _ \<Rightarrow> Some (sent_json False HTTP_400 (error_pair ''Protocol error''), s)
           | Inr cmd \<Rightarrow>
               (case dispatch api cb cmd s of
                  None \<Rightarrow> None
                | Some (Inl _, s1) \<Rightarrow> Some (sent_err HTTP_500 ''dispatch failed'', s1)
                | Some (Inr rsp, s1) \<Rightarrow>
                    if r_kind rsp \<noteq> ResponseKind.AckThen
                    then Some (sent_json True HTTP_200 (serializeToBuffer rsp), s1)
                    else Some (sent_json True HTTP_200 (status_pair ''accepted''), s1))))"

definition get_state_command :: string where
  "get_state_command = ''{'' @ jkey ''cmd'' @ quoted ''valve.getState'' @ ''}''"

definition valve_get_handler ::
  "'w nvs_api \<Rightarrow> (nat \<Rightarrow> u16) option \<Rightarrow> (string \<Rightarrow> json option) \<Rightarrow> 'w app \<Rightarrow> (reply \<times> 'w app) outcome" where
  "valve_get_handler api cb json s =
     map_option (\<lambda>(r, s1). (send_core r, s1))
       (handleCommandCore api cb json get_state_command s)"

definition valve_command :: "string \<Rightarrow> string" where
  "valve_command pos = ''{'' @ jkey ''cmd'' @ quoted ''valve.setPosition'' @ '','' @ jkey ''position'' @ quoted pos @ ''}''"

definition valve_post_handler ::
  "'w nvs_api \<Rightarrow> (nat \<Rightarrow> u16) option \<Rightarrow> (string \<Rightarrow> json option) \<Rightarrow> http_request \<Rightarrow> 'w app \<Rightarrow> (reply \<times> 'w app) outcome" where
  "valve_post_handler api cb json req s =
     (case received MAX_CMD_SIZE req of
        None \<Rightarrow> Some (sent_err HTTP_400 ''bad request'', s)
      | Some body \<Rightarrow>
          (case json body of
             None \<Rightarrow> Some (sent_json False HTTP_400 (error_pair ''invalid_json''), s)
           | Some j \<Rightarrow>
               (case find ''position'' j of
                  Some (JString pos) \<Rightarrow>
                    if pos \<noteq> ''input'' \<and> pos \<noteq> ''output''
                    then Some (sent_json False HTTP_400 (error_pair ''invalid_position''), s)
                    else
                      map_option (\<lambda>((b, r), s1).
                          (case r of
                             Inl _ \<Rightarrow> sent_json False HTTP_400 (c_string b)
                           | Inr n \<Rightarrow> sent_json True HTTP_200 (take n b), s1))
                        (handleCommandCore api cb json (fst (snprintf MAX_CMD_SIZE (valve_command pos))) s)
                | _ \<Rightarrow> Some (sent_json False HTTP_400 (error_pair ''missing_position''), s))))"

subsection \<open>No handler changes the id of the pending result\<close>

definition keeps_id :: "'w app \<Rightarrow> (CommandResponse \<times> 'w app) outcome \<Rightarrow> bool" where
  "keeps_id s r = (case r of None \<Rightarrow> True | Some (rsp, s') \<Rightarrow> gLastCmdId s' = gLastCmdId s)"

lemma keeps_None [simp]: "keeps_id s None" by (simp add: keeps_id_def)

lemma keeps_Some [simp]: "keeps_id s (Some (r, s')) \<longleftrightarrow> gLastCmdId s' = gLastCmdId s" by (simp add: keeps_id_def)

lemma keeps_fail [simp]: "keeps_id s (fail m s') \<longleftrightarrow> gLastCmdId s' = gLastCmdId s" by (simp add: fail_def)

lemma send_keeps [simp]: "gLastCmdId (snd (sendMotorCommand c s)) = gLastCmdId s"
  by (simp add: sendMotorCommand_def case_prod_beta)

lemma keeps_start [simp]: "keeps_id s (start_motion c s1) \<longleftrightarrow> gLastCmdId s1 = gLastCmdId s"
  by (simp add: start_motion_def case_prod_beta)

lemma keeps_setting [simp]: "keeps_id s (send_setting c s1) \<longleftrightarrow> gLastCmdId s1 = gLastCmdId s"
  by (simp add: send_setting_def case_prod_beta)

lemma keeps_claim: "(\<And>s1. gLastCmdId s1 = gLastCmdId s \<Longrightarrow> keeps_id s (k s1)) \<Longrightarrow> keeps_id s (claim d k s)"
  by (simp add: claim_def claim_burette_def)

lemma keeps_with_cal: "gLastCmdId s1 = gLastCmdId s \<Longrightarrow> (\<And>cal. keeps_id s (k cal s1)) \<Longrightarrow> keeps_id s (with_cal k s1)"
  by (simp add: with_cal_def split: option.split)

lemma keeps_when_idle: "keeps_id s (k s) \<Longrightarrow> keeps_id s (when_idle k s)"
  by (simp add: when_idle_def)

lemma keeps_bind: "(\<And>x. keeps_id s (f x)) \<Longrightarrow> keeps_id s (Option.bind x f)"
  by (cases x) simp_all

lemma keeps_map: "(\<And>b. gLastCmdId (g b) = gLastCmdId s) \<Longrightarrow> keeps_id s (map_option (\<lambda>b. (f b, g b)) x)"
  by (cases x) simp_all

lemmas keeps_intros = keeps_claim keeps_with_cal keeps_when_idle keeps_bind keeps_map

lemma keeps_motion:
  "keeps_id s (handleFill s)" "keeps_id s (handleEmpty s)" "keeps_id s (handleDoseVolume v sp s)"
  "keeps_id s (handleRinse n s)" "keeps_id s (handleMoveSteps k s)" "keeps_id s (handleMoveContinuous d f s)"
  "keeps_id s (handleRunCalibration fs v' s)"
  unfolding handleFill_def handleEmpty_def handleDoseVolume_def handleRinse_def handleMoveSteps_def
    handleMoveContinuous_def handleRunCalibration_def
  by (auto simp: Let_def case_prod_beta intro!: keeps_intros split: option.splits)

lemma keeps_cal_run: "keeps_id s (handleCalRun m f v s)"
  unfolding handleCalRun_def
  by (auto simp: Let_def claim_burette_def intro!: keeps_intros split: option.splits)

lemma keeps_stops: "keeps_id s (handleStop s)" "keeps_id s (handleEmergencyStop s)"
  by (auto simp: handleStop_def handleEmergencyStop_def claim_burette_def Let_def case_prod_beta)

lemma keeps_setters:
  "keeps_id s (handleSetDirection d s)" "keeps_id s (handleSetSpeed v s)" "keeps_id s (handleSetAccel v s)"
  by (auto simp: handleSetDirection_def handleSetSpeed_def handleSetAccel_def intro!: keeps_intros split: option.splits)


lemma keeps_structure:
  "(b \<Longrightarrow> keeps_id s x) \<Longrightarrow> (\<not> b \<Longrightarrow> keeps_id s y) \<Longrightarrow> keeps_id s (if b then x else y)"
  "keeps_id s x \<Longrightarrow> (\<And>v. keeps_id s (f v)) \<Longrightarrow> keeps_id s (case c of None \<Rightarrow> x | Some v \<Rightarrow> f v)"
  "(\<And>e. keeps_id s (g e)) \<Longrightarrow> (\<And>v. keeps_id s (f v)) \<Longrightarrow> keeps_id s (case d of Inl e \<Rightarrow> g e | Inr v \<Rightarrow> f v)"
  "(\<And>u v. keeps_id s (h u v)) \<Longrightarrow> keeps_id s (case pr of (u, v) \<Rightarrow> h u v)"
  by (simp_all split: option.split sum.split prod.split)

lemma keeps_calibration:
  "keeps_id s (handleGetCalibration rd s)" "keeps_id s (handleCalcVolume m t p rd s)"
  "keeps_id s (handleCalcSpeed ms rd s)" "keeps_id s (handleSaveCalibration a b wr s)"
  "keeps_id s (handleResetCalibration wr s)" "keeps_id s (handleGetCalResult s)"
  unfolding handleGetCalibration_def handleCalcVolume_def handleCalcSpeed_def handleSaveCalibration_def
    handleResetCalibration_def handleGetCalResult_def Let_def
  by (intro keeps_structure keeps_map; simp)+

lemma register_keeps [simp]: "gLastCmdId (snd (readTmcRegister reg s)) = gLastCmdId s"
  by (simp add: readTmcRegister_def case_prod_beta split: option.split)

lemma keeps_sensors:
  "keeps_id s (handleReadTemperature t s)" "keeps_id s (handleAdcCalSave a b wr s)"
  "keeps_id s (handleAdcCalMeasure r sm s)" "keeps_id s (handleAdcCalReset wr s)"
  "keeps_id s (handleStallGuardGet s)" "keeps_id s (handleStallGuardSetThreshold api th s)"
  "keeps_id s (handleAdcCalGet rd s)" "keeps_id s (handleAdcCalCompute s)"
  unfolding handleReadTemperature_def handleAdcCalSave_def handleAdcCalMeasure_def handleAdcCalReset_def
    handleStallGuardGet_def handleStallGuardSetThreshold_def handleAdcCalGet_def handleAdcCalCompute_def Let_def
  by (auto intro!: keeps_structure keeps_map split: prod.splits sum.splits option.splits)

lemma keeps_others:
  "keeps_id s (handleSetPosition p s)" "keeps_id s (handleGetState q s)" "keeps_id s (handleGetFormattedLogs s)"
  "keeps_id s (handleReadLog s)" "keeps_id s (handleFirmwareVersion v s)" "keeps_id s (handlePing s)"
  "keeps_id s (handleGetStatus st vol s)"
  unfolding handleSetPosition_def handleGetState_def handleGetFormattedLogs_def handleReadLog_def
    handleFirmwareVersion_def handlePing_def handleGetStatus_def Let_def
  by (auto intro!: keeps_structure keeps_map split: prod.splits sum.splits option.splits)

lemma keeps_dispatch: "keeps_id s (dispatch_handler api cb cmd s)"
  by (cases "c_type cmd")
    (simp_all add: dispatch_handler_def keeps_bind keeps_motion keeps_cal_run keeps_stops keeps_setters
      keeps_calibration keeps_sensors keeps_others)

lemma dispatch_keeps_id: "dispatch api cb cmd s = Some (r, s1) \<Longrightarrow> gLastCmdId s1 = gLastCmdId s"
  using keeps_dispatch [of s api cb cmd] by (auto simp: dispatch_def withId_def keeps_id_def split: option.splits)


subsection \<open>Commands over HTTP\<close>

text \<open>C18.  A posted command is answered by the response of dispatch with the status 200, an error response
  included, except that an acknowledgement is replaced by a text without an id; the id under
  which the motor's result will be reported stays that of an earlier command.  A text that is no
  command is answered with 400 and changes nothing.\<close>

theorem http_command_contract:
  assumes "received MAX_CMD_SIZE req = Some body" and "command_handler api cb json req s = Some (rep, s')"
  shows "case parseCommand json body of
      Inl e \<Rightarrow> rep = sent_json False HTTP_400 (error_pair ''Protocol error'') \<and> s' = s
    | Inr cmd \<Rightarrow>
        \<exists>rsp. dispatch api cb cmd s = Some (Inr rsp, s') \<and> r_id rsp = c_id cmd \<and> gLastCmdId s' = gLastCmdId s
          \<and> rep = sent_json True HTTP_200
              (if r_kind rsp = ResponseKind.AckThen then status_pair ''accepted'' else serializeToBuffer rsp)"
proof (cases "parseCommand json body")
  case (Inl e)
  then show ?thesis using assms by (simp add: command_handler_def)
next
  case (Inr cmd)
  obtain r s1 where d: "dispatch api cb cmd s = Some (r, s1)"
    using assms Inr by (auto simp: command_handler_def split: option.splits)
  then obtain rsp where rsp: "r = Inr rsp" "r_id rsp = c_id cmd"
    by (auto simp: dispatch_def withId_def split: option.splits)
  then show ?thesis using assms Inr d dispatch_keeps_id [OF d]
    by (auto simp: command_handler_def split: if_splits)
qed

text \<open>So the result of a motion that was started over HTTP is reported under the id of the last
  command that was acknowledged on another link.\<close>

lemma http_result_carries_old_id:
  assumes "received MAX_CMD_SIZE req = Some body" and "command_handler api cb json req (ms_app m) = Some (rep, s')"
    and "parseCommand json body = Inr cmd"
    and "m' = m\<lparr>ms_app := s'\<lparr>ap_controller := True, ap_resultQueue := Some (r # rs)\<rparr>\<rparr>"
    and "fp_ok f32 (sm_measuredSpeedMlMin r)" and "0 \<le> ser_fd (ms_serial m)"
  shows "\<exists>a. extractCmdId a = gLastCmdId (ms_app m) \<and> ms_out (result_step api m') = ms_out m @ [a]"
proof -
  obtain r0 where d: "dispatch api cb cmd (ms_app m) = Some (r0, s')"
    using assms(1-3) by (auto simp: command_handler_def split: option.splits sum.splits if_splits)
  show ?thesis
    using result_step_line [of m' r rs api] assms(4-6) dispatch_keeps_id [OF d] by auto
qed

subsection \<open>The valve over HTTP\<close>

text \<open>What the JSON library answers for the two texts the handlers build.\<close>

definition parses_commands :: "(string \<Rightarrow> json option) \<Rightarrow> bool" where
  "parses_commands json \<longleftrightarrow>
     json get_state_command
       = Some (JObject [(''cmd'', JString ''valve.getState'')])
     \<and> (\<forall>p \<in> {''input'', ''output''}.
          json (valve_command p) = Some (JObject [(''cmd'', JString ''valve.setPosition''), (''position'', JString p)]))"

definition named_position :: "string \<Rightarrow> ValvePosition" where
  "named_position p = (if p = ''input'' then ValvePosition.Input else ValvePosition.Output)"

lemma get_state_parsed:
  assumes "parses_commands json"
  shows "parseCommand json get_state_command
    = Inr (read_fields (JObject [(''cmd'', JString ''valve.getState'')]) CommandType.ValveGetState)"
  using assms by (simp add: parseCommand_def parses_commands_def lookupCmdType_def kCmdNames_def)

lemma set_position_parsed:
  assumes "parses_commands json" and "p \<in> {''input'', ''output''}"
  shows "\<exists>cmd. parseCommand json (valve_command p) = Inr cmd \<and> c_type cmd = CommandType.ValveSetPosition
    \<and> c_valvePos cmd = Some (named_position p) \<and> c_id cmd = 0"
proof -
  let ?j = "JObject [(''cmd'', JString ''valve.setPosition''), (''position'', JString p)]"
  have "parseCommand json (valve_command p) = Inr (read_fields ?j CommandType.ValveSetPosition)"
    using assms by (auto simp: parseCommand_def parses_commands_def lookupCmdType_def kCmdNames_def)
  moreover have "parseValvePosition ?j ''position'' = Some (named_position p)"
    using assms(2) by (auto simp: parseValvePosition_def named_position_def readString_def tolower_def)
  ultimately show ?thesis by (simp add: read_fields_def command_init_def readId_def)
qed


definition position_text :: "string \<Rightarrow> string" where
  "position_text p = ok_prefix @ ''{'' @ jkey ''position'' @ quoted p @ ''}}''"

lemma serialized_single:
  "t \<noteq> [] \<Longrightarrow> length t \<le> MAX_RSP_SIZE \<Longrightarrow> serializeToBuffer ((single_body t)\<lparr>r_id := 0\<rparr>) = t"
  by (simp add: serializeToBuffer_def single_body_def response_init_def body_bytes_def)

lemma position_serialized: "serializeToBuffer ((position_response P)\<lparr>r_id := 0\<rparr>) = position_text (position_str P)"
proof -
  have "length (position_text (position_str P)) \<le> MAX_RSP_SIZE"
    by (simp add: position_text_def position_str_def ok_prefix_def jkey_def quoted_def MAX_RSP_SIZE_def)
  moreover have "position_text (position_str P) \<noteq> []" by (simp add: position_text_def ok_prefix_def)
  moreover have "position_response P = single_body (position_text (position_str P))"
    by (simp add: position_response_def position_text_def)
  ultimately show ?thesis using serialized_single by simp
qed

lemma position_kind: "r_kind ((position_response P)\<lparr>r_id := x\<rparr>) = ResponseKind.Single" by simp

lemma named_position_str: "p \<in> {''input'', ''output''} \<Longrightarrow> position_str (named_position p) = p"
  by (auto simp: position_str_def named_position_def)

lemma valve_command_fits: "p \<in> {''input'', ''output''} \<Longrightarrow> fst (snprintf MAX_CMD_SIZE (valve_command p)) = valve_command p"
  by (auto simp: snprintf_def valve_command_def jkey_def quoted_def MAX_CMD_SIZE_def)

lemma get_state_core:
  assumes "parses_commands json"
  shows "valve_get_handler api cb json s
    = Some (sent_json True HTTP_200 (position_text (position_str (gValvePosition s))), s)"
proof -
  have "dispatch api cb (read_fields (JObject [(''cmd'', JString ''valve.getState'')]) CommandType.ValveGetState) s
      = Some (Inr ((position_response (gValvePosition s))\<lparr>r_id := 0\<rparr>), s)"
    by (simp add: dispatch_def withId_def dispatch_handler_def read_fields_def command_init_def handleGetState_def readId_def)
  then show ?thesis
    by (simp add: valve_get_handler_def handleCommandCore_def get_state_parsed [OF assms] position_serialized send_core_def Let_def)
qed

text \<open>Posting a position to the valve and reading it back: when the burette is idle, the valve is at
  rest and the settle timer can be started, the valve is switched and starts to settle, and the
  reading that follows gives the text of the posted position; while it settles, a second post is
  refused with 400 and changes nothing.\<close>

theorem valve_post_then_get:
  assumes json: "parses_commands json" and body: "received MAX_CMD_SIZE req = Some b"
    and b: "json b = Some j" "find ''position'' j = Some (JString p)" and p: "p \<in> {''input'', ''output''}"
    and idle: "gBuretteState s = BuretteState.Idle" "\<not> gValveIsSettling s"
    and arm: "armValveSettleTimer (named_position p) (setPosition (named_position p) (ap_valve s)) \<noteq> None"
  shows "\<exists>s'. valve_post_handler api cb json req s = Some (sent_json True HTTP_200 (position_text p), s')
    \<and> gValveIsSettling s' \<and> v_position (ap_valve s') = named_position p
    \<and> valve_get_handler api cb json s' = Some (sent_json True HTTP_200 (position_text p), s')
    \<and> (\<exists>rep. valve_post_handler api cb json req s' = Some (rep, s') \<and> rp_status rep = HTTP_400)"
proof -
  let ?P = "named_position p"
  obtain cmd where cmd: "parseCommand json (valve_command p) = Inr cmd" "c_type cmd = CommandType.ValveSetPosition"
    "c_valvePos cmd = Some ?P" "c_id cmd = 0" using set_position_parsed [OF json p] by blast
  obtain v where v: "armValveSettleTimer ?P (setPosition ?P (ap_valve s)) = Some v" using arm by blast
  have pos: "v_position v = ?P"
    using v by (cases "named_position p") (auto simp: armValveSettleTimer_def setPosition_def Let_def
        split: option.splits if_splits)
  define s' where "s' = s\<lparr>gValveIsSettling := True, gValvePosition := ?P, ap_valve := v\<rparr>"
  have "dispatch api cb cmd s = Some (Inr ((position_response ?P)\<lparr>r_id := 0\<rparr>), s')"
    using idle v by (simp add: dispatch_def withId_def dispatch_handler_def cmd handleSetPosition_def s'_def)
  then have c1: "handleCommandCore api cb json (valve_command p) s
      = Some ((position_text p, Inr (length (position_text p))), s')"
    by (simp add: handleCommandCore_def cmd position_serialized named_position_str [OF p] Let_def)
  have post: "valve_post_handler api cb json req x = map_option (\<lambda>((b, r), s1).
        (case r of Inl _ \<Rightarrow> sent_json False HTTP_400 (c_string b) | Inr n \<Rightarrow> sent_json True HTTP_200 (take n b), s1))
      (handleCommandCore api cb json (valve_command p) x)" for x
    using p valve_command_fits [OF p] by (auto simp: valve_post_handler_def body b)
  have "dispatch api cb cmd s' = Some (Inr ((makeErrorResponse ''burette_busy'')\<lparr>r_id := 0\<rparr>), s')"
    by (simp add: dispatch_def withId_def dispatch_handler_def cmd handleSetPosition_def s'_def fail_def)
  then have "\<exists>t. handleCommandCore api cb json (valve_command p) s' = Some ((t, Inl 400), s')"
    by (simp add: handleCommandCore_def cmd Let_def)
  then have c2: "\<exists>rep. valve_post_handler api cb json req s' = Some (rep, s') \<and> rp_status rep = HTTP_400"
    by (auto simp: post sent_json_def)
  have "position_str (gValvePosition s') = p" using named_position_str [OF p] by (simp add: s'_def)
  then show ?thesis
    using get_state_core [OF json, of api cb s'] c1 c2 pos by (intro exI [of _ s']) (simp add: post s'_def)
qed

definition known_texts :: "string \<Rightarrow> json option" where
  "known_texts t =
     (if t = get_state_command
      then Some (JObject [(''cmd'', JString ''valve.getState'')])
      else if t = valve_command ''input''
      then Some (JObject [(''cmd'', JString ''valve.setPosition''), (''position'', JString ''input'')])
      else if t = valve_command ''output''
      then Some (JObject [(''cmd'', JString ''valve.setPosition''), (''position'', JString ''output'')])
      else if t = ''out'' then Some (JObject [(''position'', JString ''output'')])
      else None)"

lemma known_texts_parse: "parses_commands known_texts"
  by (simp add: parses_commands_def known_texts_def valve_command_def get_state_command_def jkey_def quoted_def)

theorem valve_post_then_get_witness:
  "\<exists>s'. valve_post_handler ref_nvs None known_texts \<lparr>rq_content_len = 3, rq_recv = \<lambda>n. Some ''out''\<rparr> (app_init ref_store)
      = Some (sent_json True HTTP_200 (position_text ''output''), s')
    \<and> v_position (ap_valve s') = ValvePosition.Output"
proof -
  let ?req = "\<lparr>rq_content_len = 3, rq_recv = \<lambda>n. Some ''out''\<rparr>"
  have 1: "received MAX_CMD_SIZE ?req = Some ''out''" by (simp add: received_def)
  have 2: "known_texts ''out'' = Some (JObject [(''position'', JString ''output'')])"
    by (simp add: known_texts_def valve_command_def get_state_command_def jkey_def)
  have 3: "armValveSettleTimer (named_position ''output'') (setPosition (named_position ''output'') (ap_valve (app_init ref_store))) \<noteq> None"
    by (simp add: armValveSettleTimer_def setPosition_def valve_init_def named_position_def Let_def)
  show ?thesis
    using valve_post_then_get [OF known_texts_parse 1 2, of "''output''" "app_init ref_store" ref_nvs None] 3
    by (auto simp: named_position_def)
qed

theorem http_command_contract_witness:
  "\<exists>rep. command_handler ref_nvs None (\<lambda>_. None) \<lparr>rq_content_len = 3, rq_recv = \<lambda>n. Some ''out''\<rparr> (app_init ref_store)
      = Some (rep, app_init ref_store) \<and> rp_status rep = HTTP_400"
proof -
  let ?req = "\<lparr>rq_content_len = 3, rq_recv = \<lambda>n. Some ''out''\<rparr>"
  have 1: "received MAX_CMD_SIZE ?req = Some ''out''" by (simp add: received_def)
  have p: "parseCommand (\<lambda>_. None) ''out'' = Inl InvalidJson" by (simp add: parseCommand_def)
  obtain rep s' where h: "command_handler ref_nvs None (\<lambda>_. None) ?req (app_init ref_store) = Some (rep, s')"
    by (simp add: command_handler_def 1 p)
  then show ?thesis using http_command_contract [OF 1 h] p by (simp add: sent_json_def)
qed

end
