(* ===== verification/Wifi_Credentials.thy ===== *)
theory Wifi_Credentials
  imports Nvs_Store
begin

text \<open>
  The saved networks (\<^verbatim>\<open>WifiManager::saveCredentials\<close> of \<^verbatim>\<open>infrastructure/network/src/wifi.cpp\<close>): at
  most five pairs of name and password in numbered slots of the flash.  A new network replaces
  the password of one with the same name, or takes the next slot, or pushes out the oldest.  The
  code ignores the outcome of every write.
\<close>

declare One_nat_def [simp del]

definition WIFI_MAX_NETWORKS :: nat where "WIFI_MAX_NETWORKS = 5"

definition ssid_key :: "nat \<Rightarrow> string" where
  "ssid_key i = fst (snprintf 16 (''ssid_'' @ nat_str i))"

definition password_key :: "nat \<Rightarrow> string" where
  "password_key i = fst (snprintf 16 (''password_'' @ nat_str i))"

definition read_slot :: "'w nvs_api \<Rightarrow> string \<Rightarrow> 'w \<Rightarrow> string option \<times> 'w" where
  "read_slot api key w =
     (case wifiReadStr api key 64 w of (Inr (Some v), w1) \<Rightarrow> (Some v, w1) | (_, w1) \<Rightarrow> (None, w1))"

definition read_count :: "'w nvs_api \<Rightarrow> 'w \<Rightarrow> nat \<times> 'w" where
  "read_count api w = (case wifiReadCount api w of (Inr c, w1) \<Rightarrow> (unat c, w1) | (Inl _, w1) \<Rightarrow> (0, w1))"

text \<open>The search for a slot with the same name, and the write to its password.\<close>

fun update_existing :: "'w nvs_api \<Rightarrow> string \<Rightarrow> string \<Rightarrow> nat list \<Rightarrow> 'w \<Rightarrow> bool \<times> 'w" where
  "update_existing api ssid password [] w = (False, w)"
| "update_existing api ssid password (i # is) w =
     (let (r, w1) = read_slot api (ssid_key i) w
      in if r = Some ssid then (True, snd (wifiWriteStr api (password_key i) password w1))
         else update_existing api ssid password is w1)"

definition copy_slot :: "'w nvs_api \<Rightarrow> string \<Rightarrow> string \<Rightarrow> 'w \<Rightarrow> 'w" where
  "copy_slot api srcKey dstKey w =
     (let (r, w1) = read_slot api srcKey w
      in case r of None \<Rightarrow> w1 | Some v \<Rightarrow> snd (wifiWriteStr api dstKey v w1))"

definition evict_oldest :: "'w nvs_api \<Rightarrow> 'w \<Rightarrow> 'w" where
  "evict_oldest api w =
     fold (\<lambda>i w. copy_slot api (password_key i) (password_key (i - 1))
                   (copy_slot api (ssid_key i) (ssid_key (i - 1)) w)) [1 ..< WIFI_MAX_NETWORKS] w"

definition write_network :: "'w nvs_api \<Rightarrow> nat \<Rightarrow> string \<Rightarrow> string \<Rightarrow> 'w \<Rightarrow> 'w" where
  "write_network api i ssid password w =
     snd (wifiWriteStr api (password_key i) password (snd (wifiWriteStr api (ssid_key i) ssid w)))"

definition saveCredentials :: "'w nvs_api \<Rightarrow> string \<Rightarrow> string \<Rightarrow> 'w \<Rightarrow> 'w" where
  "saveCredentials api ssid password w =
     (let (count, w1) = read_count api w;
          (found, w2) = update_existing api ssid password [0 ..< count] w1
      in if found then w2
         else if count < WIFI_MAX_NETWORKS
         then snd (wifiWriteCount api (of_nat (count + 1)) (write_network api count ssid password w2))
         else write_network api (WIFI_MAX_NETWORKS - 1) ssid password (evict_oldest api w2))"

subsection \<open>The list of networks\<close>

text \<open>The abstract operation: known names keep their place, the sixth network pushes out the first.\<close>

fun set_password :: "string \<Rightarrow> string \<Rightarrow> (string \<times> string) list \<Rightarrow> (string \<times> string) list" where
  "set_password s p [] = []"
| "set_password s p ((s', p') # ns) = (if s' = s then (s, p) # ns else (s', p') # set_password s p ns)"

definition remember :: "string \<Rightarrow> string \<Rightarrow> (string \<times> string) list \<Rightarrow> (string \<times> string) list" where
  "remember s p ns =
     (if s \<in> fst ` set ns then set_password s p ns
      else if length ns < 5 then ns @ [(s, p)]
      else tl ns @ [(s, p)])"

text \<open>A flash all of whose calls succeed.\<close>

definition flash_works :: "'w nvs_api \<Rightarrow> bool" where
  "flash_works api \<longleftrightarrow>
     (\<forall>ns rw w. fst (nvs_open api ns rw w)) \<and> (\<forall>ns k v w. fst (nvs_set api ns k v w))
     \<and> (\<forall>ns w. fst (nvs_commit api ns w))"

text \<open>The flash holds a list of networks.\<close>

definition slot_at :: "(string \<times> string \<Rightarrow> nvs_val option) \<Rightarrow> nat \<Rightarrow> string \<times> string \<Rightarrow> bool" where
  "slot_at m i e \<longleftrightarrow>
     m (NS_WIFI, ssid_key i) = Some (NStr (fst e)) \<and> m (NS_WIFI, password_key i) = Some (NStr (snd e))
     \<and> length (fst e) < 64 \<and> length (snd e) < 64"

definition slots_hold :: "(string \<times> string \<Rightarrow> nvs_val option) \<Rightarrow> (string \<times> string) list \<Rightarrow> bool" where
  "slots_hold m ns \<longleftrightarrow> (\<forall>i < length ns. slot_at m i (ns ! i))"

definition count_holds :: "(string \<times> string \<Rightarrow> nvs_val option) \<Rightarrow> nat \<Rightarrow> bool" where
  "count_holds m n \<longleftrightarrow> m (NS_WIFI, K_COUNT) = Some (NU8 (of_nat n)) \<or> m (NS_WIFI, K_COUNT) = None \<and> n = 0"

definition networks_stored :: "(string \<times> string \<Rightarrow> nvs_val option) \<Rightarrow> (string \<times> string) list \<Rightarrow> bool" where
  "networks_stored m ns \<longleftrightarrow> length ns \<le> 5 \<and> count_holds m (length ns) \<and> slots_hold m ns"

subsection \<open>Keys\<close>

lemma small_key:
  assumes "i < 256"
  shows "ssid_key i = ''ssid_'' @ nat_str i" and "password_key i = ''password_'' @ nat_str i"
proof -
  have "length (nat_str i) \<le> 3" by (rule length_nat_str_le) (use assms in simp_all)
  then show "ssid_key i = ''ssid_'' @ nat_str i" "password_key i = ''password_'' @ nat_str i"
    by (simp_all add: ssid_key_def password_key_def snprintf_def)
qed

lemma nat_str_inject [simp]: "nat_str i = nat_str j \<longleftrightarrow> i = j"
  by (metis digits_val_nat_str)

lemma keys_distinct:
  assumes "i < 256" "j < 256"
  shows "ssid_key i = ssid_key j \<longleftrightarrow> i = j" "password_key i = password_key j \<longleftrightarrow> i = j"
    "ssid_key i \<noteq> password_key j" "password_key j \<noteq> ssid_key i"
    "ssid_key i \<noteq> K_COUNT" "K_COUNT \<noteq> ssid_key i" "password_key i \<noteq> K_COUNT" "K_COUNT \<noteq> password_key i"
  using assms by (simp_all add: small_key K_COUNT_def)


subsection \<open>Every operation on a flash that works\<close>

lemma wifi_write_view:
  assumes "nvs_laws api view" "flash_works api"
  shows "view (snd (wifiWriteStr api k v w)) = (view w)((NS_WIFI, k) \<mapsto> NStr v)"
    and "view (snd (wifiWriteCount api c w)) = (view w)((NS_WIFI, K_COUNT) \<mapsto> NU8 c)"
proof -
  have ok: "fst (set_commit api ns k v w) = Inr ()" for ns k v w
    using assms(2) by (simp add: set_commit_def flash_works_def case_prod_beta)
  have op: "fst (nvs_open api ns rw w)" for ns rw w using assms(2) by (simp add: flash_works_def)
  have sv: "view (snd (nvs_open api ns rw w)) = view w" for ns rw w
    using assms(1) by (simp add: nvs_laws_def)
  show "view (snd (wifiWriteStr api k v w)) = (view w)((NS_WIFI, k) \<mapsto> NStr v)"
    by (simp add: wifiWriteStr_def case_prod_beta op setStr_def set_commit_view [OF assms(1) ok] sv)
  show "view (snd (wifiWriteCount api c w)) = (view w)((NS_WIFI, K_COUNT) \<mapsto> NU8 c)"
    by (simp add: wifiWriteCount_def case_prod_beta op setU8_def set_commit_view [OF assms(1) ok] sv)
qed

lemma read_slot_view:
  assumes "nvs_laws api view"
  shows "view (snd (read_slot api k w)) = view w"
  using assms by (auto simp: read_slot_def wifiReadStr_def nvs_laws_def case_prod_beta split: sum.splits option.splits)

lemma read_slot_value:
  assumes "nvs_laws api view" "flash_works api" "view w (NS_WIFI, k) = Some (NStr v)" "length v < 64"
  shows "fst (read_slot api k w) = Some v"
proof -
  have op: "fst (nvs_open api NS_WIFI False w)" using assms(2) by (simp add: flash_works_def)
  have "nvs_get_str api NS_WIFI k 64 (snd (nvs_open api NS_WIFI False w)) = Found v"
    using assms unfolding nvs_laws_def by (metis (no_types, lifting))
  then show ?thesis using op by (simp add: read_slot_def wifiReadStr_def getStr_def case_prod_beta)
qed

lemma read_count_value:
  assumes "nvs_laws api view" "flash_works api" "count_holds (view w) n" "n < 256"
  shows "fst (read_count api w) = n" "view (snd (read_count api w)) = view w"
proof -
  let ?w = "snd (nvs_open api NS_WIFI False w)"
  have op: "fst (nvs_open api NS_WIFI False w)" using assms(2) by (simp add: flash_works_def)
  have v: "view ?w = view w" using assms(1) by (simp add: nvs_laws_def)
  have "nvs_get_u8 api NS_WIFI K_COUNT ?w = Found (of_nat n) \<or> nvs_get_u8 api NS_WIFI K_COUNT ?w = NotFound \<and> n = 0"
    using assms(1,3) v unfolding nvs_laws_def count_holds_def by metis
  then show "fst (read_count api w) = n"
    using op assms(4)
    by (auto simp: read_count_def wifiReadCount_def getU8_def case_prod_beta unat_of_nat)
  show "view (snd (read_count api w)) = view w"
    using op v by (auto simp: read_count_def wifiReadCount_def case_prod_beta split: sum.splits)
qed

lemma write_network_view:
  assumes "nvs_laws api view" "flash_works api"
  shows "view (write_network api i s p w)
    = (view w)((NS_WIFI, ssid_key i) \<mapsto> NStr s, (NS_WIFI, password_key i) \<mapsto> NStr p)"
  by (simp add: write_network_def wifi_write_view [OF assms])

lemma copy_slot_view:
  assumes "nvs_laws api view" "flash_works api" "view w (NS_WIFI, src) = Some (NStr v)" "length v < 64"
  shows "view (copy_slot api src dst w) = (view w)((NS_WIFI, dst) \<mapsto> NStr v)"
  using read_slot_value [OF assms] read_slot_view [OF assms(1), of src w]
  by (simp add: copy_slot_def case_prod_beta wifi_write_view [OF assms(1,2)])


subsection \<open>The search and the eviction\<close>

lemma update_existing_scan:
  assumes laws: "nvs_laws api view" "flash_works api" and slots: "slots_hold (view w) ns" and "j \<le> length ns"
  shows "(\<forall>i \<in> {j ..< length ns}. fst (ns ! i) \<noteq> s) \<Longrightarrow>
      \<exists>w'. update_existing api s p [j ..< length ns] w = (False, w') \<and> view w' = view w"
    and "i \<in> {j ..< length ns} \<Longrightarrow> fst (ns ! i) = s \<Longrightarrow> (\<forall>k \<in> {j ..< i}. fst (ns ! k) \<noteq> s) \<Longrightarrow>
      \<exists>w'. update_existing api s p [j ..< length ns] w = (True, w')
        \<and> view w' = (view w)((NS_WIFI, password_key i) \<mapsto> NStr p)"
  using slots \<open>j \<le> length ns\<close>
proof (induction "length ns - j" arbitrary: j w)
  case 0
  { case 1 then show ?case using 0 by simp }
  { case 2 then show ?case using 0 by simp }
next
  case (Suc d)
  have u: "j < length ns \<Longrightarrow> [j ..< length ns] = j # [Suc j ..< length ns]" for j by (simp add: upt_conv_Cons)
  have rd: "slots_hold (view w) ns \<Longrightarrow> j < length ns \<Longrightarrow>
      \<exists>w'. read_slot api (ssid_key j) w = (Some (fst (ns ! j)), w') \<and> view w' = view w" for j w
    using read_slot_value [OF laws, of w "ssid_key j" "fst (ns ! j)"] read_slot_view [OF laws(1), of "ssid_key j" w]
    by (metis prod.collapse slot_at_def slots_hold_def)
  have j: "j < length ns" using Suc.hyps(3) by linarith
  have d: "d = length ns - Suc j" using Suc.hyps(3) by linarith
  { case 1
    obtain w' where w': "read_slot api (ssid_key j) w = (Some (fst (ns ! j)), w')" "view w' = view w"
      using rd [OF 1(2) j] by blast
    show ?case using Suc.hyps(1) [OF d, of w'] 1 j w' by (simp add: u [OF j]) }
  { case 2
    obtain w' where w': "read_slot api (ssid_key j) w = (Some (fst (ns ! j)), w')" "view w' = view w"
      using rd [OF 2(4) j] by blast
    show ?case
    proof (cases "i = j")
      case True
      then show ?thesis using 2 j w' by (simp add: u [OF j] wifi_write_view [OF laws])
    next
      case False
      then have "fst (ns ! j) \<noteq> s" using 2 by auto
      then show ?thesis using Suc.hyps(2) [OF d, of w'] 2 j w' False
        by (simp add: u [OF j])
    qed }
qed

lemma set_password_at:
  "i < length ns \<Longrightarrow> fst (ns ! i) = s \<Longrightarrow> (\<forall>k < i. fst (ns ! k) \<noteq> s) \<Longrightarrow> set_password s p ns = ns[i := (s, p)]"
proof (induction ns arbitrary: i)
  case (Cons e ns)
  show ?case
  proof (cases i)
    case 0
    then show ?thesis using Cons.prems by (cases e) simp
  next
    case (Suc k)
    have "fst e \<noteq> s" using Cons.prems(3) Suc by force
    moreover have "\<forall>k' < k. fst (ns ! k') \<noteq> s" using Cons.prems(3) Suc by force
    ultimately show ?thesis using Cons.IH [of k] Cons.prems Suc by (cases e) simp
  qed
qed simp

text \<open>After the first slots are copied down, those below hold their successors.\<close>

definition shifted :: "nat \<Rightarrow> nat \<Rightarrow> nat" where "shifted k j = (if j + 1 < k then j + 1 else j)"

lemma evict_fold:
  assumes laws: "nvs_laws api view" "flash_works api" and "slots_hold (view w) ns" "length ns < 256"
  shows "1 \<le> k \<Longrightarrow> k \<le> length ns \<Longrightarrow>
    (let w' = fold (\<lambda>i w. copy_slot api (password_key i) (password_key (i - 1))
                          (copy_slot api (ssid_key i) (ssid_key (i - 1)) w)) [1 ..< k] w
     in (\<forall>j < length ns. slot_at (view w') j (ns ! shifted k j)) \<and> view w' (NS_WIFI, K_COUNT) = view w (NS_WIFI, K_COUNT))"
proof (induction k rule: nat_induct_at_least)
  case base
  then show ?case using assms(3) by (simp add: slots_hold_def shifted_def)
next
  case (Suc k)
  define w' where "w' = fold (\<lambda>i w. copy_slot api (password_key i) (password_key (i - 1))
                          (copy_slot api (ssid_key i) (ssid_key (i - 1)) w)) [1 ..< k] w"
  have ih: "\<And>j. j < length ns \<Longrightarrow> slot_at (view w') j (ns ! shifted k j)"
    and ct: "view w' (NS_WIFI, K_COUNT) = view w (NS_WIFI, K_COUNT)"
    using Suc by (simp_all add: w'_def Let_def)
  have k: "slot_at (view w') k (ns ! k)" using ih [of k] Suc.prems by (simp add: shifted_def)
  have small: "k < 256" "k - 1 < 256" using Suc.prems assms(4) by linarith+
  define w1 where "w1 = copy_slot api (ssid_key k) (ssid_key (k - 1)) w'"
  define w2 where "w2 = copy_slot api (password_key k) (password_key (k - 1)) w1"
  have v1: "view w1 = (view w')((NS_WIFI, ssid_key (k - 1)) \<mapsto> NStr (fst (ns ! k)))"
    unfolding w1_def by (rule copy_slot_view [OF laws]) (use k in \<open>simp_all add: slot_at_def\<close>)
  have v2: "view w2 = (view w1)((NS_WIFI, password_key (k - 1)) \<mapsto> NStr (snd (ns ! k)))"
    unfolding w2_def by (rule copy_slot_view [OF laws]) (use k small in \<open>simp_all add: slot_at_def v1 keys_distinct\<close>)
  have "slot_at (view w2) j (ns ! shifted (Suc k) j)" if "j < length ns" for j
  proof (cases "j = k - 1")
    case True
    then show ?thesis using k small Suc.hyps
      by (simp add: slot_at_def v2 v1 keys_distinct shifted_def)
  next
    case False
    moreover have "shifted (Suc k) j = shifted k j" using False Suc.hyps unfolding shifted_def by (cases "j < k") auto
    moreover have "j < 256" using that assms(4) by linarith
    ultimately show ?thesis using ih [OF that] small
      by (simp add: slot_at_def v2 v1 keys_distinct)
  qed
  moreover have "view w2 (NS_WIFI, K_COUNT) = view w (NS_WIFI, K_COUNT)"
    using small by (simp add: v2 v1 ct keys_distinct)
  moreover have "fold (\<lambda>i w. copy_slot api (password_key i) (password_key (i - 1))
                          (copy_slot api (ssid_key i) (ssid_key (i - 1)) w)) [1 ..< Suc k] w = w2"
    using Suc.hyps by (simp add: w2_def w1_def w'_def)
  ultimately show ?case by (simp only: Let_def) blast
qed


subsection \<open>The list is kept\<close>

lemma set_password_facts:
  "length (set_password s p ns) = length ns"
  "s \<in> fst ` set ns \<Longrightarrow> (s, p) \<in> set (set_password s p ns)"
  by (induction ns rule: set_password.induct) auto

lemma remember_facts:
  "length ns \<le> 5 \<Longrightarrow> length (remember s p ns) \<le> 5" "(s, p) \<in> set (remember s p ns)"
  by (auto simp: remember_def set_password_facts)

lemma first_match:
  assumes "s \<in> fst ` set ns"
  obtains i where "i < length ns" "fst (ns ! i) = s" "\<forall>k < i. fst (ns ! k) \<noteq> s"
proof -
  obtain i0 where "i0 < length ns \<and> fst (ns ! i0) = s" using assms by (metis imageE in_set_conv_nth)
  then have "\<exists>i. (i < length ns \<and> fst (ns ! i) = s) \<and> (\<forall>k < i. \<not> (k < length ns \<and> fst (ns ! k) = s))"
    by (rule exists_least_iff [THEN iffD1, OF exI])
  then show thesis using that by (metis order.strict_trans)
qed

lemma save_known:
  assumes laws: "nvs_laws api view" "flash_works api" and st: "networks_stored (view w) ns"
    and s: "s \<in> fst ` set ns" and "length p < 64"
  shows "networks_stored (view (saveCredentials api s p w)) (set_password s p ns)"
proof -
  obtain i where i: "i < length ns" "fst (ns ! i) = s" "\<forall>k < i. fst (ns ! k) \<noteq> s" using first_match [OF s] .
  have n: "length ns \<le> 5" "count_holds (view w) (length ns)" "slots_hold (view w) ns"
    using st by (simp_all add: networks_stored_def)
  define w1 where "w1 = snd (read_count api w)"
  have c: "read_count api w = (length ns, w1)" and v1: "view w1 = view w"
    using read_count_value [OF laws n(2)] n(1) by (simp_all add: w1_def prod_eq_iff)
  obtain w2 where w2: "update_existing api s p [0 ..< length ns] w1 = (True, w2)"
      "view w2 = (view w)((NS_WIFI, password_key i) \<mapsto> NStr p)"
    using update_existing_scan(2) [OF laws, of w1 ns 0 i s p] i n v1 by auto
  have r: "saveCredentials api s p w = w2" by (simp add: saveCredentials_def c w2)
  have "slot_at (view w2) j (ns[i := (s, p)] ! j)" if "j < length ns" for j
  proof -
    have "slot_at (view w) j (ns ! j)" using n(3) that by (simp add: slots_hold_def)
    moreover have "i < 256" "j < 256" using i that n(1) by linarith+
    ultimately show ?thesis using i \<open>length p < 64\<close>
      by (cases "j = i") (auto simp: slot_at_def w2 keys_distinct)
  qed
  moreover have "count_holds (view w2) (length ns)"
    using n i keys_distinct(8) [of i i] by (auto simp: count_holds_def w2)
  ultimately show ?thesis
    using n by (simp add: r networks_stored_def set_password_at [OF i] slots_hold_def)
qed

lemma save_new:
  assumes laws: "nvs_laws api view" "flash_works api" and st: "networks_stored (view w) ns"
    and s: "s \<notin> fst ` set ns" and len: "length s < 64" "length p < 64"
  shows "networks_stored (view (saveCredentials api s p w)) (remember s p ns)"
proof -
  have n: "length ns \<le> 5" "count_holds (view w) (length ns)" "slots_hold (view w) ns"
    using st by (simp_all add: networks_stored_def)
  define w1 where "w1 = snd (read_count api w)"
  have c: "read_count api w = (length ns, w1)" and v1: "view w1 = view w"
    using read_count_value [OF laws n(2)] n(1) by (simp_all add: w1_def prod_eq_iff)
  have "\<forall>i \<in> {0 ..< length ns}. fst (ns ! i) \<noteq> s" using s nth_mem by fastforce
  then obtain w2 where w2: "update_existing api s p [0 ..< length ns] w1 = (False, w2)" "view w2 = view w"
    using update_existing_scan(1) [OF laws, of w1 ns 0 s p] n v1 by auto
  have n2: "count_holds (view w2) (length ns)" "slots_hold (view w2) ns" using n w2 by simp_all
  show ?thesis
  proof (cases "length ns < 5")
    case True
    define w3 where "w3 = snd (wifiWriteCount api (of_nat (length ns + 1)) (write_network api (length ns) s p w2))"
    have r: "saveCredentials api s p w = w3"
      using True by (simp add: saveCredentials_def c w2 w3_def WIFI_MAX_NETWORKS_def)
    have v3: "view w3 = (view w2)((NS_WIFI, ssid_key (length ns)) \<mapsto> NStr s,
        (NS_WIFI, password_key (length ns)) \<mapsto> NStr p, (NS_WIFI, K_COUNT) \<mapsto> NU8 (of_nat (length ns + 1)))"
      by (simp add: w3_def wifi_write_view [OF laws] write_network_view [OF laws])
    have "slot_at (view w3) j ((ns @ [(s, p)]) ! j)" if "j < length ns + 1" for j
    proof (cases "j = length ns")
      case True
      moreover have "length ns < 256" using n(1) by linarith
      ultimately show ?thesis using len by (simp add: slot_at_def v3 keys_distinct)
    next
      case False
      then have "slot_at (view w2) j (ns ! j)" "j < length ns" using n2 that by (simp_all add: slots_hold_def)
      moreover from this have "j < 256" "length ns < 256" using n(1) by linarith+
      ultimately show ?thesis by (simp add: slot_at_def v3 keys_distinct nth_append)
    qed
    then show ?thesis using True s
      by (simp add: r networks_stored_def remember_def slots_hold_def count_holds_def v3)
  next
    case False
    then have five: "length ns = 5" using n(1) by simp
    define w3 where "w3 = evict_oldest api w2"
    define w4 where "w4 = write_network api 4 s p w3"
    have r: "saveCredentials api s p w = w4"
      using False by (simp add: saveCredentials_def c w2 w4_def w3_def WIFI_MAX_NETWORKS_def)
    have ev: "\<And>j. j < 5 \<Longrightarrow> slot_at (view w3) j (ns ! shifted 5 j)"
      and ct: "view w3 (NS_WIFI, K_COUNT) = view w2 (NS_WIFI, K_COUNT)"
      using evict_fold [OF laws n2(2), of 5] five
      by (simp_all add: w3_def evict_oldest_def WIFI_MAX_NETWORKS_def Let_def del: upt_rec_numeral)
    have v4: "view w4 = (view w3)((NS_WIFI, ssid_key 4) \<mapsto> NStr s, (NS_WIFI, password_key 4) \<mapsto> NStr p)"
      by (simp add: w4_def write_network_view [OF laws])
    have "slot_at (view w4) j ((tl ns @ [(s, p)]) ! j)" if "j < 5" for j
    proof (cases "j = 4")
      case True
      then show ?thesis using len five by (simp add: slot_at_def v4 keys_distinct nth_append)
    next
      case False
      then have "slot_at (view w3) j (ns ! Suc j)" "j < 4"
        using ev [OF that] that by (simp_all add: shifted_def Suc_eq_plus1)
      then show ?thesis using five by (simp add: slot_at_def v4 keys_distinct nth_append nth_tl)
    qed
    then show ?thesis using False s five n2(1) keys_distinct(6,8) [of 4 4]
      by (simp add: r networks_stored_def remember_def slots_hold_def count_holds_def v4 ct keys_distinct)
  qed
qed

text \<open>C15.  On a flash whose calls succeed, saving a network whose name and password are shorter than
  64 characters implements the bounded list of networks: a known name gets the new password in
  place, a new one is appended, and the sixth pushes out the oldest; never are more than five
  kept and the saved one is among them.\<close>

theorem saved_networks_refine_list:
  assumes "nvs_laws api view" "flash_works api" "networks_stored (view w) ns" "length s < 64" "length p < 64"
  shows "networks_stored (view (saveCredentials api s p w)) (remember s p ns)
    \<and> length (remember s p ns) \<le> 5 \<and> (s, p) \<in> set (remember s p ns)"
proof -
  have "length ns \<le> 5" using assms(3) by (simp add: networks_stored_def)
  moreover have "networks_stored (view (saveCredentials api s p w)) (remember s p ns)"
    using save_known [OF assms(1-3) _ assms(5)] save_new [OF assms(1-3) _ assms(4,5)]
    by (cases "s \<in> fst ` set ns") (auto simp: remember_def)
  ultimately show ?thesis using remember_facts by blast
qed

theorem saved_networks_refine_list_witness:
  "networks_stored (saveCredentials ref_nvs ''lab'' ''secret'' (\<lambda>_. None)) [(''lab'', ''secret'')]"
  using saved_networks_refine_list [OF ref_nvs_laws, of "\<lambda>_. None" "[]" "''lab''" "''secret''"]
  by (simp add: flash_works_def ref_nvs_def networks_stored_def count_holds_def slots_hold_def remember_def)

end
