(* ===== verification/Wifi.thy ===== *)
theory Wifi
  imports Wifi_Credentials Dns Ble
begin

text \<open>
  The WiFi manager (\<^verbatim>\<open>WifiManager\<close> of \<^verbatim>\<open>infrastructure/network/src/wifi.cpp\<close>): the start of
  the driver, the attempt to join a saved network, the access point with its captive portal, and
  the events of the driver.  The driver is the parameter \<open>wifi_env\<close>: what every call answers,
  and which events occur while the manager waits.  Events that occur between two calls of the
  manager are among those of the next wait.
\<close>

declare One_nat_def [simp del]

subsection \<open>The driver\<close>

datatype esp_err = ESP_OK | ESP_ERR_INVALID_STATE | ESP_ERR_NO_MEM | ESP_FAIL

datatype wifi_mode = WIFI_MODE_NULL | WIFI_MODE_STA | WIFI_MODE_AP | WIFI_MODE_APSTA

record sta_config =
  sta_ssid :: string
  sta_password :: string

record ap_config =
  ap_ssid :: string
  ap_ssid_len :: u8
  ap_channel :: u8
  ap_max_connection :: u8
  ap_password :: string

text \<open>The calls; one that creates an object answers \<open>ESP_OK\<close> when it is not null.\<close>

datatype wifi_call =
    Netif_Init | Event_Loop_Create | New_Ap_Netif | New_Sta_Netif | Wifi_Init | Set_Storage_Ram
  | Set_Mode wifi_mode | Register_Wifi_Events | Register_Ip_Events
  | Dhcps_Stop | Set_Ip_Info u32 u32 u32 | Dhcps_Option_Dns u8 | Set_Dns_Info u32
  | Dhcps_Option_Captive string | Dhcps_Start
  | Set_Ap_Config ap_config | Set_Sta_Config sta_config | Wifi_Start | Wifi_Stop | Wifi_Deinit
  | Wifi_Connect | Wifi_Disconnect | New_Event_Group | Destroy_Ap_Netif | Destroy_Sta_Netif
  | Mdns_Init | Mdns_Hostname string | Mdns_Service string string string nat | Mdns_Free
  | Close_Socket int | Send_To int "byte list"

datatype wifi_event =
    STA_START | STA_CONNECTED | STA_DISCONNECTED | AP_STACONNECTED | AP_STADISCONNECTED
  | STA_GOT_IP | OTHER_EVENT

record ('d, 'w) wifi_env =
  we_call :: "wifi_call \<Rightarrow> 'd \<Rightarrow> esp_err \<times> 'd"
  we_wait :: "nat \<Rightarrow> 'd \<Rightarrow> wifi_event list \<times> 'd"
  we_mode :: "'d \<Rightarrow> wifi_mode"
  we_mac :: "u8 list"
  we_recv :: "int \<Rightarrow> 'd \<Rightarrow> byte list \<times> 'd"
  we_nvs :: "'w nvs_api"

record ('d, 'w) wifi =
  wf_initialized :: bool
  wf_apActive :: bool
  wf_staConnected :: bool
  wf_staConnecting :: bool
  wf_apNetif :: bool
  wf_staNetif :: bool
  wf_dnsSocket :: int
  wf_group :: "(bool \<times> bool) option"
  wf_mdns :: bool
  wf_apSsid :: string
  wf_staSsid :: string
  wf_flash :: 'w
  wf_driver :: 'd

definition AP_IP :: u32 where "AP_IP = 0x0104A8C0"
definition AP_SSID :: string where "AP_SSID = ''EcoTiter-AP''"
definition AP_PASSWORD :: string where "AP_PASSWORD = ''12345678''"

definition wifi_new :: "'w \<Rightarrow> 'd \<Rightarrow> ('d, 'w) wifi" where
  "wifi_new flash drv =
     \<lparr>wf_initialized = False, wf_apActive = False, wf_staConnected = False, wf_staConnecting = False,
      wf_apNetif = False, wf_staNetif = False, wf_dnsSocket = - 1, wf_group = None, wf_mdns = False,
      wf_apSsid = fst (snprintf 32 AP_SSID), wf_staSsid = [], wf_flash = flash, wf_driver = drv\<rparr>"

definition wcall :: "('d, 'w) wifi_env \<Rightarrow> wifi_call \<Rightarrow> ('d, 'w) wifi \<Rightarrow> esp_err \<times> ('d, 'w) wifi" where
  "wcall env c m = (let (e, d) = we_call env c (wf_driver m) in (e, m\<lparr>wf_driver := d\<rparr>))"

text \<open>Calls whose outcome is ignored, and calls of which the first failure ends the sequence.\<close>

definition wdo :: "('d, 'w) wifi_env \<Rightarrow> wifi_call \<Rightarrow> ('d, 'w) wifi \<Rightarrow> ('d, 'w) wifi" where
  "wdo env c m = snd (wcall env c m)"

fun all_calls :: "('d, 'w) wifi_env \<Rightarrow> wifi_call list \<Rightarrow> ('d, 'w) wifi \<Rightarrow> bool \<times> ('d, 'w) wifi" where
  "all_calls env [] m = (True, m)"
| "all_calls env (c # cs) m =
     (let (e, m1) = wcall env c m in if e \<noteq> ESP_OK then (False, m1) else all_calls env cs m1)"

subsection \<open>Start of the driver\<close>

definition wifi_init :: "('d, 'w) wifi_env \<Rightarrow> ('d, 'w) wifi \<Rightarrow> (AppError + unit) \<times> ('d, 'w) wifi" where
  "wifi_init env m =
     (if wf_initialized m then (Inr (), m)
      else
        let (e, m1) = wcall env Event_Loop_Create (wdo env Netif_Init m)
        in if e \<noteq> ESP_OK \<and> e \<noteq> ESP_ERR_INVALID_STATE then (Inl AppError.Resource, m1)
           else
             let (ap, m2) = wcall env New_Ap_Netif m1;
                 m3 = m2\<lparr>wf_apNetif := (ap = ESP_OK)\<rparr>
             in if ap \<noteq> ESP_OK then (Inl AppError.Resource, m3)
                else
                  let (sta, m4) = wcall env New_Sta_Netif m3;
                      m5 = m4\<lparr>wf_staNetif := (sta = ESP_OK)\<rparr>
                  in if sta \<noteq> ESP_OK then (Inl AppError.Resource, m5)
                     else
                       let (ok, m6) = all_calls env [Wifi_Init, Set_Storage_Ram, Set_Mode WIFI_MODE_APSTA,
                                         Register_Wifi_Events, Register_Ip_Events] m5
                       in if \<not> ok then (Inl AppError.Resource, m6)
                          else (Inr (), m6\<lparr>wf_initialized := True\<rparr>))"

subsection \<open>Events\<close>

definition set_connected_bit :: "('d, 'w) wifi \<Rightarrow> ('d, 'w) wifi" where
  "set_connected_bit m = m\<lparr>wf_group := map_option (\<lambda>(c, d). (True, d)) (wf_group m)\<rparr>"

definition set_disconnected_bit :: "('d, 'w) wifi \<Rightarrow> ('d, 'w) wifi" where
  "set_disconnected_bit m = m\<lparr>wf_group := map_option (\<lambda>(c, d). (c, True)) (wf_group m)\<rparr>"

definition clear_bits :: "('d, 'w) wifi \<Rightarrow> ('d, 'w) wifi" where
  "clear_bits m = m\<lparr>wf_group := map_option (\<lambda>_. (False, False)) (wf_group m)\<rparr>"

definition startMdns :: "('d, 'w) wifi_env \<Rightarrow> ('d, 'w) wifi \<Rightarrow> ('d, 'w) wifi" where
  "startMdns env m =
     (if wf_mdns m then m
      else
        let (e, m1) = wcall env Mdns_Init m
        in if e \<noteq> ESP_OK then m1
           else
             let (e2, m2) = wcall env (Mdns_Hostname ''ecotiter'') m1
             in if e2 \<noteq> ESP_OK then wdo env Mdns_Free m2
                else
                  let (e3, m3) = wcall env (Mdns_Service ''EcoTiter Burette Controller'' ''_http'' ''_tcp'' 80) m2
                  in if e3 \<noteq> ESP_OK then wdo env Mdns_Free m3 else m3\<lparr>wf_mdns := True\<rparr>)"

definition stopDnsServer :: "('d, 'w) wifi_env \<Rightarrow> ('d, 'w) wifi \<Rightarrow> ('d, 'w) wifi" where
  "stopDnsServer env m =
     (if wf_dnsSocket m \<ge> 0 then (wdo env (Close_Socket (wf_dnsSocket m)) m)\<lparr>wf_dnsSocket := - 1\<rparr> else m)"

definition onStaStart :: "('d, 'w) wifi_env \<Rightarrow> ('d, 'w) wifi \<Rightarrow> ('d, 'w) wifi" where
  "onStaStart env m = (if wf_staConnecting m then wdo env Wifi_Connect m else m)"

definition onStaConnected :: "('d, 'w) wifi \<Rightarrow> ('d, 'w) wifi" where
  "onStaConnected m = set_connected_bit m"

definition onStaDisconnected :: "('d, 'w) wifi \<Rightarrow> ('d, 'w) wifi" where
  "onStaDisconnected m = set_disconnected_bit (m\<lparr>wf_staConnected := False, wf_staConnecting := False\<rparr>)"

definition handleIpEvent :: "('d, 'w) wifi_env \<Rightarrow> ('d, 'w) wifi \<Rightarrow> ('d, 'w) wifi" where
  "handleIpEvent env m =
     (let m1 = startMdns env (m\<lparr>wf_staConnected := True, wf_staConnecting := False\<rparr>)
      in if wf_apActive m1
         then (wdo env (Set_Mode WIFI_MODE_STA) (stopDnsServer env m1))\<lparr>wf_apActive := False\<rparr>
         else m1)"

fun handleEvent :: "('d, 'w) wifi_env \<Rightarrow> wifi_event \<Rightarrow> ('d, 'w) wifi \<Rightarrow> ('d, 'w) wifi" where
  "handleEvent env STA_START m = onStaStart env m"
| "handleEvent env STA_CONNECTED m = onStaConnected m"
| "handleEvent env STA_DISCONNECTED m = onStaDisconnected m"
| "handleEvent env AP_STACONNECTED m = m"
| "handleEvent env AP_STADISCONNECTED m = m"
| "handleEvent env STA_GOT_IP m = handleIpEvent env m"
| "handleEvent env OTHER_EVENT m = m"

text \<open>The wait for a bit: it ends with the first event that sets one, or with the timeout, and
  clears both; the events after it find them cleared.\<close>

fun until_bits :: "('d, 'w) wifi_env \<Rightarrow> wifi_event list \<Rightarrow> ('d, 'w) wifi \<Rightarrow> (bool \<times> bool) \<times> ('d, 'w) wifi" where
  "until_bits env [] m =
     (case wf_group m of Some b \<Rightarrow> (b, clear_bits m) | None \<Rightarrow> ((False, False), m))"
| "until_bits env (e # es) m =
     (case wf_group m of
        Some (c, d) \<Rightarrow>
          if c \<or> d then ((c, d), fold (handleEvent env) (e # es) (clear_bits m))
          else until_bits env es (handleEvent env e m)
      | None \<Rightarrow> ((False, False), m))"

definition waitBits :: "('d, 'w) wifi_env \<Rightarrow> nat \<Rightarrow> ('d, 'w) wifi \<Rightarrow> (bool \<times> bool) \<times> ('d, 'w) wifi" where
  "waitBits env ms m =
     (let (es, d) = we_wait env ms (wf_driver m) in until_bits env es (m\<lparr>wf_driver := d\<rparr>))"

definition waitForStaConnection :: "('d, 'w) wifi_env \<Rightarrow> nat \<Rightarrow> ('d, 'w) wifi \<Rightarrow> bool \<times> ('d, 'w) wifi" where
  "waitForStaConnection env ms m = (let (bits, m1) = waitBits env ms m in (fst bits, m1))"

subsection \<open>The station\<close>

definition applyStaConfig :: "('d, 'w) wifi_env \<Rightarrow> string \<Rightarrow> string \<Rightarrow> ('d, 'w) wifi \<Rightarrow> esp_err \<times> ('d, 'w) wifi" where
  "applyStaConfig env ssid password =
     wcall env (Set_Sta_Config \<lparr>sta_ssid = strncpy_z 32 ssid, sta_password = strncpy_z 64 password\<rparr>)"

definition read_saved :: "('d, 'w) wifi_env \<Rightarrow> string \<Rightarrow> ('d, 'w) wifi \<Rightarrow> string option \<times> ('d, 'w) wifi" where
  "read_saved env key m =
     (let (r, w) = read_slot (we_nvs env) key (wf_flash m) in (r, m\<lparr>wf_flash := w\<rparr>))"

definition tryConnectSlot :: "('d, 'w) wifi_env \<Rightarrow> nat \<Rightarrow> ('d, 'w) wifi \<Rightarrow> bool \<times> ('d, 'w) wifi" where
  "tryConnectSlot env slot m =
     (let (ssid, m1) = read_saved env (ssid_key slot) m
      in case ssid of None \<Rightarrow> (False, m1) | Some s \<Rightarrow>
         let (password, m2) = read_saved env (password_key slot) m1
         in case password of None \<Rightarrow> (False, m2) | Some p \<Rightarrow>
            let (e, m3) = applyStaConfig env s p (clear_bits m2)
            in if e \<noteq> ESP_OK then (False, m3)
               else
                 let (e2, m4) = wcall env Wifi_Connect (m3\<lparr>wf_staConnecting := True\<rparr>)
                 in if e2 \<noteq> ESP_OK then (False, m4\<lparr>wf_staConnecting := False\<rparr>)
                    else
                      let (ok, m5) = waitForStaConnection env 6000 m4
                      in if ok then (True, m5\<lparr>wf_staSsid := take 31 s\<rparr>)
                         else (False, wdo env Wifi_Disconnect (m5\<lparr>wf_staConnecting := False\<rparr>)))"

definition ensureStaEventGroup :: "('d, 'w) wifi_env \<Rightarrow> ('d, 'w) wifi \<Rightarrow> esp_err \<times> ('d, 'w) wifi" where
  "ensureStaEventGroup env m =
     (if wf_group m = None
      then let (e, m1) = wcall env New_Event_Group m
           in if e \<noteq> ESP_OK then (ESP_ERR_NO_MEM, m1) else (ESP_OK, m1\<lparr>wf_group := Some (False, False)\<rparr>)
      else (ESP_OK, clear_bits m))"

definition startWiFiInStaModeIfNeeded :: "('d, 'w) wifi_env \<Rightarrow> ('d, 'w) wifi \<Rightarrow> bool \<times> ('d, 'w) wifi" where
  "startWiFiInStaModeIfNeeded env m =
     (if we_mode env (wf_driver m) = WIFI_MODE_NULL \<or> we_mode env (wf_driver m) = WIFI_MODE_APSTA
      then let (e, m1) = wcall env Wifi_Start (wdo env (Set_Mode WIFI_MODE_STA) m)
           in (e = ESP_OK, m1)
      else (False, m))"

definition stopWiFiAndRestoreAPSTA :: "('d, 'w) wifi_env \<Rightarrow> ('d, 'w) wifi \<Rightarrow> ('d, 'w) wifi" where
  "stopWiFiAndRestoreAPSTA env m = wdo env (Set_Mode WIFI_MODE_APSTA) (wdo env Wifi_Stop m)"

text \<open>The log of the saved names reads the slots below the count and below the maximum.\<close>

definition logSavedNetworks :: "('d, 'w) wifi_env \<Rightarrow> nat \<Rightarrow> ('d, 'w) wifi \<Rightarrow> ('d, 'w) wifi" where
  "logSavedNetworks env count =
     fold (\<lambda>s m. snd (read_saved env (ssid_key s) m)) [0 ..< min count WIFI_MAX_NETWORKS]"

fun try_slots :: "('d, 'w) wifi_env \<Rightarrow> nat list \<Rightarrow> ('d, 'w) wifi \<Rightarrow> bool \<times> ('d, 'w) wifi" where
  "try_slots env [] m = (False, m)"
| "try_slots env (s # ss) m =
     (let (ok, m1) = tryConnectSlot env s m in if ok then (True, m1) else try_slots env ss m1)"

definition tryStartSTA :: "('d, 'w) wifi_env \<Rightarrow> ('d, 'w) wifi \<Rightarrow> bool \<times> ('d, 'w) wifi" where
  "tryStartSTA env m =
     (if \<not> wf_initialized m \<or> wf_staConnecting m then (False, m)
      else
        let (count, w) = read_count (we_nvs env) (wf_flash m);
            m1 = m\<lparr>wf_flash := w\<rparr>
        in if count = 0 then (False, m1)
           else
             let (e, m2) = ensureStaEventGroup env (logSavedNetworks env count m1)
             in if e \<noteq> ESP_OK then (False, m2)
                else
                  let (startedHere, m3) = startWiFiInStaModeIfNeeded env m2
                  in if \<not> wf_staNetif m3 then (False, m3)
                     else
                       let (ok, m4) = try_slots env [0 ..< count] m3
                       in if ok then (True, m4)
                          else (False, if startedHere then stopWiFiAndRestoreAPSTA env m4 else m4))"

definition doStaConnectAndSave :: "('d, 'w) wifi_env \<Rightarrow> nat \<Rightarrow> ('d, 'w) wifi \<Rightarrow> bool \<times> ('d, 'w) wifi" where
  "doStaConnectAndSave env ms m =
     (let (e, m1) = wcall env Wifi_Connect (m\<lparr>wf_staConnecting := True\<rparr>)
      in if e \<noteq> ESP_OK then (False, m1\<lparr>wf_staConnecting := False\<rparr>)
         else
           let (ok, m2) = waitForStaConnection env ms m1
           in if \<not> ok then (False, wdo env Wifi_Disconnect (m2\<lparr>wf_staConnecting := False\<rparr>)) else (True, m2))"

definition doStaConnectAndWait :: "('d, 'w) wifi_env \<Rightarrow> string \<Rightarrow> string \<Rightarrow> nat \<Rightarrow> ('d, 'w) wifi \<Rightarrow> bool \<times> ('d, 'w) wifi" where
  "doStaConnectAndWait env ssid password ms m =
     (let (e, m1) = applyStaConfig env ssid password m
      in if e \<noteq> ESP_OK then (False, m1)
         else
           let (ok, m2) = doStaConnectAndSave env ms m1
           in if \<not> ok then (False, m2)
              else (True, m2\<lparr>wf_staSsid := strncpy_z 32 ssid,
                              wf_flash := saveCredentials (we_nvs env) ssid password (wf_flash m2)\<rparr>))"

definition connectSTA :: "('d, 'w) wifi_env \<Rightarrow> string \<Rightarrow> string \<Rightarrow> nat \<Rightarrow> ('d, 'w) wifi \<Rightarrow> bool \<times> ('d, 'w) wifi" where
  "connectSTA env ssid password ms m =
     (if \<not> wf_initialized m then (False, m)
      else
        let (e, m1) = ensureStaEventGroup env m
        in if e \<noteq> ESP_OK then (False, m1)
           else if wf_staConnected m1 \<and> wf_staSsid m1 = ssid then (True, m1)
           else doStaConnectAndWait env ssid password ms m1)"

text \<open>Without an event group the wait is on a null handle: \<^term>\<open>None\<close>.\<close>

definition waitForSTA :: "('d, 'w) wifi_env \<Rightarrow> nat \<Rightarrow> ('d, 'w) wifi \<Rightarrow> (bool \<times> ('d, 'w) wifi) option" where
  "waitForSTA env ms m =
     (if \<not> wf_initialized m \<or> \<not> wf_staConnecting m then Some (wf_staConnected m, m)
      else if wf_group m = None then None
      else
        let (bits, m1) = waitBits env ms (clear_bits m)
        in if fst bits then Some (True, m1)
           else Some (False, wdo env Wifi_Disconnect (m1\<lparr>wf_staConnecting := False\<rparr>)))"

subsection \<open>The access point\<close>

definition configureDhcp :: "('d, 'w) wifi_env \<Rightarrow> ('d, 'w) wifi \<Rightarrow> ('d, 'w) wifi" where
  "configureDhcp env =
     fold (wdo env) [Dhcps_Stop, Set_Ip_Info AP_IP 0x00FFFFFF AP_IP, Dhcps_Option_Dns 1, Set_Dns_Info AP_IP,
       Dhcps_Option_Captive ''http://192.168.4.1/wifi'', Dhcps_Start]"

definition buildApConfig :: "u8 list \<Rightarrow> ('d, 'w) wifi \<Rightarrow> ap_config \<times> ('d, 'w) wifi" where
  "buildApConfig mac m =
     (let ssid = fst (snprintf 32 (''EcoTiter-'' @ hex_byte (mac ! 4) @ hex_byte (mac ! 3)));
          m1 = m\<lparr>wf_apSsid := strncpy_z 32 ssid\<rparr>
      in (\<lparr>ap_ssid = strncpy_z 32 (wf_apSsid m1), ap_ssid_len = of_nat (length (wf_apSsid m1)), ap_channel = 1,
           ap_max_connection = 4, ap_password = strncpy_z 64 AP_PASSWORD\<rparr>, m1))"

definition applyApConfig :: "('d, 'w) wifi_env \<Rightarrow> ap_config \<Rightarrow> ('d, 'w) wifi \<Rightarrow> bool \<times> ('d, 'w) wifi" where
  "applyApConfig env cfg = all_calls env [Set_Mode WIFI_MODE_APSTA, Set_Ap_Config cfg, Wifi_Start]"

definition startAP :: "('d, 'w) wifi_env \<Rightarrow> ('d, 'w) wifi \<Rightarrow> ('d, 'w) wifi" where
  "startAP env m =
     (if \<not> wf_initialized m \<or> wf_apActive m then m
      else if \<not> wf_apNetif m then m
      else
        let (cfg, m1) = buildApConfig (we_mac env) (configureDhcp env m);
            (ok, m2) = applyApConfig env cfg m1
        in if \<not> ok then m2 else m2\<lparr>wf_apActive := True\<rparr>)"

definition wifi_stop :: "('d, 'w) wifi_env \<Rightarrow> ('d, 'w) wifi \<Rightarrow> ('d, 'w) wifi" where
  "wifi_stop env m =
     (if \<not> wf_initialized m then m
      else
        let m1 = stopDnsServer env m;
            m2 = (if wf_staConnecting m1 \<or> wf_staConnected m1 then wdo env Wifi_Disconnect m1 else m1);
            m3 = wdo env Wifi_Deinit (wdo env Wifi_Stop
                    (m2\<lparr>wf_staConnecting := False, wf_staConnected := False, wf_apActive := False\<rparr>));
            m4 = (if wf_apNetif m3 then (wdo env Destroy_Ap_Netif m3)\<lparr>wf_apNetif := False\<rparr> else m3);
            m5 = (if wf_staNetif m4 then (wdo env Destroy_Sta_Netif m4)\<lparr>wf_staNetif := False\<rparr> else m4)
        in m5\<lparr>wf_initialized := False\<rparr>)"

text \<open>\<open>info\<close> is the interface's address, if the library knows it.\<close>

definition wifi_isConnected :: "('d, 'w) wifi \<Rightarrow> bool" where
  "wifi_isConnected m \<longleftrightarrow> wf_staConnected m"

definition wifi_isApActive :: "('d, 'w) wifi \<Rightarrow> bool" where
  "wifi_isApActive m \<longleftrightarrow> wf_apActive m"

definition getAPIP :: "u32 option \<Rightarrow> ('d, 'w) wifi \<Rightarrow> u32 option" where
  "getAPIP info m = (if \<not> wf_apNetif m then None else info)"

definition getSTAIP :: "u32 option \<Rightarrow> ('d, 'w) wifi \<Rightarrow> u32 option" where
  "getSTAIP info m = (if \<not> wf_staNetif m then None else info)"

text \<open>One poll of the captive portal's name server.\<close>

definition wifi_process :: "('d, 'w) wifi_env \<Rightarrow> ('d, 'w) wifi \<Rightarrow> ('d, 'w) wifi" where
  "wifi_process env m =
     (if \<not> wf_initialized m \<or> wf_dnsSocket m < 0 then m
      else
        let (query, d) = we_recv env (wf_dnsSocket m) (wf_driver m);
            m1 = m\<lparr>wf_driver := d\<rparr>
        in if query = [] then m1
           else case tryBuildDnsResponse query AP_IP of
                  Inl _ \<Rightarrow> m1
                | Inr r \<Rightarrow> wdo env (Send_To (wf_dnsSocket m1) r) m1)"


subsection \<open>What calls and events leave alone\<close>

text \<open>Calls and events change neither the flash, nor the interfaces, nor the names, and do not
  open the socket of the name server or remove the event group.\<close>

definition framed :: "('d, 'w) wifi \<Rightarrow> ('d, 'w) wifi \<Rightarrow> bool" where
  "framed m m' \<longleftrightarrow>
     wf_initialized m' = wf_initialized m \<and> wf_apNetif m' = wf_apNetif m \<and> wf_staNetif m' = wf_staNetif m
     \<and> wf_flash m' = wf_flash m \<and> wf_apSsid m' = wf_apSsid m \<and> wf_staSsid m' = wf_staSsid m
     \<and> (wf_group m' = None \<longleftrightarrow> wf_group m = None) \<and> (wf_dnsSocket m < 0 \<longrightarrow> wf_dnsSocket m' = wf_dnsSocket m)
     \<and> (wf_staConnecting m' \<longrightarrow> wf_staConnecting m) \<and> (wf_apActive m' \<longrightarrow> wf_apActive m)"

named_theorems framing

lemma framed_refl [simp, framing]: "framed m m" by (simp add: framed_def)

lemma framed_trans [trans]: "framed m m1 \<Longrightarrow> framed m1 m2 \<Longrightarrow> framed m m2"
  unfolding framed_def by (elim conjE, intro conjI) (blast | metis | simp)+

lemma wcall_eq: "wcall env c m = (fst (we_call env c (wf_driver m)), m\<lparr>wf_driver := snd (we_call env c (wf_driver m))\<rparr>)"
  by (simp add: wcall_def case_prod_beta)

lemma wdo_eq: "wdo env c m = m\<lparr>wf_driver := snd (we_call env c (wf_driver m))\<rparr>"
  by (simp add: wdo_def wcall_eq)

lemma framed_updates [framing]:
  "framed m (m\<lparr>wf_driver := d\<rparr>)" "framed m (m\<lparr>wf_mdns := b\<rparr>)" "framed m (m\<lparr>wf_apActive := False\<rparr>)"
  "framed m (m\<lparr>wf_staConnected := b, wf_staConnecting := False\<rparr>)" "framed m (m\<lparr>wf_staConnecting := False\<rparr>)"
  "framed m (set_connected_bit m)" "framed m (set_disconnected_bit m)" "framed m (clear_bits m)"
  by (simp_all add: framed_def set_connected_bit_def set_disconnected_bit_def clear_bits_def)

lemma framed_wdo [framing]: "framed m (wdo env c m)" by (simp add: wdo_eq framed_updates)

lemma framed_wcall [framing]: "framed m (snd (wcall env c m))" by (simp add: wcall_eq framed_updates)

lemma framed_step: "framed m m1 \<Longrightarrow> framed m (wdo env c m1)" "framed m m1 \<Longrightarrow> framed m (m1\<lparr>wf_apActive := False\<rparr>)"
  "framed m m1 \<Longrightarrow> framed m (m1\<lparr>wf_mdns := b\<rparr>)" "framed m m1 \<Longrightarrow> framed m (m1\<lparr>wf_driver := d\<rparr>)"
  by (rule framed_trans, assumption, rule framing)+

lemma framed_startMdns [framing]: "framed m (startMdns env m)"
  by (auto simp: startMdns_def wcall_eq Let_def framed_updates intro!: framed_step)

lemma framed_stopDns [framing]: "framed m (stopDnsServer env m)"
  by (simp add: stopDnsServer_def wdo_eq framed_def)

lemma framed_event [framing]: "framed m (handleEvent env e m)"
proof (cases e)
  case STA_GOT_IP
  define m1 where "m1 = startMdns env (m\<lparr>wf_staConnected := True, wf_staConnecting := False\<rparr>)"
  have f: "framed m m1"
    unfolding m1_def by (rule framed_trans [OF framed_updates(4) framed_startMdns])
  show ?thesis
    by (auto simp: STA_GOT_IP handleIpEvent_def m1_def [symmetric] Let_def intro!: f framed_step
        framed_trans [OF f framed_stopDns])
next
  case STA_DISCONNECTED
  then show ?thesis
    by (simp add: onStaDisconnected_def) (rule framed_trans [OF framed_updates(4) framed_updates(7)])
qed (auto simp: onStaStart_def onStaConnected_def intro: framing)

lemma framed_events [framing]: "framed m (fold (handleEvent env) es m)"
  by (induction es arbitrary: m) (auto intro: framed_trans framed_event)

lemma framed_until_bits [framing]: "framed m (snd (until_bits env es m))"
proof (induction env es m rule: until_bits.induct)
  case (1 env m)
  then show ?case by (auto intro: framing split: option.splits)
next
  case (2 env e es m)
  show ?case
  proof (cases "wf_group m")
    case (Some b)
    obtain c d where b: "b = (c, d)" by force
    show ?thesis
    proof (cases "c \<or> d")
      case True
      then have "snd (until_bits env (e # es) m) = fold (handleEvent env) (e # es) (clear_bits m)"
        by (auto simp: Some b)
      moreover have "framed m (fold (handleEvent env) (e # es) (clear_bits m))"
        by (rule framed_trans [OF framed_updates(8) framed_events])
      ultimately show ?thesis by simp
    next
      case False
      then have "framed (handleEvent env e m) (snd (until_bits env es (handleEvent env e m)))"
        using 2 [OF Some] b by simp
      then show ?thesis using framed_trans [OF framed_event] False by (simp add: Some b)
    qed
  qed simp
qed

lemma framed_waitBits [framing]: "framed m (snd (waitBits env ms m))"
  unfolding waitBits_def by (auto simp: case_prod_beta intro: framed_trans [OF framed_updates(1) framed_until_bits])


subsection \<open>Joining a saved network\<close>

definition driver_works :: "('d, 'w) wifi_env \<Rightarrow> bool" where
  "driver_works env \<longleftrightarrow> (\<forall>c d. fst (we_call env c d) = ESP_OK)"

text \<open>What the search for a saved network keeps, for a view of the flash.\<close>

definition kept :: "('w \<Rightarrow> string \<times> string \<Rightarrow> nvs_val option) \<Rightarrow> ('d, 'w) wifi \<Rightarrow> ('d, 'w) wifi \<Rightarrow> bool" where
  "kept view m m' \<longleftrightarrow>
     wf_initialized m' = wf_initialized m \<and> wf_apNetif m' = wf_apNetif m \<and> wf_staNetif m' = wf_staNetif m
     \<and> view (wf_flash m') = view (wf_flash m) \<and> (wf_apActive m' \<longrightarrow> wf_apActive m)
     \<and> (wf_group m \<noteq> None \<longrightarrow> wf_group m' \<noteq> None) \<and> (wf_dnsSocket m < 0 \<longrightarrow> wf_dnsSocket m' = wf_dnsSocket m)"

lemma kept_refl [simp]: "kept view m m" by (simp add: kept_def)

lemma kept_trans [trans]: "kept view m m1 \<Longrightarrow> kept view m1 m2 \<Longrightarrow> kept view m m2"
  unfolding kept_def by (elim conjE, intro conjI) (blast | metis | simp)+

lemma framed_kept: "framed m m' \<Longrightarrow> kept view m m'"
  by (simp add: framed_def kept_def)

lemma kept_framed: "kept view m m1 \<Longrightarrow> framed m1 m2 \<Longrightarrow> kept view m m2"
  using kept_trans framed_kept by blast

lemma kept_updates:
  "kept view m (m\<lparr>wf_staConnecting := b\<rparr>)" "kept view m (m\<lparr>wf_staSsid := s\<rparr>)" "kept view m (m\<lparr>wf_driver := d\<rparr>)"
  by (simp_all add: kept_def)

lemma kept_step:
  "kept view m m1 \<Longrightarrow> kept view m (m1\<lparr>wf_staConnecting := b\<rparr>)" "kept view m m1 \<Longrightarrow> kept view m (m1\<lparr>wf_staSsid := s\<rparr>)"
  "kept view m m1 \<Longrightarrow> kept view m (m1\<lparr>wf_driver := d\<rparr>)"
  by (rule kept_trans, assumption, rule kept_updates)+

lemma read_saved_kept:
  assumes "nvs_laws (we_nvs env) view"
  shows "kept view m (snd (read_saved env key m))"
  using read_slot_view [OF assms, of key "wf_flash m"] by (simp add: read_saved_def case_prod_beta kept_def)

lemma read_saved_value:
  assumes "nvs_laws (we_nvs env) view" "flash_works (we_nvs env)" "slots_hold (view (wf_flash m)) ns" "i < length ns"
  shows "fst (read_saved env (ssid_key i) m) = Some (fst (ns ! i))"
    and "fst (read_saved env (password_key i) m) = Some (snd (ns ! i))"
  using assms(3,4) read_slot_value [OF assms(1,2)]
  by (simp_all add: read_saved_def case_prod_beta slots_hold_def slot_at_def)

lemma waitForStaConnection_framed: "framed m (snd (waitForStaConnection env ms m))"
  using framed_waitBits by (simp add: waitForStaConnection_def case_prod_beta)

lemma tryConnectSlot_outcome:
  assumes laws: "nvs_laws (we_nvs env) view" "flash_works (we_nvs env)"
    and slots: "slots_hold (view (wf_flash m)) ns" "i < length ns"
  shows "kept view m (snd (tryConnectSlot env i m))"
    and "fst (tryConnectSlot env i m) \<Longrightarrow> wf_staSsid (snd (tryConnectSlot env i m)) = take 31 (fst (ns ! i))"
proof -
  define m1 where "m1 = snd (read_saved env (ssid_key i) m)"
  define m2 where "m2 = snd (read_saved env (password_key i) m1)"
  have k1: "kept view m m1" unfolding m1_def by (rule read_saved_kept [OF laws(1)])
  have s1: "slots_hold (view (wf_flash m1)) ns" using slots k1 by (simp add: kept_def)
  have k2: "kept view m m2" unfolding m2_def by (rule kept_trans [OF k1 read_saved_kept [OF laws(1)]])
  have r1: "read_saved env (ssid_key i) m = (Some (fst (ns ! i)), m1)"
    using read_saved_value(1) [OF laws slots] by (simp add: m1_def prod_eq_iff)
  have r2: "read_saved env (password_key i) m1 = (Some (snd (ns ! i)), m2)"
    using read_saved_value(2) [OF laws s1 slots(2)] by (simp add: m2_def prod_eq_iff)
  define e3 where "e3 = fst (applyStaConfig env (fst (ns ! i)) (snd (ns ! i)) (clear_bits m2))"
  define m3 where "m3 = snd (applyStaConfig env (fst (ns ! i)) (snd (ns ! i)) (clear_bits m2))"
  have k3: "kept view m m3"
    unfolding m3_def applyStaConfig_def by (rule kept_framed [OF kept_framed [OF k2 framed_updates(8)] framed_wcall])
  define e4 where "e4 = fst (wcall env Wifi_Connect (m3\<lparr>wf_staConnecting := True\<rparr>))"
  define m4 where "m4 = snd (wcall env Wifi_Connect (m3\<lparr>wf_staConnecting := True\<rparr>))"
  have k4: "kept view m m4" unfolding m4_def by (rule kept_framed [OF kept_step(1) [OF k3] framed_wcall])
  define ok where "ok = fst (waitForStaConnection env 6000 m4)"
  define m5 where "m5 = snd (waitForStaConnection env 6000 m4)"
  have k5: "kept view m m5" unfolding m5_def by (rule kept_framed [OF k4 waitForStaConnection_framed])
  have eq: "tryConnectSlot env i m =
      (if e3 \<noteq> ESP_OK then (False, m3)
       else if e4 \<noteq> ESP_OK then (False, m4\<lparr>wf_staConnecting := False\<rparr>)
       else if ok then (True, m5\<lparr>wf_staSsid := take 31 (fst (ns ! i))\<rparr>)
       else (False, wdo env Wifi_Disconnect (m5\<lparr>wf_staConnecting := False\<rparr>)))"
    by (simp add: tryConnectSlot_def r1 r2 case_prod_beta Let_def e3_def m3_def e4_def m4_def ok_def m5_def)
  show "kept view m (snd (tryConnectSlot env i m))"
    using k3 k4 k5 by (auto simp: eq intro: kept_step kept_framed [OF kept_step(1) framed_wdo])
  show "fst (tryConnectSlot env i m) \<Longrightarrow> wf_staSsid (snd (tryConnectSlot env i m)) = take 31 (fst (ns ! i))"
    by (auto simp: eq split: if_splits)
qed

lemma try_slots_outcome:
  assumes laws: "nvs_laws (we_nvs env) view" "flash_works (we_nvs env)"
  shows "slots_hold (view (wf_flash m)) ns \<Longrightarrow> set is \<subseteq> {..< length ns} \<Longrightarrow>
    kept view m (snd (try_slots env is m))
    \<and> (fst (try_slots env is m) \<longrightarrow> (\<exists>n \<in> set ns. wf_staSsid (snd (try_slots env is m)) = take 31 (fst n)))"
proof (induction "is" arbitrary: m)
  case (Cons i "is")
  have i: "i < length ns" using Cons.prems by simp
  note slot = tryConnectSlot_outcome [OF laws Cons.prems(1) i]
  show ?case
  proof (cases "fst (tryConnectSlot env i m)")
    case True
    then show ?thesis using slot i nth_mem by (fastforce simp: case_prod_beta)
  next
    case False
    have "slots_hold (view (wf_flash (snd (tryConnectSlot env i m)))) ns"
      using slot(1) Cons.prems(1) by (simp add: kept_def)
    then show ?thesis using Cons.IH Cons.prems(2) False kept_trans [OF slot(1)]
      by (simp add: case_prod_beta)
  qed
qed simp

lemma log_kept:
  assumes "nvs_laws (we_nvs env) view"
  shows "kept view m (logSavedNetworks env count m)"
proof -
  have "kept view m (fold (\<lambda>s m. snd (read_saved env (ssid_key s) m)) ss m)" for ss
    by (induction ss arbitrary: m) (auto intro: kept_trans read_saved_kept [OF assms])
  then show ?thesis by (simp add: logSavedNetworks_def)
qed

lemma ensure_kept: "kept view m (snd (ensureStaEventGroup env m))"
  by (auto simp: ensureStaEventGroup_def wcall_eq kept_def clear_bits_def)

lemma ensure_group:
  assumes "fst (ensureStaEventGroup env m) = ESP_OK"
  shows "wf_group (snd (ensureStaEventGroup env m)) \<noteq> None"
proof (cases "wf_group m = None")
  case True
  then show ?thesis using assms
    by (cases "fst (we_call env New_Event_Group (wf_driver m)) = ESP_OK") (simp_all add: ensureStaEventGroup_def wcall_eq)
next
  case False
  then show ?thesis by (auto simp: ensureStaEventGroup_def clear_bits_def)
qed

lemma start_mode_kept: "kept view m (snd (startWiFiInStaModeIfNeeded env m))"
  by (simp add: startWiFiInStaModeIfNeeded_def wdo_eq wcall_eq kept_def)

text \<open>The search for a network, on a driver and a flash that answer: it joins one of the saved
  names or reports that it joined none.\<close>

lemma tryStartSTA_outcome:
  assumes laws: "nvs_laws (we_nvs env) view" "flash_works (we_nvs env)"
    and st: "networks_stored (view (wf_flash m)) ns"
  shows "kept view m (snd (tryStartSTA env m))"
    and "fst (tryStartSTA env m) \<Longrightarrow> \<exists>n \<in> set ns. wf_staSsid (snd (tryStartSTA env m)) = take 31 (fst n)"
proof -
  have n: "length ns \<le> 5" "count_holds (view (wf_flash m)) (length ns)" "slots_hold (view (wf_flash m)) ns"
    using st by (simp_all add: networks_stored_def)
  define w where "w = snd (read_count (we_nvs env) (wf_flash m))"
  define cnt where "cnt = length ns"
  have c: "read_count (we_nvs env) (wf_flash m) = (cnt, w)" and v: "view w = view (wf_flash m)"
    using read_count_value [OF laws n(2)] n(1) by (simp_all add: w_def prod_eq_iff cnt_def)
  define m1 where "m1 = m\<lparr>wf_flash := w\<rparr>"
  define m2 where "m2 = snd (ensureStaEventGroup env (logSavedNetworks env cnt m1))"
  define m3 where "m3 = snd (startWiFiInStaModeIfNeeded env m2)"
  define here where "here = fst (startWiFiInStaModeIfNeeded env m2)"
  define m4 where "m4 = snd (try_slots env [0 ..< cnt] m3)"
  define ok where "ok = fst (try_slots env [0 ..< cnt] m3)"
  have k1: "kept view m m1" using v by (simp add: m1_def kept_def)
  have k2: "kept view m m2" unfolding m2_def by (rule kept_trans [OF kept_trans [OF k1 log_kept [OF laws(1)]] ensure_kept])
  have k3: "kept view m m3" unfolding m3_def by (rule kept_trans [OF k2 start_mode_kept])
  have s3: "slots_hold (view (wf_flash m3)) ns" using n(3) k3 by (simp add: kept_def)
  have o4: "kept view m3 m4 \<and> (ok \<longrightarrow> (\<exists>n \<in> set ns. wf_staSsid m4 = take 31 (fst n)))"
    unfolding m4_def ok_def by (rule try_slots_outcome [OF laws s3]) (auto simp: cnt_def)
  have k4: "kept view m m4" using kept_trans [OF k3] o4 by blast
  have "kept view m (stopWiFiAndRestoreAPSTA env m4)"
    unfolding stopWiFiAndRestoreAPSTA_def by (rule kept_framed [OF kept_framed [OF k4 framed_wdo] framed_wdo])
  moreover have eq: "tryStartSTA env m =
      (if \<not> wf_initialized m \<or> wf_staConnecting m then (False, m)
       else if cnt = 0 then (False, m1)
       else if fst (ensureStaEventGroup env (logSavedNetworks env cnt m1)) \<noteq> ESP_OK then (False, m2)
       else if \<not> wf_staNetif m3 then (False, m3)
       else if ok then (True, m4)
       else (False, if here then stopWiFiAndRestoreAPSTA env m4 else m4))"
    by (simp add: tryStartSTA_def c Let_def case_prod_beta m1_def m2_def m3_def m4_def here_def ok_def)
  ultimately show "kept view m (snd (tryStartSTA env m))"
    using k1 k2 k3 k4 by simp
  show "fst (tryStartSTA env m) \<Longrightarrow> \<exists>n \<in> set ns. wf_staSsid (snd (tryStartSTA env m)) = take 31 (fst n)"
    using o4 by (auto simp: eq split: if_splits)
qed

lemma startAP_works:
  assumes "driver_works env" "wf_initialized m" "wf_apNetif m"
  shows "wf_apActive (startAP env m)" "wf_initialized (startAP env m)"
  using assms
  by (auto simp: startAP_def buildApConfig_def applyApConfig_def configureDhcp_def wdo_eq wcall_eq driver_works_def
      case_prod_beta Let_def)

lemma startAP_flash: "wf_flash (startAP env m) = wf_flash m"
  by (simp add: startAP_def buildApConfig_def applyApConfig_def configureDhcp_def wdo_eq wcall_eq case_prod_beta Let_def)

lemma wifi_init_works:
  assumes "driver_works env" "\<not> wf_initialized m"
  shows "fst (wifi_init env m) = Inr ()" "wf_initialized (snd (wifi_init env m))"
    "wf_apNetif (snd (wifi_init env m))" "wf_staNetif (snd (wifi_init env m))"
    "wf_flash (snd (wifi_init env m)) = wf_flash m" "wf_staConnecting (snd (wifi_init env m)) = wf_staConnecting m"
  using assms by (simp_all add: wifi_init_def wdo_eq wcall_eq driver_works_def case_prod_beta Let_def)


subsection \<open>The manager's states\<close>

text \<open>What callers and the driver can do, in any order.\<close>

inductive wifi_reach :: "('d, 'w) wifi_env \<Rightarrow> ('d, 'w) wifi \<Rightarrow> bool" for env where
  Fresh: "wifi_reach env (wifi_new flash drv)"
| Init: "wifi_reach env m \<Longrightarrow> wifi_reach env (snd (wifi_init env m))"
| Try_Saved: "wifi_reach env m \<Longrightarrow> wifi_reach env (snd (tryStartSTA env m))"
| Connect: "wifi_reach env m \<Longrightarrow> wifi_reach env (snd (connectSTA env ssid password ms m))"
| Wait: "wifi_reach env m \<Longrightarrow> waitForSTA env ms m = Some (ok, m') \<Longrightarrow> wifi_reach env m'"
| Start_AP: "wifi_reach env m \<Longrightarrow> wifi_reach env (startAP env m)"
| Stop: "wifi_reach env m \<Longrightarrow> wifi_reach env (wifi_stop env m)"
| Poll: "wifi_reach env m \<Longrightarrow> wifi_reach env (wifi_process env m)"
| Event: "wifi_reach env m \<Longrightarrow> wifi_reach env (handleEvent env e m)"
| Save: "wifi_reach env m \<Longrightarrow>
    wifi_reach env (m\<lparr>wf_flash := saveCredentials (we_nvs env) ssid password (wf_flash m)\<rparr>)"

definition wifi_inv :: "('d, 'w) wifi \<Rightarrow> bool" where
  "wifi_inv m \<longleftrightarrow>
     wf_dnsSocket m = - 1 \<and> (wf_initialized m \<longrightarrow> wf_apNetif m \<and> wf_staNetif m)
     \<and> (wf_staConnecting m \<longrightarrow> wf_group m \<noteq> None) \<and> (wf_apActive m \<longrightarrow> wf_initialized m)"

definition joined_inv :: "('d, 'w) wifi \<Rightarrow> bool" where
  "joined_inv m \<longleftrightarrow> wifi_inv m \<and> wf_group m \<noteq> None"

lemma framed_inv: "wifi_inv m \<Longrightarrow> framed m m' \<Longrightarrow> wifi_inv m'"
  by (simp add: wifi_inv_def framed_def)

lemma framed_joined:
  assumes "joined_inv m" "framed m m'"
  shows "joined_inv m'"
proof -
  have "wifi_inv m'" by (rule framed_inv [OF _ assms(2)]) (use assms(1) in \<open>simp add: joined_inv_def\<close>)
  moreover have "wf_group m' = None \<longleftrightarrow> wf_group m = None" using assms(2) by (simp only: framed_def)
  moreover have "wf_group m \<noteq> None" using assms(1) unfolding joined_inv_def by blast
  ultimately show ?thesis by (simp only: joined_inv_def) blast
qed

lemma joined_updates:
  "joined_inv m \<Longrightarrow> joined_inv (m\<lparr>wf_staConnecting := b\<rparr>)" "joined_inv m \<Longrightarrow> joined_inv (m\<lparr>wf_staSsid := s\<rparr>)"
  "joined_inv m \<Longrightarrow> joined_inv (m\<lparr>wf_flash := w\<rparr>)"
  by (simp_all add: joined_inv_def wifi_inv_def)

lemma inv_flash: "wifi_inv m \<Longrightarrow> wifi_inv (m\<lparr>wf_flash := w\<rparr>)" by (simp add: wifi_inv_def)

lemma inv_saved: "wifi_inv m \<Longrightarrow> wifi_inv (snd (read_saved env k m))"
  by (simp add: read_saved_def case_prod_beta inv_flash)

lemma joined_saved: "joined_inv m \<Longrightarrow> joined_inv (snd (read_saved env k m))"
  by (simp add: read_saved_def case_prod_beta joined_updates)

lemmas joined_steps = framed_joined [OF _ framed_wcall] framed_joined [OF _ framed_wdo]
  framed_joined [OF _ waitForStaConnection_framed] framed_joined [OF _ framed_updates(8)] joined_updates joined_saved

lemma tryConnectSlot_inv: "joined_inv m \<Longrightarrow> joined_inv (snd (tryConnectSlot env i m))"
  by (auto simp: tryConnectSlot_def applyStaConfig_def case_prod_beta Let_def intro!: joined_steps split: option.splits)

lemma try_slots_inv: "joined_inv m \<Longrightarrow> joined_inv (snd (try_slots env is m))"
  by (induction "is" arbitrary: m) (auto simp: case_prod_beta intro: tryConnectSlot_inv)

lemma inv_log: "wifi_inv m \<Longrightarrow> wifi_inv (logSavedNetworks env n m)"
proof -
  have "wifi_inv m \<Longrightarrow> wifi_inv (fold (\<lambda>s m. snd (read_saved env (ssid_key s) m)) ss m)" for ss
    by (induction ss arbitrary: m) (auto intro: inv_saved)
  then show "wifi_inv m \<Longrightarrow> wifi_inv (logSavedNetworks env n m)" by (simp add: logSavedNetworks_def)
qed

lemma ensure_inv: "wifi_inv m \<Longrightarrow> wifi_inv (snd (ensureStaEventGroup env m))"
  by (auto simp: ensureStaEventGroup_def wcall_eq clear_bits_def wifi_inv_def)

lemma start_mode_framed: "framed m (snd (startWiFiInStaModeIfNeeded env m))"
  by (simp add: startWiFiInStaModeIfNeeded_def wdo_eq wcall_eq framed_def)

lemma tryStartSTA_inv:
  assumes "wifi_inv m"
  shows "wifi_inv (snd (tryStartSTA env m))"
proof -
  define m1 where "m1 = logSavedNetworks env (fst (read_count (we_nvs env) (wf_flash m)))
      (m\<lparr>wf_flash := snd (read_count (we_nvs env) (wf_flash m))\<rparr>)"
  define m2 where "m2 = snd (ensureStaEventGroup env m1)"
  define m3 where "m3 = snd (startWiFiInStaModeIfNeeded env m2)"
  define m4 where "m4 = snd (try_slots env [0 ..< fst (read_count (we_nvs env) (wf_flash m))] m3)"
  have i1: "wifi_inv m1" unfolding m1_def by (intro inv_log inv_flash assms)
  then have i2: "wifi_inv m2" unfolding m2_def by (rule ensure_inv)
  then have i3: "wifi_inv m3" unfolding m3_def by (rule framed_inv [OF _ start_mode_framed])
  show ?thesis
  proof (cases "fst (ensureStaEventGroup env m1) = ESP_OK")
    case True
    then have "joined_inv m2" using i2 ensure_group [of env m1] by (simp add: joined_inv_def m2_def)
    then have "joined_inv m4"
      unfolding m4_def m3_def by (intro try_slots_inv framed_joined [OF _ start_mode_framed])
    then have "wifi_inv m4" "wifi_inv (stopWiFiAndRestoreAPSTA env m4)"
      using joined_steps(2) [of "wdo env Wifi_Stop m4"] joined_steps(2) [of m4]
      by (simp_all add: joined_inv_def stopWiFiAndRestoreAPSTA_def)
    then show ?thesis using assms i2 i3 inv_flash [OF assms]
      by (simp add: tryStartSTA_def case_prod_beta Let_def m1_def [symmetric] m2_def [symmetric] m3_def [symmetric]
          m4_def [symmetric])
  next
    case False
    then show ?thesis using assms i2 inv_flash [OF assms]
      by (simp add: tryStartSTA_def case_prod_beta Let_def m1_def [symmetric] m2_def [symmetric])
  qed
qed

lemma connectSTA_inv:
  assumes "wifi_inv m"
  shows "wifi_inv (snd (connectSTA env s p ms m))"
proof -
  define m1 where "m1 = snd (ensureStaEventGroup env m)"
  have i1: "wifi_inv m1" unfolding m1_def by (rule ensure_inv [OF assms])
  show ?thesis
  proof (cases "fst (ensureStaEventGroup env m) = ESP_OK")
    case True
    then have "joined_inv m1" using i1 ensure_group [of env m] by (simp add: joined_inv_def m1_def)
    then have "joined_inv (snd (doStaConnectAndWait env s p ms m1))"
      by (auto simp: doStaConnectAndWait_def doStaConnectAndSave_def applyStaConfig_def case_prod_beta Let_def
          intro!: joined_steps)
    then show ?thesis using assms i1
      by (simp add: connectSTA_def case_prod_beta Let_def m1_def [symmetric] joined_inv_def)
  next
    case False
    then show ?thesis using assms i1 by (simp add: connectSTA_def case_prod_beta Let_def m1_def [symmetric])
  qed
qed

lemma waitForSTA_inv:
  assumes "wifi_inv m"
  shows "\<exists>ok m'. waitForSTA env ms m = Some (ok, m') \<and> wifi_inv m'"
proof (cases "wf_initialized m \<and> wf_staConnecting m")
  case True
  then have "joined_inv m" using assms by (simp add: joined_inv_def wifi_inv_def)
  then have j: "joined_inv (snd (waitBits env ms (clear_bits m)))"
    by (intro framed_joined [OF _ framed_waitBits] joined_steps)
  then have "joined_inv (wdo env Wifi_Disconnect ((snd (waitBits env ms (clear_bits m)))\<lparr>wf_staConnecting := False\<rparr>))"
    by (intro joined_steps)
  then show ?thesis using j True \<open>joined_inv m\<close>
    by (auto simp: waitForSTA_def joined_inv_def case_prod_beta Let_def)
qed (use assms in \<open>auto simp: waitForSTA_def\<close>)

lemma framed_fold [framing]: "framed m (fold (wdo env) cs m)"
  by (induction cs arbitrary: m) (auto intro: framed_trans framed_wdo)

lemma framed_all_calls [framing]: "framed m (snd (all_calls env cs m))"
proof (induction cs arbitrary: m)
  case (Cons c cs)
  show ?case using framed_trans [OF framed_wcall Cons.IH, of m env c] framed_wcall [of m env c] by (simp add: case_prod_beta)
qed simp

lemma startAP_inv:
  assumes "wifi_inv m"
  shows "wifi_inv (startAP env m)"
proof -
  define m1 where "m1 = snd (buildApConfig (we_mac env) (configureDhcp env m))"
  define m2 where "m2 = snd (applyApConfig env (fst (buildApConfig (we_mac env) (configureDhcp env m))) m1)"
  have fd: "framed m (configureDhcp env m)" unfolding configureDhcp_def by (rule framed_fold)
  then have "wifi_inv (configureDhcp env m)" by (rule framed_inv [OF assms])
  then have i1: "wifi_inv m1" by (simp add: m1_def buildApConfig_def Let_def wifi_inv_def)
  have f2: "framed m1 m2" unfolding m2_def applyApConfig_def by (rule framed_all_calls)
  have i2: "wifi_inv m2" by (rule framed_inv [OF i1 f2])
  have "wf_initialized m1 = wf_initialized (configureDhcp env m)" by (simp add: m1_def buildApConfig_def Let_def)
  then have "wf_initialized m2 = wf_initialized m" using fd f2 by (simp add: framed_def)
  then have "wf_initialized m \<Longrightarrow> wifi_inv (m2\<lparr>wf_apActive := True\<rparr>)" using i2 by (simp add: wifi_inv_def)
  then show ?thesis using assms i2
    by (simp add: startAP_def Let_def case_prod_beta m1_def [symmetric] m2_def [symmetric])
qed

lemma wifi_init_inv:
  assumes "wifi_inv m"
  shows "wifi_inv (snd (wifi_init env m))"
proof (cases "wf_initialized m")
  case False
  define m3 where "m3 = (snd (wcall env New_Ap_Netif (snd (wcall env Event_Loop_Create (wdo env Netif_Init m)))))"
  define m5 where "m5 = snd (wcall env New_Sta_Netif (m3\<lparr>wf_apNetif := True\<rparr>))"
  have i0: "wifi_inv (snd (wcall env Event_Loop_Create (wdo env Netif_Init m)))"
    by (intro framed_inv [OF _ framed_wcall] framed_inv [OF _ framed_wdo] assms)
  then have i3: "wifi_inv m3" unfolding m3_def by (rule framed_inv [OF _ framed_wcall])
  have n3: "\<not> wf_initialized m3" using False by (simp add: m3_def wcall_eq wdo_eq)
  have i3': "wifi_inv (m3\<lparr>wf_apNetif := b\<rparr>)" for b using i3 n3 by (simp add: wifi_inv_def)
  have i5: "wifi_inv m5" unfolding m5_def by (rule framed_inv [OF i3' framed_wcall])
  have n5: "\<not> wf_initialized m5" "wf_apNetif m5" using n3 by (simp_all add: m5_def wcall_eq)
  have i5': "wifi_inv (m5\<lparr>wf_staNetif := b\<rparr>)" for b using i5 n5 by (simp add: wifi_inv_def)
  define m6 where "m6 = snd (all_calls env [Wifi_Init, Set_Storage_Ram, Set_Mode WIFI_MODE_APSTA,
      Register_Wifi_Events, Register_Ip_Events] (m5\<lparr>wf_staNetif := True\<rparr>))"
  have f: "framed (m5\<lparr>wf_staNetif := True\<rparr>) m6" unfolding m6_def by (rule framed_all_calls)
  then have i6: "wifi_inv m6" by (rule framed_inv [OF i5'])
  moreover have "wf_apNetif m6" "wf_staNetif m6" using f n5 by (simp_all add: framed_def)
  ultimately have "wifi_inv (m6\<lparr>wf_initialized := True\<rparr>)" by (simp add: wifi_inv_def)
  then show ?thesis using False i0 i3' i5' i6
    by (simp add: wifi_init_def case_prod_beta Let_def m3_def [symmetric] m5_def [symmetric] m6_def [symmetric]
        del: all_calls.simps)
qed (simp add: wifi_init_def assms)

lemma wifi_stop_inv:
  assumes "wifi_inv m"
  shows "wifi_inv (wifi_stop env m)"
  using assms by (auto simp: wifi_stop_def stopDnsServer_def wdo_eq Let_def wifi_inv_def)

lemma wifi_reach_inv: "wifi_reach env m \<Longrightarrow> wifi_inv m"
proof (induction rule: wifi_reach.induct)
  case (Fresh flash drv)
  then show ?case by (simp add: wifi_inv_def wifi_new_def)
next
  case (Wait m ms ok m')
  then show ?case using waitForSTA_inv [of m env ms] by auto
next
  case (Poll m)
  then show ?case by (simp add: wifi_process_def wifi_inv_def)
qed (simp_all add: wifi_init_inv tryStartSTA_inv connectSTA_inv startAP_inv wifi_stop_inv inv_flash
    framed_inv [OF _ framed_event])



subsection \<open>A driver\<close>

text \<open>A driver on which every call succeeds and every wait ends with the given events.\<close>

definition ref_env :: "wifi_event list \<Rightarrow> (unit, string \<times> string \<Rightarrow> nvs_val option) wifi_env" where
  "ref_env es =
     \<lparr>we_call = (\<lambda>c d. (ESP_OK, d)), we_wait = (\<lambda>ms d. (es, d)), we_mode = (\<lambda>d. WIFI_MODE_APSTA),
      we_mac = [0x24, 0x6F, 0x28, 0xAB, 0xCD, 0xEF], we_recv = (\<lambda>s d. ([], d)), we_nvs = ref_nvs\<rparr>"

lemma ref_env_laws:
  "nvs_laws (we_nvs (ref_env es)) (\<lambda>w. w)" "flash_works (we_nvs (ref_env es))" "driver_works (ref_env es)"
proof -
  show "nvs_laws (we_nvs (ref_env es)) (\<lambda>w. w)" by (simp add: ref_env_def ref_nvs_laws)
  show "flash_works (we_nvs (ref_env es))" by (simp add: ref_env_def flash_works_def ref_nvs_def)
  show "driver_works (ref_env es)" by (simp add: ref_env_def driver_works_def)
qed

definition ref_ready :: "(unit, string \<times> string \<Rightarrow> nvs_val option) wifi" where
  "ref_ready = (wifi_new (\<lambda>_. None) ())\<lparr>wf_initialized := True, wf_apNetif := True, wf_staNetif := True\<rparr>"


subsection \<open>Connecting on request\<close>

lemma doStaConnectAndSave_framed: "framed (m\<lparr>wf_staConnecting := True\<rparr>) (snd (doStaConnectAndSave env ms m))"
proof -
  define m1 where "m1 = snd (wcall env Wifi_Connect (m\<lparr>wf_staConnecting := True\<rparr>))"
  define m2 where "m2 = snd (waitForStaConnection env ms m1)"
  have f1: "framed (m\<lparr>wf_staConnecting := True\<rparr>) m1" unfolding m1_def by (rule framed_wcall)
  have f2: "framed (m\<lparr>wf_staConnecting := True\<rparr>) m2"
    unfolding m2_def by (rule framed_trans [OF f1 waitForStaConnection_framed])
  note stop1 = framed_trans [OF f1 framed_updates(5)]
  have stop2: "framed (m\<lparr>wf_staConnecting := True\<rparr>) (wdo env Wifi_Disconnect (m2\<lparr>wf_staConnecting := False\<rparr>))"
    by (rule framed_trans [OF framed_trans [OF f2 framed_updates(5)] framed_wdo])
  show ?thesis using f1 f2 stop1 stop2
    by (simp add: doStaConnectAndSave_def case_prod_beta Let_def m1_def [symmetric] m2_def [symmetric])
qed

lemma connected_saves:
  assumes laws: "nvs_laws (we_nvs env) view" "flash_works (we_nvs env)"
    and st: "networks_stored (view (wf_flash m)) ns" and len: "length s < 64" "length p < 64"
    and new: "\<not> (wf_staConnected m \<and> wf_staSsid m = s)"
  shows "if fst (connectSTA env s p ms m)
    then networks_stored (view (wf_flash (snd (connectSTA env s p ms m)))) (remember s p ns)
      \<and> wf_staSsid (snd (connectSTA env s p ms m)) = strncpy_z 32 s
    else wf_flash (snd (connectSTA env s p ms m)) = wf_flash m"
proof -
  define m1 where "m1 = snd (ensureStaEventGroup env m)"
  define m2 where "m2 = snd (applyStaConfig env s p m1)"
  define m3 where "m3 = snd (doStaConnectAndSave env ms m2)"
  have e: "wf_flash m1 = wf_flash m" "wf_staConnected m1 = wf_staConnected m" "wf_staSsid m1 = wf_staSsid m"
    by (simp_all add: m1_def ensureStaEventGroup_def wcall_eq clear_bits_def)
  have f2: "wf_flash m2 = wf_flash m" using e by (simp add: m2_def applyStaConfig_def wcall_eq)
  have f3: "wf_flash m3 = wf_flash m"
    using doStaConnectAndSave_framed [of m2 env ms] f2 by (simp add: m3_def framed_def)
  have "networks_stored (view (saveCredentials (we_nvs env) s p (wf_flash m3))) (remember s p ns)"
    using save_known [OF laws, of "wf_flash m3" ns s p] save_new [OF laws, of "wf_flash m3" ns s p] st len
    by (cases "s \<in> fst ` set ns") (simp_all add: f3 remember_def)
  then show ?thesis using f3
    by (simp add: new e f2 connectSTA_def doStaConnectAndWait_def case_prod_beta Let_def m1_def [symmetric]
        m2_def [symmetric] m3_def [symmetric])
qed

text \<open>The request to join a network by name: when it succeeds, and the station was not already on
  that network, the flash holds the network in its list, as the bounded list keeps it; when it
  fails the saved networks are untouched.\<close>

theorem connected_network_is_saved:
  assumes laws: "nvs_laws (we_nvs env) view" "flash_works (we_nvs env)"
    and st: "networks_stored (view (wf_flash m)) ns" and len: "length s < 64" "length p < 64"
    and new: "\<not> (wf_staConnected m \<and> wf_staSsid m = s)"
  shows "if fst (connectSTA env s p ms m)
    then networks_stored (view (wf_flash (snd (connectSTA env s p ms m)))) (remember s p ns)
      \<and> wf_staSsid (snd (connectSTA env s p ms m)) = strncpy_z 32 s
    else wf_flash (snd (connectSTA env s p ms m)) = wf_flash m"
  by (rule connected_saves [OF assms])

text \<open>The code takes the association for the connection: the request succeeds although the
  station never got an address, and the manager itself reports that it is not connected.\<close>

lemma joined_without_address:
  "let r = connectSTA (ref_env [STA_CONNECTED]) ''lab'' ''secret'' 15000 ref_ready
   in fst r \<and> \<not> wf_staConnected (snd r)"
  by (simp add: connectSTA_def ref_ready_def wifi_new_def ref_env_def ensureStaEventGroup_def wcall_def
      doStaConnectAndWait_def doStaConnectAndSave_def applyStaConfig_def waitForStaConnection_def waitBits_def
      onStaConnected_def set_connected_bit_def clear_bits_def)

text \<open>A disconnection reported late, for the slot that was given up, ends the wait of the next.\<close>

lemma late_disconnection_fails_slot:
  assumes "we_wait env ms (wf_driver m) = (STA_DISCONNECTED # es, d)" "wf_group m = Some (False, False)"
  shows "\<not> fst (waitForStaConnection env ms m)"
proof -
  have "fst (until_bits env es (m\<lparr>wf_driver := d, wf_staConnected := False, wf_staConnecting := False,
      wf_group := Some (False, True)\<rparr>)) = (False, True)"
    by (cases es) simp_all
  then show ?thesis using assms
    by (simp add: waitForStaConnection_def waitBits_def onStaDisconnected_def set_disconnected_bit_def case_prod_beta)
qed

theorem connected_network_is_saved_witness:
  "networks_stored (wf_flash (snd (connectSTA (ref_env [STA_CONNECTED]) ''lab'' ''secret'' 15000 ref_ready)))
     [(''lab'', ''secret'')]"
proof -
  have "fst (connectSTA (ref_env [STA_CONNECTED]) ''lab'' ''secret'' 15000 ref_ready)"
    using joined_without_address by (simp only: Let_def)
  then show ?thesis
    using connected_network_is_saved [OF ref_env_laws(1,2), of ref_ready "[]" "''lab''" "''secret''" "[STA_CONNECTED]" 15000]
    by (simp add: networks_stored_def count_holds_def slots_hold_def remember_def ref_ready_def wifi_new_def)
qed

end
