(* ===== verification/Http_Server.thy ===== *)
theory Http_Server
  imports Rest_Api Wifi Logs
begin

text \<open>
  The HTTP server (\<^verbatim>\<open>infrastructure/network/src/http_server.cpp\<close>): its start and routes, the table
  of WebSocket sessions, the captive portal's handlers, and the status, log and settings handlers.
  The server library is the parameter \<open>ws_env\<close>: what it knows of a socket and whether a frame is
  sent; \<open>hs_frames\<close> lists the frames handed to it.  The contents of the embedded pages are the
  parameter \<open>pages\<close>.  A handler that writes outside its buffers is \<^term>\<open>None\<close>.
\<close>

unbundle bit_operations_syntax
declare One_nat_def [simp del]

subsection \<open>Sessions\<close>

definition WS_MAX_SESSIONS :: nat where "WS_MAX_SESSIONS = 4"
definition WS_FD_INVALID :: int where "WS_FD_INVALID = - 1"

datatype ws_client = WS_CLIENT_INVALID | WS_CLIENT_HTTP | WS_CLIENT_WEBSOCKET

record 'h ws_env =
  we_fd_info :: "int \<Rightarrow> 'h \<Rightarrow> ws_client"
  we_send :: "int \<Rightarrow> string \<Rightarrow> 'h \<Rightarrow> bool \<times> 'h"

record 'h HttpServer =
  hs_handle :: bool
  hs_wifiManager :: bool
  hs_sessions :: "int list"
  hs_srv :: 'h
  hs_frames :: "(int \<times> string) list"

definition http_new :: "'h \<Rightarrow> 'h HttpServer" where
  "http_new srv = \<lparr>hs_handle = False, hs_wifiManager = False,
     hs_sessions = replicate WS_MAX_SESSIONS WS_FD_INVALID, hs_srv = srv, hs_frames = []\<rparr>"

definition findSession :: "int \<Rightarrow> int list \<Rightarrow> bool" where
  "findSession fd ss = (fd \<in> set ss)"

fun addSession :: "int \<Rightarrow> int list \<Rightarrow> int list" where
  "addSession fd [] = []"
| "addSession fd (s # ss) = (if s < 0 then fd # ss else s # addSession fd ss)"

fun removeSession :: "int \<Rightarrow> int list \<Rightarrow> int list" where
  "removeSession fd [] = []"
| "removeSession fd (s # ss) = (if s = fd then WS_FD_INVALID # ss else s # removeSession fd ss)"

text \<open>The loop over the sessions: the new table, the server and the frames handed to it.\<close>

fun send_all :: "'h ws_env \<Rightarrow> string \<Rightarrow> int list \<Rightarrow> 'h \<Rightarrow> int list \<times> 'h \<times> (int \<times> string) list" where
  "send_all env data [] h = ([], h, [])"
| "send_all env data (fd # fds) h =
     (if fd < 0 then (let (r, h1, fs) = send_all env data fds h in (fd # r, h1, fs))
      else case we_fd_info env fd h of
        WS_CLIENT_INVALID \<Rightarrow> (let (r, h1, fs) = send_all env data fds h in (WS_FD_INVALID # r, h1, fs))
      | WS_CLIENT_HTTP \<Rightarrow> (let (r, h1, fs) = send_all env data fds h in (fd # r, h1, fs))
      | WS_CLIENT_WEBSOCKET \<Rightarrow>
          (let (ok, h1) = we_send env fd data h;
               fd' = (if \<not> ok \<and> we_fd_info env fd h1 = WS_CLIENT_INVALID then WS_FD_INVALID else fd);
               (r, h2, fs) = send_all env data fds h1
           in (fd' # r, h2, (fd, data) # fs)))"

definition broadcastWsEvent :: "'h ws_env \<Rightarrow> string \<Rightarrow> 'h HttpServer \<Rightarrow> 'h HttpServer" where
  "broadcastWsEvent env data hs =
     (if \<not> hs_handle hs \<or> data = [] then hs
      else if \<forall>s \<in> set (hs_sessions hs). s < 0 then hs
      else
        let (ss, h, fs) = send_all env data (hs_sessions hs) (hs_srv hs)
        in hs\<lparr>hs_sessions := ss, hs_srv := h, hs_frames := hs_frames hs @ fs\<rparr>)"

subsection \<open>Start and routes\<close>

record httpd_config =
  hc_stack_size :: nat
  hc_lru_purge_enable :: bool
  hc_max_open_sockets :: nat
  hc_max_uri_handlers :: nat

definition buildHttpdConfig :: httpd_config where
  "buildHttpdConfig = \<lparr>hc_stack_size = 16384, hc_lru_purge_enable = True, hc_max_open_sockets = 13,
     hc_max_uri_handlers = 24\<rparr>"

text \<open>\<open>freeHeap\<close> is the free internal memory, \<open>start\<close> whether the library starts a server with the
  configuration.\<close>

definition http_init :: "nat \<Rightarrow> (httpd_config \<Rightarrow> bool) \<Rightarrow> 'h HttpServer \<Rightarrow> (AppError + unit) \<times> 'h HttpServer" where
  "http_init freeHeap start hs =
     (if hs_handle hs then (Inr (), hs)
      else if freeHeap < 16384 then (Inl AppError.Resource, hs)
      else if \<not> start buildHttpdConfig then (Inl AppError.Resource, hs)
      else (Inr (), hs\<lparr>hs_handle := True\<rparr>))"

definition http_close :: "'h HttpServer \<Rightarrow> 'h HttpServer" where
  "http_close hs = (if hs_handle hs then hs\<lparr>hs_handle := False\<rparr> else hs)"

datatype http_method = HTTP_GET | HTTP_POST

datatype handler_name =
    H_wifi_page | H_wifi_connect | H_wifi_status | H_ping | H_status | H_command | H_valve_get | H_valve_post
  | H_logs | H_logs_download | H_nvs_status | H_ws | H_root | H_file

record route =
  ro_uri :: string
  ro_method :: http_method
  ro_handler :: handler_name
  ro_ctx :: bool
  ro_ws :: bool

definition get_route :: "string \<Rightarrow> handler_name \<Rightarrow> route" where
  "get_route uri h = \<lparr>ro_uri = uri, ro_method = HTTP_GET, ro_handler = h, ro_ctx = False, ro_ws = False\<rparr>"

text \<open>The routes in the order of their registration; \<open>ro_ctx\<close> is whether the handler gets the server.\<close>

definition registerRoutes :: "bool \<Rightarrow> route list" where
  "registerRoutes started =
     (if \<not> started then []
      else
        [get_route ''/wifi'' H_wifi_page,
         (get_route ''/wifi/connect'' H_wifi_connect)\<lparr>ro_method := HTTP_POST, ro_ctx := True\<rparr>,
         get_route ''/wifi/status'' H_wifi_status,
         get_route ''/api/ping'' H_ping,
         get_route ''/api/status'' H_status,
         (get_route ''/api/command'' H_command)\<lparr>ro_method := HTTP_POST\<rparr>,
         get_route ''/api/valve'' H_valve_get,
         (get_route ''/api/valve'' H_valve_post)\<lparr>ro_method := HTTP_POST\<rparr>,
         get_route ''/api/logs'' H_logs,
         get_route ''/api/logs/download'' H_logs_download,
         get_route ''/api/nvs/status'' H_nvs_status,
         (get_route ''/ws/stream'' H_ws)\<lparr>ro_ctx := True, ro_ws := True\<rparr>,
         (get_route ''/'' H_root)\<lparr>ro_ctx := True\<rparr>,
         get_route ''/style.css'' H_file, get_route ''/js/state.js'' H_file, get_route ''/js/ws.js'' H_file,
         get_route ''/js/ui-update.js'' H_file, get_route ''/js/logs.js'' H_file, get_route ''/js/stepper.js'' H_file,
         get_route ''/js/calibration.js'' H_file, get_route ''/js/init.js'' H_file])"

subsection \<open>The WebSocket handler\<close>

text \<open>What reading a frame gives: an error (too large or other), a closing frame, or data.\<close>

datatype ws_frame = Frame_Too_Large | Frame_Error | Frame_Close | Frame_Data string

definition removeWsSession :: "bool \<Rightarrow> int \<Rightarrow> 'h HttpServer \<Rightarrow> 'h HttpServer" where
  "removeWsSession ctx fd hs = (if 0 \<le> fd \<and> ctx then hs\<lparr>hs_sessions := removeSession fd (hs_sessions hs)\<rparr> else hs)"

definition ws_handler :: "bool \<Rightarrow> int \<Rightarrow> http_method \<Rightarrow> ws_frame \<Rightarrow> 'h HttpServer \<Rightarrow> bool \<times> 'h HttpServer" where
  "ws_handler ctx fd meth frame hs =
     (let hs1 = (if 0 \<le> fd \<and> ctx \<and> \<not> findSession fd (hs_sessions hs)
                 then hs\<lparr>hs_sessions := addSession fd (hs_sessions hs)\<rparr> else hs)
      in if meth = HTTP_GET then (True, hs1)
         else case frame of
           Frame_Too_Large \<Rightarrow> (False, hs1)
         | Frame_Error \<Rightarrow> (False, removeWsSession ctx fd hs1)
         | Frame_Close \<Rightarrow> (True, removeWsSession ctx fd hs1)
         | Frame_Data _ \<Rightarrow> (True, hs1))"

subsection \<open>Pages\<close>

record page = reply +
  rp_headers :: "(string \<times> string) list"

definition page_of :: "reply \<Rightarrow> page" where
  "page_of r = reply.extend r \<lparr>rp_headers = []\<rparr>"

definition redirect_wifi :: page where
  "redirect_wifi =
     \<lparr>rp_ok = True, rp_status = ''303 See Other'', rp_type = ''text/html'', rp_body = ''Redirect to the captive portal'',
      rp_headers = [(''Location'', ''/wifi''), (''Cache-Control'', ''no-cache, no-store, must-revalidate'')]\<rparr>"

definition sent_page :: "string \<Rightarrow> string \<Rightarrow> page" where
  "sent_page mime body = \<lparr>rp_ok = True, rp_status = HTTP_200, rp_type = mime, rp_body = body, rp_headers = []\<rparr>"

text \<open>The embedded files by path; their contents are the parameter \<open>pages\<close>.\<close>

definition FILE_PATHS :: "string list" where
  "FILE_PATHS = [''/'', ''/style.css'', ''/wifi'', ''/js/state.js'', ''/js/ws.js'', ''/js/ui-update.js'', ''/js/logs.js'',
     ''/js/stepper.js'', ''/js/calibration.js'', ''/js/init.js'']"

definition getFile :: "string list \<Rightarrow> string \<Rightarrow> string" where
  "getFile pages path = (case map_of (zip FILE_PATHS pages) path of Some content \<Rightarrow> content | None \<Rightarrow> [])"

definition serve_wifi_page :: "string list \<Rightarrow> page" where
  "serve_wifi_page pages =
     (if getFile pages ''/wifi'' = [] then page_of (sent_err ''404 Not Found'' ''This URI does not exist'')
      else sent_page ''text/html; charset=utf-8'' (getFile pages ''/wifi''))"

text \<open>The extension: what follows the last dot of the path.\<close>

definition extension :: "string \<Rightarrow> string option" where
  "extension path =
     (if CHR ''.'' \<in> set path then Some (rev (takeWhile (\<lambda>c. c \<noteq> CHR ''.'') (rev path))) else None)"

definition mime_of :: "string \<Rightarrow> string" where
  "mime_of path =
     (case extension path of
        None \<Rightarrow> ''text/html; charset=utf-8''
      | Some ext \<Rightarrow>
          if ext = ''css'' then ''text/css; charset=utf-8''
          else if ext = ''js'' then ''application/javascript; charset=utf-8''
          else ''text/html; charset=utf-8'')"

definition webui_file_handler :: "string list \<Rightarrow> string \<Rightarrow> page" where
  "webui_file_handler pages uri =
     (if getFile pages uri = [] then page_of (sent_err ''404 Not Found'' ''not found'')
      else sent_page (mime_of uri) (getFile pages uri))"

definition root_handler :: "bool \<Rightarrow> bool \<Rightarrow> bool \<Rightarrow> string list \<Rightarrow> string \<Rightarrow> page" where
  "root_handler ctx hasWifi isConnected pages uri =
     (let connected = (ctx \<and> hasWifi \<and> isConnected)
      in if ctx \<and> hasWifi \<and> \<not> connected then redirect_wifi else webui_file_handler pages uri)"

text \<open>The handler of unknown addresses.\<close>

definition not_found_handler :: page where
  "not_found_handler = redirect_wifi"

subsection \<open>The captive portal\<close>

definition NET_OWNER_CMD_QUEUE_DEPTH :: nat where "NET_OWNER_CMD_QUEUE_DEPTH = 2"

definition portal_reply :: "string \<Rightarrow> string \<Rightarrow> string" where
  "portal_reply success msg = ''{'' @ jkey ''success'' @ success @ '','' @ jkey ''message'' @ quoted msg @ ''}''"

text \<open>The request to join a network, left in the queue of the network task.\<close>

definition captive_wifi_connect_handler ::
  "http_request \<Rightarrow> (string \<times> string) list option \<Rightarrow> reply \<times> (string \<times> string) list option" where
  "captive_wifi_connect_handler req cmdQueue =
     (if cmdQueue = None then (sent_err HTTP_500 ''no cmd queue'', cmdQueue)
      else case received (MAX_CMD_SIZE - 1) req of
        None \<Rightarrow> (sent_err HTTP_400 ''bad request'', cmdQueue)
      | Some body \<Rightarrow>
          (case (findJsonField (c_string body) (quoted ''ssid''), findJsonField (c_string body) (quoted ''password'')) of
             (Some ssid, Some password) \<Rightarrow>
               (let (ok, q) = xQueueSend NET_OWNER_CMD_QUEUE_DEPTH (strncpy_z 32 ssid, strncpy_z 64 password) cmdQueue
                in if \<not> ok then (sent_json True HTTP_200 (portal_reply ''false'' ''Busy. Try again later.''), q)
                   else (sent_json True HTTP_200
                          (''{'' @ jkey ''status'' @ quoted ''accepted'' @ '','' @ jkey ''message''
                            @ quoted ''WiFi connect request accepted'' @ ''}''), q))
           | _ \<Rightarrow> (sent_json True HTTP_200 (portal_reply ''false'' ''Missing ssid or password''), cmdQueue)))"

definition captive_wifi_status_handler :: reply where
  "captive_wifi_status_handler =
     (let (b, n) = snprintf MAX_RSP_SIZE (''{'' @ jkey ''ap'' @ quoted ''EcoTiter-AP'' @ '','' @ jkey ''sta'' @ ''false,''
                     @ jkey ''ip'' @ quoted ''192.168.4.1'' @ ''}'')
      in sent_json True HTTP_200 (take n b))"

subsection \<open>Status\<close>

definition ip_byte :: "u32 \<Rightarrow> nat \<Rightarrow> string" where
  "ip_byte ip i = nat_str (unat (drop_bit (8 * i) ip AND 0xFF))"

definition ipToStr :: "u32 \<Rightarrow> nat \<Rightarrow> string" where
  "ipToStr ip outSize =
     fst (snprintf outSize (ip_byte ip 0 @ ''.'' @ ip_byte ip 1 @ ''.'' @ ip_byte ip 2 @ ''.'' @ ip_byte ip 3))"

text \<open>\<open>ctx\<close> is whether the route passes the server to the handler, \<open>staIp\<close> the address of the station.\<close>

definition status_ip :: "bool \<Rightarrow> bool \<Rightarrow> u32 option \<Rightarrow> string" where
  "status_ip ctx hasWifi staIp =
     (if ctx \<and> hasWifi then (case staIp of Some ip \<Rightarrow> ipToStr ip 16 | None \<Rightarrow> ''192.168.4.1'') else ''192.168.4.1'')"

definition api_status_text :: "string \<Rightarrow> u32 \<Rightarrow> 'g globals_scheme \<Rightarrow> string" where
  "api_status_text ip tick s =
     (let tempConnected = (sint (gTempCX100 s) > - 99999);
          tempC = (if tempConnected then f_div f32 (f_of_int f32 (sint (gTempCX100 s))) (f32_lit 100 1) else fp_zero f32 False);
          stateStr = (if gBuretteState s = BuretteState.Idle then ''idle''
                      else if gBuretteState s = BuretteState.Error then ''error'' else ''working'')
      in ''{'' @ jkey ''ts'' @ nat_str (unat tick) @ '','' @ jkey ''meta'' @ ''{'' @ jkey ''ip'' @ quoted ip @ ''},''
         @ jkey ''sensors'' @ ''{'' @ jkey ''temperature'' @ ''{'' @ jkey ''is_connected'' @ flag_text tempConnected
         @ '','' @ jkey ''celsius_val'' @ fmt_fixed 1 tempC @ ''},'' @ jkey ''electrode'' @ ''{'' @ jkey ''mv''
         @ nat_str (unat (gLastMv s)) @ ''}},'' @ jkey ''valve'' @ ''{'' @ jkey ''position''
         @ quoted (position_str (gValvePosition s)) @ ''},'' @ jkey ''burette'' @ ''{'' @ jkey ''status'' @ quoted stateStr
         @ '','' @ jkey ''volume_ml'' @ fmt_fixed 2 (gVolumeMl s) @ '','' @ jkey ''speed_ml_min''
         @ fmt_fixed 2 (gSpeedMlMin s) @ ''}}'')"

text \<open>The reply sends as many bytes as the text has; more than the buffer holds is undefined.\<close>

definition api_status_handler :: "string \<Rightarrow> u32 \<Rightarrow> 'g globals_scheme \<Rightarrow> reply outcome" where
  "api_status_handler ip tick s =
     (let (b, n) = snprintf MAX_RSP_SIZE (api_status_text ip tick s)
      in if n = 0 then Some (sent_json True HTTP_200 ''{}'')
         else if n \<le> MAX_RSP_SIZE then Some (sent_json True HTTP_200 (take n (b @ [CHR 0x00]))) else None)"


subsection \<open>Logs\<close>

definition LOG_FETCH_DEFAULT_LIMIT :: int where "LOG_FETCH_DEFAULT_LIMIT = 20"
definition LOG_FETCH_MAX_LIMIT :: int where "LOG_FETCH_MAX_LIMIT = 100"

text \<open>\<^verbatim>\<open>atoi\<close>: white space, a sign, digits; values outside \<^verbatim>\<open>int\<close> are clamped as by the target's library.\<close>

definition is_space :: "char \<Rightarrow> bool" where
  "is_space c \<longleftrightarrow> c = CHR '' '' \<or> of_char c \<in> {9 .. (13::nat)}"

definition clamp_int :: "int \<Rightarrow> int" where
  "clamp_int v = max (- (2 ^ 31)) (min (2 ^ 31 - 1) v)"

definition leading_digits :: "string \<Rightarrow> int" where
  "leading_digits s = foldl (\<lambda>v c. v * 10 + int (char_digit c)) 0 (takeWhile is_digit s)"

definition atoi :: "string \<Rightarrow> int" where
  "atoi s =
     (case dropWhile is_space s of
        [] \<Rightarrow> 0
      | c # cs \<Rightarrow> if c = CHR ''-'' then clamp_int (- leading_digits cs)
                  else if c = CHR ''+'' then clamp_int (leading_digits cs)
                  else clamp_int (leading_digits (c # cs)))"

text \<open>\<open>query\<close> gives the values of the query string, if there is one.\<close>

definition fetch_limit :: "(string \<Rightarrow> string option) \<Rightarrow> int" where
  "fetch_limit query =
     (case query ''limit'' of
        None \<Rightarrow> LOG_FETCH_DEFAULT_LIMIT
      | Some v \<Rightarrow> if 0 < atoi v \<and> atoi v \<le> LOG_FETCH_MAX_LIMIT then atoi v else LOG_FETCH_DEFAULT_LIMIT)"

definition level_filter :: "(string \<Rightarrow> string option) \<Rightarrow> string" where
  "level_filter query = (case query ''level'' of None \<Rightarrow> [] | Some v \<Rightarrow> strncpy_z 16 v)"

text \<open>A piece that does not fit in front of the end of the buffer is skipped.\<close>

definition append_fit :: "string \<Rightarrow> string \<Rightarrow> string" where
  "append_fit piece buf = (if length buf + length piece < MAX_RSP_SIZE then buf @ piece else buf)"

definition msg_pieces :: "string \<Rightarrow> string list" where
  "msg_pieces msg = map (\<lambda>c.
     if c = backslash then [backslash, backslash]
     else if c = quote then [backslash, quote]
     else if c = CHR 0x0A then [backslash, CHR ''n'']
     else if c = CHR 0x0D then [backslash, CHR ''r'']
     else if c = CHR 0x09 then [backslash, CHR ''t'']
     else [c]) (c_string msg)"

definition entry_pieces :: "LogEntry \<Rightarrow> string list" where
  "entry_pieces e =
     [''{'', jkey ''level'' @ [quote], le_level e, quote # '','' @ jkey ''msg'' @ [quote]]
     @ msg_pieces (le_message e) @ [[quote], ''}'']"

fun entries_pieces :: "LogEntry list \<Rightarrow> string list" where
  "entries_pieces [] = []"
| "entries_pieces [e] = entry_pieces e"
| "entries_pieces (e # es) = entry_pieces e @ ['',''] @ entries_pieces es"

definition logs_pieces :: "LogEntry list \<Rightarrow> string list" where
  "logs_pieces es =
     [''{'' @ jkey ''entries'', ''[''] @ entries_pieces es
     @ ['']'', '','' @ jkey ''count'', nat_str (length es), ''}'']"

text \<open>The entries are fetched into an array of 50.\<close>

definition LOG_ENTRIES_ARRAY :: nat where "LOG_ENTRIES_ARRAY = 50"

definition api_logs_handler :: "LogBuffer \<Rightarrow> (string \<Rightarrow> string option) \<Rightarrow> reply outcome" where
  "api_logs_handler lb query =
     (let entries = lb_fetch lb (nat (fetch_limit query)) (level_filter query)
      in if length entries > LOG_ENTRIES_ARRAY then None
         else Some (sent_json True HTTP_200 (fold append_fit (logs_pieces entries) [])))"

text \<open>The download: one line per entry while four bytes are left; the last line may be cut.\<close>

fun download_lines :: "LogEntry list \<Rightarrow> string \<Rightarrow> string" where
  "download_lines [] buf = buf"
| "download_lines (e # es) buf =
     (let remaining = MAX_RSP_SIZE - length buf
      in if remaining < 4 then buf
         else download_lines es (buf @ fst (snprintf remaining (''['' @ le_level e @ ''] '' @ le_message e @ [CHR 0x0A]))))"

definition api_logs_download_handler :: "LogBuffer \<Rightarrow> reply" where
  "api_logs_download_handler lb =
     (let text = download_lines (lb_fetch lb 20 []) []
      in \<lparr>rp_ok = True, rp_status = HTTP_200, rp_type = ''text/plain'',
          rp_body = (if text = [] then ''No logs available'' else text)\<rparr>)"

subsection \<open>Settings\<close>

definition api_nvs_status_handler :: "'w nvs_api \<Rightarrow> 'w store \<Rightarrow> reply \<times> 'w store" where
  "api_nvs_status_handler api st =
     (let (valid, w1) = nvs_open api NS_CAL False (st_flash st);
          cal = (valid \<and> (case getF32 api NS_CAL K_SPM w1 of Inr (Some _) \<Rightarrow> True | _ \<Rightarrow> False));
          (valid2, w2) = nvs_open api NS_ADC False w1;
          ((aX1000, b), st3) = (if valid2 then adcCalibrationRead api (st\<lparr>st_flash := w2\<rparr>) else ((0, 0), st\<lparr>st_flash := w2\<rparr>));
          adc = (valid2 \<and> (aX1000 \<noteq> 0 \<or> b \<noteq> 0));
          (t, n) = snprintf MAX_RSP_SIZE (''{'' @ jkey ''burette_cal'' @ flag_text cal @ '','' @ jkey ''adc_cal''
                     @ flag_text adc @ ''}'')
      in (sent_json True HTTP_200 (take n t), st3))"


subsection \<open>The log request\<close>

lemma append_fit_bound: "length buf < MAX_RSP_SIZE \<Longrightarrow> length (fold append_fit ps buf) < MAX_RSP_SIZE"
  by (induction ps arbitrary: buf) (auto simp: append_fit_def)

lemma append_fit_all: "length buf + length (concat ps) < MAX_RSP_SIZE \<Longrightarrow> fold append_fit ps buf = buf @ concat ps"
  by (induction ps arbitrary: buf) (auto simp: append_fit_def)

lemma append_fit_complete:
  "fold append_fit ps [] = concat ps \<longleftrightarrow> length (concat ps) < MAX_RSP_SIZE"
proof
  assume "fold append_fit ps [] = concat ps"
  moreover have "length (fold append_fit ps []) < MAX_RSP_SIZE" by (rule append_fit_bound) (simp add: MAX_RSP_SIZE_def)
  ultimately show "length (concat ps) < MAX_RSP_SIZE" by simp
qed (simp add: append_fit_all)

lemma fetch_limit_range: "0 < fetch_limit query" "fetch_limit query \<le> 100"
  by (auto simp: fetch_limit_def LOG_FETCH_DEFAULT_LIMIT_def LOG_FETCH_MAX_LIMIT_def split: option.split)

text \<open>The entries a log request selects: the newest of the requested level, up to the limit.\<close>

definition selected :: "LogBuffer \<Rightarrow> (string \<Rightarrow> string option) \<Rightarrow> LogEntry list" where
  "selected lb query =
     take (nat (fetch_limit query)) (filter (\<lambda>e. level_filter query = [] \<or> le_level e = level_filter query) (log_recent lb))"

text \<open>C17.  A request for the log stays inside its array of entries exactly when at most 50 are selected,
  although the limit accepts up to 100 and the log holds up to 1000; then the reply fits its
  buffer, and it is the complete document exactly when the document is shorter than the buffer:
  otherwise pieces of it are missing.\<close>

theorem log_request:
  assumes "lb_inv n lb"
  shows "case api_logs_handler lb query of
      None \<Rightarrow> 50 < length (selected lb query)
    | Some rep \<Rightarrow> length (selected lb query) \<le> 50 \<and> length (rp_body rep) < MAX_RSP_SIZE
        \<and> (rp_body rep = concat (logs_pieces (selected lb query))
           \<longleftrightarrow> length (concat (logs_pieces (selected lb query))) < MAX_RSP_SIZE)"
  using append_fit_bound [of "[]" "logs_pieces (selected lb query)"]
    append_fit_complete [of "logs_pieces (selected lb query)"]
  by (auto simp: api_logs_handler_def lb_fetch_recent [OF assms] selected_def [symmetric] LOG_ENTRIES_ARRAY_def
      MAX_RSP_SIZE_def sent_json_def Let_def)

definition log_of :: "nat \<Rightarrow> LogBuffer" where
  "log_of k = fold (\<lambda>i lb. lb_push True \<lparr>le_timestampMs = 1, le_level = ''INFO'', le_message = ''I''\<rparr> lb) [0 ..< k]
     (lb_init LOG_BUF_ENTRIES lb_new)"

definition many :: "string \<Rightarrow> string option" where
  "many key = (if key = ''limit'' then Some ''100'' else None)"

lemma atoi_100: "atoi ''100'' = 100"
  by (simp add: atoi_def is_space_def leading_digits_def is_digit_def char_digit_def clamp_int_def)

lemma many_limit: "fetch_limit many = 100" "level_filter many = []"
  by (simp_all add: fetch_limit_def many_def atoi_100 LOG_FETCH_MAX_LIMIT_def level_filter_def)

lemma log_of_inv:
  "k \<le> 1000 \<Longrightarrow> lb_inv k (log_of k) \<and> length (log_recent (log_of k)) = k"
proof (induction k)
  case 0
  then show ?case using lb_init_inv by (simp add: log_of_def log_recent_def newest_def lb_init_def lb_new_def)
next
  case (Suc k)
  then have ih: "lb_inv k (log_of k)" "length (log_recent (log_of k)) = k" by simp_all
  have s: "log_of (Suc k) = lb_push True \<lparr>le_timestampMs = 1, le_level = ''INFO'', le_message = ''I''\<rparr> (log_of k)"
    by (simp add: log_of_def)
  have k: "Suc k < 2 ^ 31" using Suc.prems by simp
  have "lb_inv (Suc k) (log_of (Suc k))" unfolding s
    by (rule lb_push_inv [OF ih(1) k]) (simp add: entry_ok_def)
  moreover have "log_recent (log_of (Suc k)) = take LOG_BUF_ENTRIES
      (stored_entry \<lparr>le_timestampMs = 1, le_level = ''INFO'', le_message = ''I''\<rparr> # log_recent (log_of k))"
    unfolding s by (rule log_recent_push [OF ih(1) k])
  ultimately show ?case using ih(2) Suc.prems by (simp add: LOG_BUF_ENTRIES_def)
qed

text \<open>With 51 entries in the log, a request with the limit 100 overruns the array.\<close>

theorem log_request_witness: "api_logs_handler (log_of 51) many = None"
proof -
  have i: "lb_inv 51 (log_of 51)" and len: "length (log_recent (log_of 51)) = 51" using log_of_inv [of 51] by simp_all
  have "length (selected (log_of 51) many) = 51" by (simp add: selected_def many_limit len)
  then show ?thesis using log_request [OF i, of many] by (cases "api_logs_handler (log_of 51) many") simp_all
qed


subsection \<open>The table of sessions\<close>

datatype ws_op = Ws_Frame int http_method ws_frame | Ws_Broadcast string

fun ws_run :: "'h ws_env \<Rightarrow> ws_op list \<Rightarrow> 'h HttpServer \<Rightarrow> 'h HttpServer" where
  "ws_run env [] hs = hs"
| "ws_run env (Ws_Frame fd meth frame # ops) hs = ws_run env ops (snd (ws_handler True fd meth frame hs))"
| "ws_run env (Ws_Broadcast data # ops) hs = ws_run env ops (broadcastWsEvent env data hs)"

text \<open>The sockets that are tracked.\<close>

definition tracked :: "int list \<Rightarrow> int list" where
  "tracked ss = filter (\<lambda>s. 0 \<le> s) ss"

definition table_ok :: "int list \<Rightarrow> bool" where
  "table_ok ss \<longleftrightarrow> length ss = WS_MAX_SESSIONS \<and> distinct (tracked ss)"

lemma length_addSession [simp]: "length (addSession fd ss) = length ss"
  by (induction ss) simp_all

lemma length_removeSession [simp]: "length (removeSession fd ss) = length ss"
  by (induction ss) simp_all

lemma addSession_set: "0 \<le> fd \<Longrightarrow> set (tracked (addSession fd ss))
    = (if \<exists>s \<in> set ss. s < 0 then insert fd (set (tracked ss)) else set (tracked ss))"
proof (induction ss)
  case (Cons s ss)
  show ?case
  proof (cases "s < 0")
    case True
    then show ?thesis using Cons.prems by (simp add: tracked_def)
  next
    case False
    then have "tracked (addSession fd (s # ss)) = s # tracked (addSession fd ss)" "tracked (s # ss) = s # tracked ss"
      "(\<exists>x \<in> set (s # ss). x < 0) \<longleftrightarrow> (\<exists>x \<in> set ss. x < 0)" by (simp_all add: tracked_def)
    then show ?thesis using Cons.IH [OF Cons.prems] by (simp add: insert_commute)
  qed
qed (simp add: tracked_def)

lemma addSession_distinct:
  "0 \<le> fd \<Longrightarrow> fd \<notin> set ss \<Longrightarrow> distinct (tracked ss) \<Longrightarrow> distinct (tracked (addSession fd ss))"
proof (induction ss)
  case (Cons s ss)
  have "s \<notin> set (tracked (addSession fd ss))" if "\<not> s < 0" "s \<notin> set (tracked ss)"
    using addSession_set [OF Cons.prems(1), of ss] that Cons.prems(2) by (auto split: if_splits)
  then show ?case using Cons by (auto simp: tracked_def)
qed (simp add: tracked_def)

lemma in_removeSession: "x \<in> set (removeSession fd ss) \<Longrightarrow> 0 \<le> x \<Longrightarrow> x \<in> set ss"
  by (induction ss) (auto simp: WS_FD_INVALID_def split: if_splits)

lemma removeSession_distinct: "distinct (tracked ss) \<Longrightarrow> distinct (tracked (removeSession fd ss))"
proof (induction ss)
  case (Cons s ss)
  then show ?case using in_removeSession [of s fd ss] by (auto simp: tracked_def WS_FD_INVALID_def)
qed (simp add: tracked_def)

lemma send_all_table:
  "fst (send_all env data fds h) = r \<Longrightarrow> length r = length fds \<and> set (tracked r) \<subseteq> set (tracked fds)
     \<and> (distinct (tracked fds) \<longrightarrow> distinct (tracked r))"
proof (induction fds arbitrary: h r)
  case (Cons fd fds)
  obtain h' fd' where r: "r = fd' # fst (send_all env data fds h')" "fd' = fd \<or> fd' = WS_FD_INVALID"
    using Cons.prems by (auto simp: case_prod_beta Let_def split: if_splits ws_client.splits)
  then show ?case using Cons.IH [OF refl, of h'] by (auto simp: tracked_def WS_FD_INVALID_def)
qed (simp add: tracked_def)

lemma table_ok_handler: "table_ok (hs_sessions hs) \<Longrightarrow> table_ok (hs_sessions (snd (ws_handler True fd meth frame hs)))"
  by (auto simp: table_ok_def ws_handler_def removeWsSession_def findSession_def Let_def
      intro!: addSession_distinct removeSession_distinct split: ws_frame.splits)

lemma table_ok_broadcast: "table_ok (hs_sessions hs) \<Longrightarrow> table_ok (hs_sessions (broadcastWsEvent env data hs))"
  using send_all_table [OF refl, of env data "hs_sessions hs" "hs_srv hs"]
  by (auto simp: table_ok_def broadcastWsEvent_def case_prod_beta Let_def)

lemma table_ok_run: "table_ok (hs_sessions hs) \<Longrightarrow> table_ok (hs_sessions (ws_run env ops hs))"
  by (induction env ops hs rule: ws_run.induct) (simp_all add: table_ok_handler table_ok_broadcast)



subsection \<open>Events\<close>

text \<open>A socket on which frames can be sent, whatever the state of the server.\<close>

definition ws_open :: "'h ws_env \<Rightarrow> int \<Rightarrow> bool" where
  "ws_open env fd \<longleftrightarrow> (\<forall>h data. we_fd_info env fd h = WS_CLIENT_WEBSOCKET \<and> fst (we_send env fd data h))"

lemma send_all_open:
  "(\<forall>fd \<in> set (tracked fds). ws_open env fd) \<Longrightarrow>
    \<exists>h'. send_all env data fds h = (fds, h', map (\<lambda>fd. (fd, data)) (tracked fds))"
proof (induction fds arbitrary: h)
  case (Cons fd fds)
  have ih: "\<exists>h'. send_all env data fds h = (fds, h', map (\<lambda>fd. (fd, data)) (tracked fds))" for h
    using Cons.IH [of h] Cons.prems by (auto simp: tracked_def split: if_splits)
  show ?case
  proof (cases "fd < 0")
    case True
    then show ?thesis using ih [of h] by (auto simp: tracked_def)
  next
    case False
    then have "ws_open env fd" using Cons.prems by (simp add: tracked_def)
    then have i: "we_fd_info env fd h = WS_CLIENT_WEBSOCKET" "fst (we_send env fd data h)" by (auto simp: ws_open_def)
    obtain h1 where "we_send env fd data h = (True, h1)" using i(2) by (cases "we_send env fd data h") auto
    then show ?thesis using ih [of h1] i(1) False by (auto simp: tracked_def)
  qed
qed (simp add: tracked_def)

lemma broadcast_open:
  assumes "hs_handle hs" "data \<noteq> []" "\<forall>fd \<in> set (tracked (hs_sessions hs)). ws_open env fd"
  shows "hs_frames (broadcastWsEvent env data hs) = hs_frames hs @ map (\<lambda>fd. (fd, data)) (tracked (hs_sessions hs))
    \<and> hs_sessions (broadcastWsEvent env data hs) = hs_sessions hs \<and> hs_handle (broadcastWsEvent env data hs)"
proof (cases "\<forall>s \<in> set (hs_sessions hs). s < 0")
  case True
  then have "tracked (hs_sessions hs) = []" by (auto simp: tracked_def filter_empty_conv)
  then show ?thesis using True assms(1) by (simp add: broadcastWsEvent_def)
next
  case False
  obtain h' where "send_all env data (hs_sessions hs) (hs_srv hs)
      = (hs_sessions hs, h', map (\<lambda>fd. (fd, data)) (tracked (hs_sessions hs)))"
    using send_all_open [OF assms(3)] by blast
  then have "broadcastWsEvent env data hs = hs\<lparr>hs_sessions := hs_sessions hs, hs_srv := h',
      hs_frames := hs_frames hs @ map (\<lambda>fd. (fd, data)) (tracked (hs_sessions hs))\<rparr>"
    unfolding broadcastWsEvent_def using False assms(1,2) by (simp only: if_False if_not_P Let_def) auto
  then show ?thesis using assms(1) by simp
qed


subsection \<open>The status reply\<close>

lemma length_u16: "length (nat_str (unat (w :: u16))) \<le> 10"
  by (rule length_digits) (use unsigned_less [of w, where ?'a = nat] in simp)

lemma length_byte: "length (nat_str (unat (drop_bit k (w :: u32) AND 0xFF))) \<le> 3"
proof (rule length_nat_str_le)
  have "drop_bit k w AND 0xFF \<le> 0xFF" by (rule word_and_le1)
  then show "unat (drop_bit k w AND 0xFF) < 10 ^ 3" by (simp add: word_le_nat_alt)
qed simp

lemma ip_text_short: "length (ipToStr ip 16) \<le> 15"
  by (simp add: ipToStr_def snprintf_def)

lemma ip_text_complete: "ipToStr ip 16 = ip_byte ip 0 @ ''.'' @ ip_byte ip 1 @ ''.'' @ ip_byte ip 2 @ ''.'' @ ip_byte ip 3"
proof -
  have "length (ip_byte ip i) \<le> 3" for i by (simp add: ip_byte_def length_byte)
  from this [of 0] this [of 1] this [of 2] this [of 3] show ?thesis
    by (simp add: ipToStr_def snprintf_def)
qed

text \<open>The status reply is one complete document, whatever the values it reports, and names the
  fallback address whatever address the station has: the route that reaches its handler does not
  hand over the server.\<close>

theorem status_reply_complete:
  assumes "fp_ok f32 (gVolumeMl s)" "fp_ok f32 (gSpeedMlMin s)"
    and "r \<in> set (registerRoutes True)" "ro_handler r = H_status"
  shows "api_status_handler (status_ip (ro_ctx r) hasWifi staIp) tick s
    = Some (sent_json True HTTP_200 (api_status_text ''192.168.4.1'' tick s))"
proof -
  have ip: "status_ip (ro_ctx r) hasWifi staIp = ''192.168.4.1''"
    using assms(3,4) by (auto simp: registerRoutes_def get_route_def status_ip_def)
  define t where "t = api_status_text ''192.168.4.1'' tick s"
  define c where "c = (if sint (gTempCX100 s) > - 99999 then f_div f32 (f_of_int f32 (sint (gTempCX100 s))) (f32_lit 100 1)
      else fp_zero f32 False)"
  have "fp_ok f32 c" by (simp add: c_def)
  then have f: "length (fmt_fixed 1 c) \<le> 60" "length (fmt_fixed 2 (gVolumeMl s)) \<le> 60"
    "length (fmt_fixed 2 (gSpeedMlMin s)) \<le> 60"
    using length_fmt_fixed assms(1,2) by auto
  have "length t \<le> 500 \<and> t \<noteq> []"
    using f length_u32 [of tick] length_u16 [of "gLastMv s"]
      length_small_texts(1) [of "- 99999 < sint (gTempCX100 s)"]
    unfolding t_def api_status_text_def Let_def c_def [symmetric]
    by (simp add: length_jkey length_quoted position_str_def)
  then show ?thesis
    by (simp add: ip api_status_handler_def t_def [symmetric] snprintf_def MAX_RSP_SIZE_def Let_def)
qed

theorem status_reply_complete_witness:
  "\<exists>text. api_status_handler (status_ip (ro_ctx (get_route ''/api/status'' H_status)) True (Some 0x0A00000A)) 7 globals_init
    = Some (sent_json True HTTP_200 text)"
proof -
  have m: "get_route ''/api/status'' H_status \<in> set (registerRoutes True)"
    and h: "ro_handler (get_route ''/api/status'' H_status) = H_status"
    by (simp_all add: registerRoutes_def get_route_def)
  have ok: "fp_ok f32 (gVolumeMl globals_init)" "fp_ok f32 (gSpeedMlMin globals_init)"
    by (simp_all add: globals_init_def DEFAULT_VOLUME_ML_def)
  show ?thesis by (rule exI, rule status_reply_complete [OF ok m h])
qed

text \<open>All routes fit the table of the server, and no two of them are for the same request.\<close>

lemma routes_fit:
  "length (registerRoutes True) \<le> hc_max_uri_handlers buildHttpdConfig"
  "distinct (map (\<lambda>r. (ro_uri r, ro_method r)) (registerRoutes True))"
  by (simp_all add: registerRoutes_def get_route_def buildHttpdConfig_def)

text \<open>Every route to a file has one.\<close>

lemma file_routes_served:
  assumes "r \<in> set (registerRoutes True)" "ro_handler r = H_file \<or> ro_handler r = H_root \<or> ro_handler r = H_wifi_page"
    and "length pages = length FILE_PATHS" "\<forall>p \<in> set pages. p \<noteq> []"
  shows "getFile pages (ro_uri r) \<noteq> []"
proof -
  have "ro_uri r \<in> set FILE_PATHS"
    using assms(1,2) by (auto simp: registerRoutes_def get_route_def FILE_PATHS_def)
  then obtain c where "map_of (zip FILE_PATHS pages) (ro_uri r) = Some c"
    using assms(3) by (metis map_of_zip_is_Some)
  moreover from this have "c \<in> set pages" by (meson map_of_SomeD set_zip_rightD)
  ultimately show ?thesis using assms(4) by (simp add: getFile_def)
qed

text \<open>An empty flash is reported as holding a calibration of the converter.\<close>

lemma absent_adc_calibration_reported:
  "rp_body (fst (api_nvs_status_handler ref_nvs ref_store))
    = ''{'' @ jkey ''burette_cal'' @ ''false,'' @ jkey ''adc_cal'' @ ''true}''"
  by (simp add: api_nvs_status_handler_def ref_nvs_def ref_store_def getF32_def getU32_def getI32_def
      adcCalibrationRead_def typed_get_def sent_json_def flag_text_def snprintf_def jkey_def quoted_def MAX_RSP_SIZE_def)

end
