(* ===== verification/Net_Owner.thy ===== *)
theory Net_Owner
  imports Http_Server Diagnostics
begin

text \<open>
  The network task (\<^verbatim>\<open>main/net_owner.cpp\<close>): it starts WiFi, the HTTP server and BLE, then serves
  three queues: log events and broadcasts, which go to every WebSocket session, and requests to
  join a network, after which the device restarts.
\<close>

declare One_nat_def [simp del]

subsection \<open>State\<close>

record ('d, 'w, 'h) net_state =
  ns_wifi :: "('d, 'w) wifi"
  ns_http :: "'h HttpServer"
  ns_serving :: bool
  ns_routes :: "route list"
  ns_logCallback :: bool
  ns_ble :: "BleManager option"
  ns_notifyThread :: bool
  ns_sendQ :: "string list option"
  ns_bcastQ :: "string list option"
  ns_cmdQ :: "(string \<times> string) list option"
  ns_threads :: "nat thread list"
  ns_deleted :: bool
  ns_restarted :: bool

text \<open>The environment: the WiFi driver, the server library, and the outcomes of the boot calls.\<close>

record ('d, 'w, 'h) net_env =
  ne_wifi :: "('d, 'w) wifi_env"
  ne_ws :: "'h ws_env"
  ne_freeHeap :: nat
  ne_start :: "httpd_config \<Rightarrow> bool"
  ne_ble :: ble_boot
  ne_self :: nat
  ne_find_wifi :: "nat \<Rightarrow> nat option"
  ne_queues :: "bool \<times> bool \<times> bool"
  ne_worker :: "nat option"

definition net_new :: "'w \<Rightarrow> 'd \<Rightarrow> 'h \<Rightarrow> BleManager option \<Rightarrow> ('d, 'w, 'h) net_state" where
  "net_new flash drv srv ble =
     \<lparr>ns_wifi = wifi_new flash drv, ns_http = http_new srv, ns_serving = False, ns_routes = [],
      ns_logCallback = False, ns_ble = ble, ns_notifyThread = False, ns_sendQ = None, ns_bcastQ = None,
      ns_cmdQ = None, ns_threads = [], ns_deleted = False, ns_restarted = False\<rparr>"

subsection \<open>Start\<close>

text \<open>WiFi: the driver, then a saved network, then the access point.  \<^term>\<open>None\<close> is the fatal case.\<close>

definition initWiFi :: "('d, 'w) wifi_env \<Rightarrow> ('d, 'w) wifi \<Rightarrow> bool option \<times> ('d, 'w) wifi" where
  "initWiFi env m =
     (let (r, m1) = wifi_init env m
      in case r of
           Inl _ \<Rightarrow> (None, m1)
         | Inr _ \<Rightarrow> (let (sta, m2) = tryStartSTA env m1
                     in (Some sta, if \<not> sta then startAP env m2 else m2)))"

definition initHttpServer :: "('d, 'w, 'h) net_env \<Rightarrow> ('d, 'w, 'h) net_state \<Rightarrow> ('d, 'w, 'h) net_state" where
  "initHttpServer env n =
     (let (r, hs) = http_init (ne_freeHeap env) (ne_start env) ((ns_http n)\<lparr>hs_wifiManager := True\<rparr>)
      in case r of
           Inl _ \<Rightarrow> n\<lparr>ns_http := hs\<rparr>
         | Inr _ \<Rightarrow> n\<lparr>ns_http := hs, ns_routes := registerRoutes (hs_handle hs), ns_serving := True, ns_logCallback := True\<rparr>)"

definition initBle :: "('d, 'w, 'h) net_env \<Rightarrow> ('d, 'w, 'h) net_state \<Rightarrow> ('d, 'w, 'h) net_state" where
  "initBle env n =
     (case ns_ble n of
        None \<Rightarrow> n
      | Some b \<Rightarrow> (let (r, b1) = ble_init (ne_ble env) b
                  in n\<lparr>ns_ble := Some b1, ns_notifyThread := (case r of Inr _ \<Rightarrow> True | Inl _ \<Rightarrow> ns_notifyThread n)\<rparr>))"

definition netInitPhase :: "('d, 'w, 'h) net_env \<Rightarrow> ('d, 'w, 'h) net_state \<Rightarrow> ('d, 'w, 'h) net_state" where
  "netInitPhase env n =
     (let n1 = n\<lparr>ns_threads := registerThread (ne_self env) ''net_owner'' 20480 (ns_threads n)\<rparr>;
          (r, m) = initWiFi (ne_wifi env) (ns_wifi n1);
          n2 = n1\<lparr>ns_wifi := m\<rparr>
      in case r of
           None \<Rightarrow> n2\<lparr>ns_deleted := True\<rparr>
         | Some sta \<Rightarrow>
             let n3 = initBle env (initHttpServer env n2)
             in n3\<lparr>ns_threads := fst (registerLazyTasks (ne_find_wifi env) (ns_threads n3))\<rparr>)"

definition new_queue :: "bool \<Rightarrow> 'a list option" where
  "new_queue ok = (if ok then Some [] else None)"

definition createNetQueues :: "('d, 'w, 'h) net_env \<Rightarrow> ('d, 'w, 'h) net_state \<Rightarrow> ('d, 'w, 'h) net_state" where
  "createNetQueues env n =
     (let (a, b, c) = ne_queues env
      in n\<lparr>ns_sendQ := new_queue a, ns_bcastQ := new_queue b, ns_cmdQ := new_queue c\<rparr>)"

definition startLogWorker :: "('d, 'w, 'h) net_env \<Rightarrow> ('d, 'w, 'h) net_state \<Rightarrow> ('d, 'w, 'h) net_state" where
  "startLogWorker env n =
     (case ne_worker env of
        None \<Rightarrow> n
      | Some h \<Rightarrow> n\<lparr>ns_threads := registerByHandle h ''log_worker'' 16384 (ns_threads n)\<rparr>)"

text \<open>The task up to its loop.\<close>

definition net_boot :: "('d, 'w, 'h) net_env \<Rightarrow> ('d, 'w, 'h) net_state \<Rightarrow> ('d, 'w, 'h) net_state" where
  "net_boot env n =
     (let n1 = netInitPhase env n
      in if ns_deleted n1 then n1 else startLogWorker env (createNetQueues env n1))"

subsection \<open>The loop\<close>

definition drain :: "'h ws_env \<Rightarrow> string list option \<Rightarrow> 'h HttpServer \<Rightarrow> string list option \<times> 'h HttpServer" where
  "drain env q hs = (case q of None \<Rightarrow> (None, hs) | Some es \<Rightarrow> (Some [], fold (broadcastWsEvent env) es hs))"

definition drainWsSendQueue :: "('d, 'w, 'h) net_env \<Rightarrow> ('d, 'w, 'h) net_state \<Rightarrow> ('d, 'w, 'h) net_state" where
  "drainWsSendQueue env n =
     (let (q, hs) = drain (ne_ws env) (ns_sendQ n) (ns_http n) in n\<lparr>ns_sendQ := q, ns_http := hs\<rparr>)"

definition drainWsBroadcastQueue :: "('d, 'w, 'h) net_env \<Rightarrow> ('d, 'w, 'h) net_state \<Rightarrow> ('d, 'w, 'h) net_state" where
  "drainWsBroadcastQueue env n =
     (let (q, hs) = drain (ne_ws env) (ns_bcastQ n) (ns_http n) in n\<lparr>ns_bcastQ := q, ns_http := hs\<rparr>)"

definition connect_result :: "bool \<Rightarrow> string \<Rightarrow> string" where
  "connect_result joined ssid =
     ''{'' @ jkey ''event'' @ quoted ''wifi_connect_result'' @ '','' @ jkey ''success'' @ flag_text joined
     @ '','' @ jkey ''ssid'' @ quoted ssid @ ''}''"

definition push_result :: "string \<Rightarrow> ('d, 'w, 'h) net_state \<Rightarrow> ('d, 'w, 'h) net_state" where
  "push_result text n =
     (if 0 < length text \<and> length text < MAX_RSP_SIZE
      then n\<lparr>ns_bcastQ := snd (xQueueSend WS_BROADCAST_QUEUE_DEPTH text (ns_bcastQ n))\<rparr> else n)"

definition handleWifiConnectCommand :: "('d, 'w, 'h) net_env \<Rightarrow> ('d, 'w, 'h) net_state \<Rightarrow> ('d, 'w, 'h) net_state" where
  "handleWifiConnectCommand env n =
     (case xQueueReceive (ns_cmdQ n) of
        (None, _) \<Rightarrow> n
      | (Some (ssid, password), q) \<Rightarrow>
          let (joined, m) = connectSTA (ne_wifi env) ssid password 15000 (ns_wifi n);
              n1 = push_result (connect_result joined ssid) (n\<lparr>ns_cmdQ := q, ns_wifi := m\<rparr>)
          in if joined
             then (if ns_serving n1 then drainWsBroadcastQueue env n1 else n1)\<lparr>ns_restarted := True\<rparr>
             else n1)"

text \<open>One round; \<open>now\<close> and \<open>found\<close> are the clock and the state of the BLE connection.  A restart ends
  the round.\<close>

definition net_iteration ::
  "('d, 'w, 'h) net_env \<Rightarrow> u64 \<Rightarrow> bool \<Rightarrow> ('d, 'w, 'h) net_state \<times> 'g globals_scheme
     \<Rightarrow> ('d, 'w, 'h) net_state \<times> 'g globals_scheme" where
  "net_iteration env now found ng =
     (let (n, g) = ng;
          n1 = (if ns_serving n then drainWsBroadcastQueue env (drainWsSendQueue env n) else n);
          n2 = handleWifiConnectCommand env n1
      in if ns_restarted n2 then (n2, g)
         else
           let n3 = n2\<lparr>ns_wifi := wifi_process (ne_wifi env) (ns_wifi n2)\<rparr>
           in case ns_ble n3 of
                None \<Rightarrow> (n3, g)
              | Some b \<Rightarrow> (let (b1, g1) = ble_process now found b g in (n3\<lparr>ns_ble := Some b1\<rparr>, g1)))"


subsection \<open>Station or access point\<close>

lemma initWiFi_outcome:
  assumes laws: "nvs_laws (we_nvs env) view" "flash_works (we_nvs env)" and drv: "driver_works env"
    and fresh: "\<not> wf_initialized m" and st: "networks_stored (view (wf_flash m)) ns"
  shows "\<exists>sta m'. initWiFi env m = (Some sta, m') \<and> wf_initialized m'
    \<and> (if sta then \<exists>n \<in> set ns. wf_staSsid m' = take 31 (fst n) else wf_apActive m')
    \<and> networks_stored (view (wf_flash m')) ns"
proof -
  define m1 where "m1 = snd (wifi_init env m)"
  define m2 where "m2 = snd (tryStartSTA env m1)"
  define sta where "sta = fst (tryStartSTA env m1)"
  note init = wifi_init_works [OF drv fresh, folded m1_def]
  have st1: "networks_stored (view (wf_flash m1)) ns" using st init(5) by simp
  note out = tryStartSTA_outcome [OF laws st1, folded m2_def sta_def]
  have k: "wf_initialized m2" "wf_apNetif m2" "view (wf_flash m2) = view (wf_flash m1)"
    using out(1) init by (simp_all add: kept_def)
  have flash: "wf_flash (startAP env m2) = wf_flash m2" by (rule startAP_flash)
  have "initWiFi env m = (Some sta, if \<not> sta then startAP env m2 else m2)"
    using init(1) by (simp add: initWiFi_def m1_def m2_def sta_def case_prod_beta Let_def split: sum.split)
  then show ?thesis
    using out(2) k startAP_works [OF drv k(1,2)] st1 flash by auto
qed



subsection \<open>Events reach the clients\<close>

lemma broadcasts_open:
  "hs_handle hs \<Longrightarrow> (\<forall>e \<in> set es. e \<noteq> []) \<Longrightarrow> (\<forall>fd \<in> set (tracked (hs_sessions hs)). ws_open env fd) \<Longrightarrow>
    hs_frames (fold (broadcastWsEvent env) es hs)
      = hs_frames hs @ concat (map (\<lambda>e. map (\<lambda>fd. (fd, e)) (tracked (hs_sessions hs))) es)
    \<and> hs_sessions (fold (broadcastWsEvent env) es hs) = hs_sessions hs \<and> hs_handle (fold (broadcastWsEvent env) es hs)"
proof (induction es arbitrary: hs)
  case (Cons e es)
  have b: "hs_frames (broadcastWsEvent env e hs) = hs_frames hs @ map (\<lambda>fd. (fd, e)) (tracked (hs_sessions hs))
    \<and> hs_sessions (broadcastWsEvent env e hs) = hs_sessions hs \<and> hs_handle (broadcastWsEvent env e hs)"
    by (rule broadcast_open) (use Cons.prems in auto)
  show ?case using Cons.IH [of "broadcastWsEvent env e hs"] Cons.prems b by simp
qed simp



subsection \<open>A request to join a network\<close>

text \<open>A network that lets the station associate whenever it tries.\<close>

definition associates :: "('d, 'w) wifi_env \<Rightarrow> bool" where
  "associates env \<longleftrightarrow> (\<forall>ms d. \<exists>es d'. we_wait env ms d = (STA_CONNECTED # es, d'))"

lemma wait_associates:
  assumes "associates env" "wf_group m = Some (False, False)"
  shows "fst (waitForStaConnection env ms m)"
proof -
  obtain es d' where w: "we_wait env ms (wf_driver m) = (STA_CONNECTED # es, d')"
    using assms(1) unfolding associates_def by blast
  have "fst (until_bits env es (m\<lparr>wf_driver := d', wf_group := Some (True, False)\<rparr>)) = (True, False)"
    by (cases es) simp_all
  then show ?thesis using w assms(2)
    by (simp add: waitForStaConnection_def waitBits_def onStaConnected_def set_connected_bit_def case_prod_beta)
qed

lemma connect_succeeds:
  assumes "driver_works env" "associates env" "wf_initialized m"
  shows "fst (connectSTA env s p ms m)"
proof -
  define m1 where "m1 = snd (ensureStaEventGroup env m)"
  have e: "fst (ensureStaEventGroup env m) = ESP_OK" and g: "wf_group m1 = Some (False, False)"
    using assms(1) by (auto simp: ensureStaEventGroup_def m1_def wcall_eq driver_works_def clear_bits_def)
  define m2 where "m2 = snd (wcall env Wifi_Connect
      ((snd (applyStaConfig env s p m1))\<lparr>wf_staConnecting := True\<rparr>))"
  have "wf_group m2 = Some (False, False)" using g by (simp add: m2_def applyStaConfig_def wcall_eq)
  then have w: "fst (waitForStaConnection env ms m2)" by (rule wait_associates [OF assms(2)])
  have ok: "fst (wcall env c x) = ESP_OK" for c x using assms(1) by (simp add: wcall_eq driver_works_def)
  have "fst (doStaConnectAndSave env ms (snd (applyStaConfig env s p m1)))"
    using w by (simp add: doStaConnectAndSave_def case_prod_beta Let_def ok m2_def [symmetric])
  then have "fst (doStaConnectAndWait env s p ms m1)"
    by (simp add: doStaConnectAndWait_def case_prod_beta Let_def ok applyStaConfig_def)
  then show ?thesis using assms(3) e
    by (simp add: connectSTA_def case_prod_beta Let_def m1_def [symmetric])
qed

lemma no_nul: "CHR 0x00 \<notin> set s \<Longrightarrow> c_string s = s" "CHR 0x00 \<notin> set s \<Longrightarrow> length s < k \<Longrightarrow> strncpy_z k s = s"
proof -
  assume n: "CHR 0x00 \<notin> set s"
  then have t: "takeWhile (\<lambda>c. c \<noteq> CHR 0x00) s = s" by (auto simp: takeWhile_eq_all_conv)
  show "c_string s = s" by (simp add: c_string_def t)
  show "length s < k \<Longrightarrow> strncpy_z k s = s" by (simp add: strncpy_z_def t)
qed

lemma form_no_nul: "CHR 0x00 \<notin> set ssid \<Longrightarrow> CHR 0x00 \<notin> set pass \<Longrightarrow> CHR 0x00 \<notin> set (wifi_form ssid pass)"
  by (simp add: wifi_form_def quoted_def quote_def)

text \<open>C14.  From the form of the captive portal to the flash: a posted name and password that fit, with the
  queue free and a network that lets the station associate, are accepted; the network task joins,
  the flash holds the network as the bounded list of networks keeps it, and the device restarts.\<close>

theorem requested_network_is_saved:
  assumes rq: "received (MAX_CMD_SIZE - 1) req = Some (wifi_form ssid pass)"
    and ssid: "quote \<notin> set ssid" "CHR 0x00 \<notin> set ssid" "length ssid \<le> 31" "ssid \<noteq> ''password''"
    and pass: "quote \<notin> set pass" "CHR 0x00 \<notin> set pass" "length pass \<le> 63"
    and free: "ns_cmdQ n = Some []"
    and laws: "nvs_laws (we_nvs (ne_wifi env)) view" "flash_works (we_nvs (ne_wifi env))" "driver_works (ne_wifi env)"
    and net: "associates (ne_wifi env)" "wf_initialized (ns_wifi n)"
    and st: "networks_stored (view (wf_flash (ns_wifi n))) ns"
    and new: "\<not> (wf_staConnected (ns_wifi n) \<and> wf_staSsid (ns_wifi n) = ssid)"
  shows "let (rep, q) = captive_wifi_connect_handler req (ns_cmdQ n);
             n' = handleWifiConnectCommand env (n\<lparr>ns_cmdQ := q\<rparr>)
         in rp_status rep = HTTP_200 \<and> q = Some [(ssid, pass)] \<and> ns_restarted n' \<and> ns_cmdQ n' = Some []
            \<and> networks_stored (view (wf_flash (ns_wifi n'))) (remember ssid pass ns)
            \<and> (ssid, pass) \<in> set (remember ssid pass ns)"
proof -
  have c: "c_string (wifi_form ssid pass) = wifi_form ssid pass"
    by (rule no_nul(1)) (rule form_no_nul [OF ssid(2) pass(2)])
  have f: "findJsonField (wifi_form ssid pass) (quoted ''ssid'') = Some ssid"
    "findJsonField (wifi_form ssid pass) (quoted ''password'') = Some pass"
    using wifi_form_parsed [OF ssid(1) pass(1)] ssid(4) by simp_all
  have z: "strncpy_z 32 ssid = ssid" "strncpy_z 64 pass = pass" using no_nul(2) ssid pass by auto
  have h: "\<exists>rep. captive_wifi_connect_handler req (ns_cmdQ n) = (rep, Some [(ssid, pass)]) \<and> rp_status rep = HTTP_200"
    by (simp add: captive_wifi_connect_handler_def rq c f z free xQueueSend_def NET_OWNER_CMD_QUEUE_DEPTH_def sent_json_def)
  define r where "r = connectSTA (ne_wifi env) ssid pass 15000 (ns_wifi n)"
  have ok: "fst r" unfolding r_def by (rule connect_succeeds [OF laws(3) net])
  have "networks_stored (view (wf_flash (snd r))) (remember ssid pass ns)"
    using connected_saves [OF laws(1,2) st _ _ new, of pass 15000] ssid(3) pass(3) ok by (simp add: r_def)
  moreover have "ns_restarted (handleWifiConnectCommand env (n\<lparr>ns_cmdQ := Some [(ssid, pass)]\<rparr>))
      \<and> ns_cmdQ (handleWifiConnectCommand env (n\<lparr>ns_cmdQ := Some [(ssid, pass)]\<rparr>)) = Some []
      \<and> ns_wifi (handleWifiConnectCommand env (n\<lparr>ns_cmdQ := Some [(ssid, pass)]\<rparr>)) = snd r"
    using ok by (simp add: handleWifiConnectCommand_def xQueueReceive_def r_def [symmetric] case_prod_beta Let_def
        push_result_def drainWsBroadcastQueue_def)
  ultimately show ?thesis using h remember_facts(2) by auto
qed


subsection \<open>A device\<close>

definition open_ws :: "unit ws_env" where
  "open_ws = \<lparr>we_fd_info = \<lambda>_ _. WS_CLIENT_WEBSOCKET, we_send = \<lambda>_ _ h. (True, h)\<rparr>"

definition ref_net_env :: "(unit, string \<times> string \<Rightarrow> nvs_val option, unit) net_env" where
  "ref_net_env = \<lparr>ne_wifi = ref_env [STA_CONNECTED], ne_ws = open_ws, ne_freeHeap = 100000, ne_start = \<lambda>_. True,
     ne_ble = good_boot, ne_self = 1, ne_find_wifi = \<lambda>_. Some 2, ne_queues = (True, True, True), ne_worker = Some 3\<rparr>"

definition ref_net :: "(unit, string \<times> string \<Rightarrow> nvs_val option, unit) net_state" where
  "ref_net = (net_new (\<lambda>_. None) () () None)\<lparr>ns_wifi := ref_ready, ns_serving := True,
     ns_http := (http_new ())\<lparr>hs_handle := True, hs_sessions := [54, - 1, 55, - 1]\<rparr>,
     ns_sendQ := Some [''a''], ns_bcastQ := Some [''b''], ns_cmdQ := Some []\<rparr>"


theorem requested_network_is_saved_witness:
  "let (rep, q) = captive_wifi_connect_handler
         \<lparr>rq_content_len = 100, rq_recv = \<lambda>n. Some (wifi_form ''lab'' ''secret'')\<rparr> (ns_cmdQ ref_net);
       n' = handleWifiConnectCommand ref_net_env (ref_net\<lparr>ns_cmdQ := q\<rparr>)
   in ns_restarted n' \<and> networks_stored (wf_flash (ns_wifi n')) [(''lab'', ''secret'')]"
proof -
  let ?req = "\<lparr>rq_content_len = 100, rq_recv = \<lambda>n. Some (wifi_form ''lab'' ''secret'')\<rparr>"
  have r: "received (MAX_CMD_SIZE - 1) ?req = Some (wifi_form ''lab'' ''secret'')"
    by (simp add: received_def wifi_form_def)
  have e: "ne_wifi ref_net_env = ref_env [STA_CONNECTED]" by (simp add: ref_net_env_def)
  have a: "associates (ref_env [STA_CONNECTED])" by (simp add: associates_def ref_env_def)
  have w: "ns_wifi ref_net = ref_ready" "ns_cmdQ ref_net = Some []" by (simp_all add: ref_net_def)
  have s: "wf_initialized ref_ready" "\<not> wf_staConnected ref_ready" "networks_stored (wf_flash ref_ready) []"
    by (simp_all add: ref_ready_def wifi_new_def networks_stored_def count_holds_def slots_hold_def)
  show ?thesis
    using requested_network_is_saved [OF r, of ref_net ref_net_env "\<lambda>w. w" "[]"] ref_env_laws [of "[STA_CONNECTED]"] a s
    by (auto simp: e w quote_def remember_def case_prod_beta Let_def)
qed

end
