(* ===== verification/Crash_Report.thy ===== *)
theory Crash_Report
  imports Ring_Buffers Diagnostics
begin

text \<open>
  The crash handler (\<^verbatim>\<open>diag/src/crash_handler.cpp\<close>): the text it prints before it hands over to the
  system's panic handler.  The text is a function of the exception frame, the black box and the
  stack watermarks; the UART it is printed to is not modelled.
\<close>

unbundle bit_operations_syntax
declare One_nat_def [simp del]

subsection \<open>Printing\<close>

text \<open>A line feed is preceded by a carriage return.\<close>

definition panic_puts :: "string \<Rightarrow> string" where
  "panic_puts s = concat (map (\<lambda>c. if c = CHR 0x0A then [CHR 0x0D, c] else [c]) s)"

text \<open>The digits are written backwards into a buffer of 16 bytes, which the ten of 32 bits do not fill.\<close>

definition panic_print_uint :: "u32 \<Rightarrow> string" where
  "panic_print_uint v = panic_puts (if v = 0 then ''0'' else fmt_loop 15 (ucast v) [])"

definition nibble_char :: "nat \<Rightarrow> char" where
  "nibble_char n = ''0123456789abcdef'' ! n"

fun hex_loop :: "nat \<Rightarrow> u32 \<Rightarrow> string \<Rightarrow> string" where
  "hex_loop 0 addr buf = buf"
| "hex_loop (Suc k) addr buf = hex_loop k (drop_bit 4 addr) (nibble_char (unat (addr AND 0xF)) # buf)"

definition hex_addr :: "u32 \<Rightarrow> string" where
  "hex_addr addr = ''0x'' @ hex_loop 8 addr []"

definition panic_print_hex_addr :: "u32 \<Rightarrow> string" where
  "panic_print_hex_addr addr = panic_puts (hex_addr addr)"

subsection \<open>The report\<close>

record panic_frame =
  pf_cause :: u32
  pf_reason :: "string option"
  pf_pc :: u32
  pf_excvaddr :: u32
  pf_ps :: u32
  pf_a :: "nat \<Rightarrow> u32"

definition crash_summary :: "panic_frame \<Rightarrow> string" where
  "crash_summary f =
     panic_puts (CHR 0x0A # ''=== CRASH ==='' @ [CHR 0x0A])
     @ panic_puts ''exccause='' @ panic_print_uint (pf_cause f)
     @ panic_puts '' name='' @ panic_puts (case pf_reason f of Some r \<Rightarrow> r | None \<Rightarrow> ''unknown'')
     @ panic_puts '' pc='' @ panic_print_hex_addr (pf_pc f)
     @ panic_puts '' excvaddr='' @ panic_print_hex_addr (pf_excvaddr f)
     @ panic_puts '' ps='' @ panic_print_hex_addr (pf_ps f)
     @ panic_puts '' sp='' @ panic_print_hex_addr (pf_a f 1) @ panic_puts [CHR 0x0A]"

text \<open>Four registers per line; every value is printed with the prefix of its label and its own.\<close>

definition register_text :: "panic_frame \<Rightarrow> nat \<Rightarrow> string" where
  "register_text f i =
     panic_puts ((if i mod 4 = 0 then [] else ''  '') @ ''a'' @ nat_str i @ ''=0x'') @ panic_print_hex_addr (pf_a f i)
     @ (if i mod 4 = 3 then panic_puts [CHR 0x0A] else [])"

definition crash_registers :: "panic_frame \<Rightarrow> string" where
  "crash_registers f =
     panic_puts (''=== REGISTERS ==='' @ [CHR 0x0A]) @ concat (map (register_text f) [0 ..< 16])"

definition panic_handler :: "panic_frame \<Rightarrow> BlackBoxRing \<Rightarrow> ('h \<Rightarrow> u32) \<Rightarrow> 'h thread list \<Rightarrow> string" where
  "panic_handler f bb watermark ts =
     crash_summary f @ crash_registers f
     @ panic_puts (''=== BLACK BOX ==='' @ [CHR 0x0A]) @ panic_puts (dump_write bb)
     @ panic_puts (''=== STACK ==='' @ [CHR 0x0A]) @ concat (map panic_puts (logAllWatermarks watermark ts))
     @ panic_puts (''!!! EXCEPTION END !!!'' @ [CHR 0x0A])"

subsection \<open>Addresses are printed exactly\<close>

definition nibble_value :: "char \<Rightarrow> nat" where
  "nibble_value c = (if is_digit c then char_digit c else of_char c - 87)"

definition hex_value :: "nat \<Rightarrow> string \<Rightarrow> nat" where
  "hex_value v s = foldl (\<lambda>v c. 16 * v + nibble_value c) v s"

lemma less_16_cases: "n < 16 \<Longrightarrow> n \<in> {0, 1, 2, 3, 4, 5, 6, 7, 8, 9, 10, 11, 12, 13, 14, 15::nat}"
  unfolding insert_iff empty_iff by presburger

lemma nibble_value_char [simp]: "n < 16 \<Longrightarrow> nibble_value (nibble_char n) = n"
  by (drule less_16_cases) (auto simp: nibble_char_def nibble_value_def is_digit_def char_digit_def)

lemma nibble_no_lf: "n < 16 \<Longrightarrow> nibble_char n \<noteq> CHR 0x0A"
  by (drule less_16_cases) (auto simp: nibble_char_def)

lemma unat_nibble: "unat (a AND 0xF :: u32) = unat a mod 16"
proof -
  have "a AND 0xF = take_bit 4 a" by (simp add: take_bit_eq_mask mask_eq_exp_minus_1)
  then have "unat (a AND 0xF) = take_bit 4 (unat a)" by (simp only: unsigned_take_bit_eq)
  then show ?thesis by (simp add: take_bit_eq_mod)
qed

lemma hex_loop_value: "hex_value v (hex_loop k a buf) = hex_value (v * 16 ^ k + unat a mod 16 ^ k) buf"
proof (induction k arbitrary: a buf)
  case (Suc k)
  have "16 * (unat a div 16 mod 16 ^ k) + unat a mod 16 = unat a mod 16 ^ Suc k"
    by (simp add: mod_mult2_eq)
  then have "16 * (v * 16 ^ k + unat a div 16 mod 16 ^ k) + unat a mod 16 = v * 16 ^ Suc k + unat a mod 16 ^ Suc k"
    by (simp add: algebra_simps)
  moreover have "unat (drop_bit 4 a) = unat a div 16" by (simp add: drop_bit_eq_div unat_div_distrib)
  ultimately have "hex_value v (hex_loop (Suc k) a buf)
      = hex_value (v * 16 ^ k + unat a div 16 mod 16 ^ k) (nibble_char (unat a mod 16) # buf)"
    and "16 * (v * 16 ^ k + unat a div 16 mod 16 ^ k) + unat a mod 16 = v * 16 ^ Suc k + unat a mod 16 ^ Suc k"
    by (simp_all only: hex_loop.simps Suc.IH unat_nibble)
  moreover have "hex_value (v * 16 ^ k + unat a div 16 mod 16 ^ k) (nibble_char (unat a mod 16) # buf)
      = hex_value (16 * (v * 16 ^ k + unat a div 16 mod 16 ^ k) + unat a mod 16) buf" by (simp add: hex_value_def)
  ultimately show ?case by (simp only:)
qed simp

lemma length_hex_loop: "length (hex_loop k a buf) = k + length buf"
  by (induction k arbitrary: a buf) simp_all

lemma hex_loop_plain: "(\<forall>c \<in> set buf. c \<noteq> CHR 0x0A) \<Longrightarrow> c \<in> set (hex_loop k a buf) \<Longrightarrow> c \<noteq> CHR 0x0A"
proof (induction k arbitrary: a buf)
  case (Suc k)
  have "\<forall>c \<in> set (nibble_char (unat (a AND 0xF)) # buf). c \<noteq> CHR 0x0A"
    using Suc.prems(1) nibble_no_lf [of "unat a mod 16"] by (simp add: unat_nibble)
  then show ?case by (rule Suc.IH) (use Suc.prems(2) in simp)
qed simp

lemma puts_plain: "(\<forall>c \<in> set s. c \<noteq> CHR 0x0A) \<Longrightarrow> panic_puts s = s"
  by (induction s) (simp_all add: panic_puts_def)

text \<open>An address is printed as two characters of prefix and eight hexadecimal digits from which it can
  be read back, and a cause as its decimal text.\<close>

lemma printed_address_is_exact:
  "\<exists>digits. panic_print_hex_addr a = ''0x'' @ digits \<and> length digits = 8 \<and> hex_value 0 digits = unat a"
proof (intro exI [of _ "hex_loop 8 a []"] conjI)
  have "\<forall>c \<in> set (''0x'' @ hex_loop 8 a []). c \<noteq> CHR 0x0A" using hex_loop_plain [of "[]" _ 8 a] by auto
  then show "panic_print_hex_addr a = ''0x'' @ hex_loop 8 a []"
    unfolding panic_print_hex_addr_def hex_addr_def by (rule puts_plain)
  show "length (hex_loop 8 a []) = 8" by (simp only: length_hex_loop) simp
  have "unat a < 16 ^ 8" using unsigned_less [of a, where ?'a = nat] by simp
  then show "hex_value 0 (hex_loop 8 a []) = unat a" by (simp only: hex_loop_value) (simp add: hex_value_def)
qed

lemma panic_uint_decimal: "panic_print_uint v = nat_str (unat v)"
proof (cases "v = 0")
  case True
  then show ?thesis by (simp add: panic_print_uint_def panic_puts_def text_simps)
next
  case False
  have "unat v < 10 ^ 15" using unsigned_less [of v, where ?'a = nat] by simp
  have u: "unat (ucast v :: u64) = unat v"
    using unsigned_less [of v, where ?'a = nat] by (simp add: unsigned_ucast_eq take_bit_nat_eq_self)
  then have wide: "unat (ucast v :: u64) < 10 ^ 15" "unat (ucast v :: u64) = unat v" "(ucast v :: u64) \<noteq> 0"
    using \<open>unat v < 10 ^ 15\<close> False by (simp_all add: unat_eq_0 flip: unat_eq_0)
  then have "fmt_loop 15 (ucast v) [] = nat_str (unat v)"
    using fmt_loop_nat_str [of "ucast v" 15 "[]"] wide False by (simp add: word_gt_0)
  moreover have "\<forall>c \<in> set (nat_str (unat v)). c \<noteq> CHR 0x0A"
    using nat_str_digits [of "unat v"] by (auto simp: is_digit_def)
  ultimately show ?thesis using False by (simp add: panic_print_uint_def puts_plain)
qed

text \<open>Every register has a doubled prefix.\<close>

lemma register_prefix_doubled: "\<exists>digits. register_text f 0 = ''a0=0x0x'' @ digits"
  using printed_address_is_exact [of "pf_a f 0"]
  by (auto simp: register_text_def panic_puts_def text_simps)

end
