(* ===== verification/Settings.thy ===== *)
theory Settings
  imports Wifi_Credentials
begin

text \<open>
  The contract the stored settings share: what was written last, by a write that succeeded, is what
  a later read returns, whatever was written, or failed to be written, before.  The burette
  calibration, the ADC calibration, the StallGuard threshold and the strings of the saved networks
  (\<^verbatim>\<open>infrastructure/src/storage/nvs.cpp\<close>) are its instances, on every flash that follows
  \<open>nvs_laws\<close>.
\<close>

declare One_nat_def [simp del]

subsection \<open>The interface\<close>

text \<open>\<open>get\<close> is \<^term>\<open>None\<close> when the namespace cannot be opened or holds nothing.\<close>

locale setting =
  fixes storable :: "'a \<Rightarrow> bool"
    and put :: "'a \<Rightarrow> 's \<Rightarrow> unit res \<times> 's"
    and get :: "'s \<Rightarrow> 'a option"
  assumes get_put: "storable a \<Longrightarrow> put a s = (Inr (), s') \<Longrightarrow> get s' = Some b \<Longrightarrow> b = a"
begin

definition puts :: "'a list \<Rightarrow> 's \<Rightarrow> 's" where
  "puts as s = fold (\<lambda>a s. snd (put a s)) as s"

lemma last_put_is_read:
  assumes "storable a" and "fst (put a (puts as s)) = Inr ()" and "get (puts (as @ [a]) s) = Some b"
  shows "b = a"
proof (rule get_put)
  show "storable a" by fact
  show "put a (puts as s) = (Inr (), puts (as @ [a]) s)"
    using assms(2) by (simp add: puts_def prod_eq_iff)
qed fact

lemma get_is_stable:
  assumes "storable a" "storable c"
    and "put a s = (Inr (), s')" "put c t = (Inr (), t')" "get s' = Some b" "get t' = Some b"
  shows "a = c"
  using get_put [OF assms(1,3,5)] get_put [OF assms(2,4,6)] by simp

end

subsection \<open>Values at their width\<close>

lemma ucast8_roundtrip: "ucast ((ucast (x :: u8) :: u32) AND 0xFF) = x"
proof -
  have m: "(0xFF :: u32) = mask 8" by (simp add: mask_eq_exp_minus_1)
  show ?thesis unfolding m by (rule bit_word_eqI) (auto simp: bit_simps)
qed

lemma scast16_roundtrip: "ucast (scast (x :: i16) :: i32) = x"
  by (rule bit_word_eqI) (auto simp: bit_simps)

subsection \<open>One value in flash\<close>

text \<open>Opening, setting with commit, and opening again for a read.\<close>

lemma committed_view:
  assumes "nvs_laws api view"
    and "set_commit api ns k v (snd (nvs_open api ns True w)) = (Inr (), w')"
  shows "view (snd (nvs_open api ns rw w')) (ns, k) = Some v"
  using set_commit_view [OF assms(1), of ns k v "snd (nvs_open api ns True w)"] assms(2) open_view [OF assms(1)]
  by simp

lemma stall_setting_law:
  assumes "nvs_laws api view" and "stallguardWriteThreshold api a w = (Inr (), w')"
  shows "fst (stallguardReadThreshold api w') = (if fst (nvs_open api NS_SG False w') then a else 0)"
proof -
  have "set_commit api NS_SG K_SG (NU32 (ucast a)) (snd (nvs_open api NS_SG True w)) = (Inr (), w')"
    using assms(2) by (auto simp: stallguardWriteThreshold_def setU32_def case_prod_beta split: if_splits)
  from getU32_view [OF assms(1) committed_view [OF assms(1) this]]
  show ?thesis
    by (simp add: stallguardReadThreshold_def case_prod_beta value_or_default_def ucast8_roundtrip)
qed

lemma wifi_setting_law:
  assumes "nvs_laws api view" and "wifiWriteStr api k v w = (Inr (), w')" and "length v < n"
    and "fst (nvs_open api NS_WIFI False w')"
  shows "fst (wifiReadStr api k n w') = Inr (Some v)"
proof -
  have "set_commit api NS_WIFI k (NStr v) (snd (nvs_open api NS_WIFI True w)) = (Inr (), w')"
    using assms(2) by (auto simp: wifiWriteStr_def setStr_def case_prod_beta split: if_splits)
  from committed_view [OF assms(1) this, of False] assms(3)
  have "nvs_get_str api NS_WIFI k n (snd (nvs_open api NS_WIFI False w')) = Found v"
    using assms(1) by (simp add: nvs_laws_def)
  then show ?thesis using assms(4) by (simp add: wifiReadStr_def getStr_def case_prod_beta)
qed

lemma adc_write_unfold:
  "adcCalibrationWrite api a b s =
     (let w = snd (nvs_open api NS_ADC True (st_flash s)); kvs = [((NS_ADC, K_AX), NU32 (ucast a)), ((NS_ADC, K_B), NI32 (scast b))];
          run = write_all (map (\<lambda>((ns, k), v). set_commit api ns k v) kvs) w
      in if \<not> fst (nvs_open api NS_ADC True (st_flash s)) then (Inl NvsOpenFailed, s\<lparr>st_flash := w\<rparr>)
         else case fst run of
           Inl e \<Rightarrow> (Inl e, s\<lparr>st_flash := snd run\<rparr>)
         | Inr _ \<Rightarrow> (Inr (), s\<lparr>st_flash := snd run, gCoeffAX1000 := a, gCoeffB := b\<rparr>))"
  unfolding adcCalibrationWrite_def adc_writes_eq
  by (simp add: case_prod_beta Let_def del: write_all.simps split: sum.split)

lemma adc_setting_law:
  assumes laws: "nvs_laws api view" and wr: "adcCalibrationWrite api a b s = (Inr (), s')"
    and open': "fst (nvs_open api NS_ADC False (st_flash s'))"
  shows "fst (adcCalibrationRead api s') = (a, b)" and "gCoeffAX1000 s' = a" and "gCoeffB s' = b"
proof -
  let ?w = "snd (nvs_open api NS_ADC True (st_flash s))"
  define kvs where "kvs = [((NS_ADC, K_AX), NU32 (ucast a)), ((NS_ADC, K_B), NI32 (scast b))]"
  let ?run = "write_all (map (\<lambda>((ns, k), v). set_commit api ns k v) kvs) ?w"
  have ok: "fst ?run = Inr ()" and s': "s' = s\<lparr>st_flash := snd ?run, gCoeffAX1000 := a, gCoeffB := b\<rparr>"
    using wr by (auto simp: adc_write_unfold kvs_def [symmetric] Let_def split: if_splits sum.splits)
  obtain r where r: "nvs_open api NS_ADC False (snd ?run) = (True, r)"
    using open' by (cases "nvs_open api NS_ADC False (snd ?run)") (simp add: s')
  have "view r = foldl (\<lambda>m ((ns, k), v). m((ns, k) \<mapsto> v)) (view ?w) kvs"
    using open_view [OF laws, of NS_ADC False "snd ?run"] write_all_view [OF laws ok] by (simp add: r)
  then have "getU32 api NS_ADC K_AX r = Inr (Some (ucast a))" "getI32 api NS_ADC K_B r = Inr (Some (scast b))"
    by (auto intro!: getU32_view [OF laws] getI32_view [OF laws] simp: kvs_def nvs_names)
  then show "fst (adcCalibrationRead api s') = (a, b)"
    by (simp add: adcCalibrationRead_def r s' ucast16_roundtrip scast16_roundtrip)
  show "gCoeffAX1000 s' = a" "gCoeffB s' = b" by (simp_all add: s')
qed

subsection \<open>The settings of the program\<close>

definition read_calibration :: "'w nvs_api \<Rightarrow> 'w store \<Rightarrow> CalibrationData option" where
  "read_calibration api s = (case fst (calibrationRead api s) of Inr c \<Rightarrow> Some c | Inl _ \<Rightarrow> None)"

definition read_adc :: "'w nvs_api \<Rightarrow> 'w store \<Rightarrow> (u16 \<times> i16) option" where
  "read_adc api s =
     (if fst (nvs_open api NS_ADC False (st_flash s)) then Some (fst (adcCalibrationRead api s)) else None)"

definition read_threshold :: "'w nvs_api \<Rightarrow> 'w \<Rightarrow> u8 option" where
  "read_threshold api w =
     (if fst (nvs_open api NS_SG False w) then Some (fst (stallguardReadThreshold api w)) else None)"

definition read_string :: "'w nvs_api \<Rightarrow> string \<Rightarrow> nat \<Rightarrow> 'w \<Rightarrow> string option" where
  "read_string api k n w = (case fst (wifiReadStr api k n w) of Inr r \<Rightarrow> r | Inl _ \<Rightarrow> None)"

interpretation calibration_setting: setting "\<lambda>c. nvs_laws api view \<and> cal_storable c" "calibrationWrite api" "read_calibration api"
  for api :: "'w nvs_api" and view
proof unfold_locales
  fix c s s' b
  assume a: "nvs_laws api view \<and> cal_storable c" "calibrationWrite api c s = (Inr (), s')" "read_calibration api s' = Some b"
  then have "fst (nvs_open api NS_CAL False (st_flash s'))"
    by (auto simp: read_calibration_def calibrationRead_def case_prod_beta split: if_splits)
  with a calibration_roundtrip [of api view c s] show "b = c" by (simp add: read_calibration_def)
qed

interpretation adc_setting: setting "\<lambda>_. nvs_laws api view" "\<lambda>(a, b). adcCalibrationWrite api a b" "read_adc api"
  for api :: "'w nvs_api" and view
  by unfold_locales (auto simp: read_adc_def dest!: adc_setting_law(1) split: if_splits)

interpretation threshold_setting: setting "\<lambda>_. nvs_laws api view" "stallguardWriteThreshold api" "read_threshold api"
  for api :: "'w nvs_api" and view
  by unfold_locales (auto simp: read_threshold_def stall_setting_law split: if_splits)

interpretation network_setting: setting "\<lambda>v. nvs_laws api view \<and> length v < n" "wifiWriteStr api k" "read_string api k n"
  for api :: "'w nvs_api" and view and k and n
proof unfold_locales
  fix v w w' b
  assume a: "nvs_laws api view \<and> length v < n" "wifiWriteStr api k v w = (Inr (), w')" "read_string api k n w' = Some b"
  then have "fst (nvs_open api NS_WIFI False w')"
    by (auto simp: read_string_def wifiReadStr_def case_prod_beta split: if_splits)
  with a wifi_setting_law [of api view k v w w' n] show "b = v" by (simp add: read_string_def)
qed

end
