(* ===== verification/Adc_Session.thy ===== *)
theory Adc_Session
  imports Main_Loop Settings
begin

text \<open>
  The calibration of the analogue input as a session of commands
  (\<^verbatim>\<open>application/src/handlers/sensors.cpp\<close>): up to five points are measured, a line is fitted through
  them, and its coefficients are saved and used for every later voltage.  This theory holds the
  reachable states of the session, what a measurement records, and the way of a saved coefficient
  through the flash to the published voltage.
\<close>

declare One_nat_def [simp del]

subsection \<open>Measuring\<close>

lemma foldl_min:
  fixes x :: "'a :: linorder"
  shows "foldl (\<lambda>m y. if y < m then y else m) x xs = Min (insert x (set xs))"
proof (induction xs arbitrary: x)
  case (Cons y xs)
  then show ?case by (cases "xs = []") (auto simp: min_def Min_insert insert_commute [of x])
qed simp

lemma foldl_max:
  fixes x :: "'a :: linorder"
  shows "foldl (\<lambda>m y. if m < y then y else m) x xs = Max (insert x (set xs))"
proof (induction xs arbitrary: x)
  case (Cons y xs)
  then show ?case by (cases "xs = []") (auto simp: max_def Max_insert insert_commute [of x])
qed simp

lemma extremes:
  assumes "xs \<noteq> []"
  shows "min_of xs = Min (set xs)" and "max_of xs = Max (set xs)"
  using assms by (simp_all add: min_of_def max_of_def foldl_min foldl_max insert_absorb flip: list.set_map)
    (metis list.collapse list.simps(15))+

text \<open>A stable batch is one whose samples differ by at most five.\<close>

lemma is_stable_iff:
  assumes "xs \<noteq> []"
  shows "is_stable xs \<longleftrightarrow> (\<forall>x \<in> set xs. \<forall>y \<in> set xs. \<bar>int (unat x) - int (unat y)\<bar> \<le> 5)"
proof
  assume "is_stable xs"
  then have d: "int (unat (Max (set xs))) - int (unat (Min (set xs))) \<le> 5"
    by (simp add: is_stable_def extremes [OF assms] ADC_CAL_STAB_TOLERANCE_def)
  have b: "unat (Min (set xs)) \<le> unat x" "unat x \<le> unat (Max (set xs))" if "x \<in> set xs" for x
    using that by (simp_all flip: word_le_nat_alt)
  show "\<forall>x \<in> set xs. \<forall>y \<in> set xs. \<bar>int (unat x) - int (unat y)\<bar> \<le> 5"
  proof (intro ballI)
    fix x y assume "x \<in> set xs" "y \<in> set xs"
    with b [of x] b [of y] d show "\<bar>int (unat x) - int (unat y)\<bar> \<le> 5" by linarith
  qed
next
  assume "\<forall>x \<in> set xs. \<forall>y \<in> set xs. \<bar>int (unat x) - int (unat y)\<bar> \<le> 5"
  moreover have "Max (set xs) \<in> set xs" "Min (set xs) \<in> set xs" using assms by simp_all
  ultimately show "is_stable xs"
    by (fastforce simp: is_stable_def extremes [OF assms] ADC_CAL_STAB_TOLERANCE_def)
qed

lemma stabilize_first:
  "stabilize sample k n =
     (if \<exists>i < n. is_stable (batch sample (k + i))
      then Some (batch sample (k + (LEAST i. is_stable (batch sample (k + i))))) else None)"
proof (induction n arbitrary: k)
  case (Suc n)
  show ?case
  proof (cases "is_stable (batch sample k)")
    case True
    then have "(LEAST i. is_stable (batch sample (k + i))) = 0" by (intro Least_equality) auto
    then show ?thesis using True by (auto intro: exI [of _ 0])
  next
    case False
    have "(LEAST i. is_stable (batch sample (k + i))) = Suc (LEAST i. is_stable (batch sample (k + Suc i)))"
      if "is_stable (batch sample (k + Suc i))" for i
      using Least_Suc [of "\<lambda>i. is_stable (batch sample (k + i))" "Suc i"] False that by simp
    moreover have "(\<exists>i < Suc n. is_stable (batch sample (k + i))) \<longleftrightarrow> (\<exists>i < n. is_stable (batch sample (k + Suc i)))"
      using False by (metis Suc_less_eq add.right_neutral gr0_conv_Suc less_Suc_eq_0_disj)
    ultimately show ?thesis using False Suc [of "Suc k"] by auto
  qed
qed simp

lemma batch_nonempty [simp]: "batch sample k \<noteq> []" "length (batch sample k) = 32"
  by (simp_all add: batch_def ADC_CAL_STAB_SAMPLES_def)

subsection \<open>The session\<close>

text \<open>The commands that touch the points or the coefficients, in any order and with any parameters.\<close>

inductive adc_step :: "'w nvs_api \<Rightarrow> 'w app \<Rightarrow> 'w app \<Rightarrow> bool" for api where
  measured: "handleAdcCalMeasure r sample s = Some (rsp, s') \<Longrightarrow> adc_step api s s'"
| computed: "handleAdcCalCompute s = Some (rsp, s') \<Longrightarrow> adc_step api s s'"
| saved: "handleAdcCalSave a b (adcCalibrationWrite api) s = Some (rsp, s') \<Longrightarrow> adc_step api s s'"
| shown: "handleAdcCalGet (adcCalibrationRead api) s = Some (rsp, s') \<Longrightarrow> adc_step api s s'"
| reset: "handleAdcCalReset (adcCalibrationWrite api) s = Some (rsp, s') \<Longrightarrow> adc_step api s s'"

inductive adc_reach :: "'w nvs_api \<Rightarrow> 'w store \<Rightarrow> 'w app \<Rightarrow> bool" for api st where
  start: "adc_reach api st (app_init st)"
| step: "adc_reach api st s \<Longrightarrow> adc_step api s s' \<Longrightarrow> adc_reach api st s'"

text \<open>The array has its five places and exactly the first \<open>ap_pointCount\<close> are collected.\<close>

definition points_ok :: "'w app \<Rightarrow> bool" where
  "points_ok s \<longleftrightarrow> length (ap_points s) = 5 \<and> ap_pointCount s \<le> 5
     \<and> (\<forall>i < 5. pt_collected (ap_points s ! i) \<longleftrightarrow> i < ap_pointCount s)"

lemma fail_state [simp]: "fail msg s = Some (rsp, s') \<longleftrightarrow> rsp = makeErrorResponse msg \<and> s' = s"
  by (auto simp: fail_def)

lemma measure_points_ok:
  assumes "points_ok s" and "handleAdcCalMeasure r sample s = Some (rsp, s')"
  shows "points_ok s'"
  using assms
  by (auto simp: handleAdcCalMeasure_def points_ok_def ADC_CAL_MAX_POINTS_def Let_def nth_list_update
      split: option.splits if_splits)

lemma adc_step_points_ok: "adc_step api s s' \<Longrightarrow> points_ok s \<Longrightarrow> points_ok s'"
proof (induction rule: adc_step.induct)
  case (measured r sample s rsp s')
  then show ?case by (rule measure_points_ok [rotated])
next
  case (computed s rsp s')
  then show ?case by (auto simp: handleAdcCalCompute_def points_ok_def split: option.splits if_splits prod.splits)
next
  case (saved a b s rsp s')
  then show ?case by (auto simp: handleAdcCalSave_def points_ok_def Let_def split: option.splits sum.splits prod.splits)
next
  case (shown s rsp s')
  then show ?case by (auto simp: handleAdcCalGet_def points_ok_def Let_def split: option.splits if_splits prod.splits)
next
  case (reset s rsp s')
  then show ?case by (auto simp: handleAdcCalReset_def points_ok_def Let_def split: sum.splits prod.splits)
qed

lemma adc_reach_points_ok: "adc_reach api st s \<Longrightarrow> points_ok s"
proof (induction rule: adc_reach.induct)
  case start
  show ?case by (simp add: points_ok_def)
qed (rule adc_step_points_ok)

text \<open>C26.  In every state of a calibration session a measurement takes the first of at most ten batches of
  32 samples whose samples differ by at most 5, and records its median, which then differs by at
  most 5 from every sample, in the next place of the array of five; without such a batch, or with
  five points recorded, it is refused and changes nothing.\<close>

theorem measurement_recorded:
  assumes "adc_reach api st s"
  shows "if ap_pointCount s < 5 \<and> (\<exists>k < 10. is_stable (batch sample k))
    then \<exists>k m rsp. handleAdcCalMeasure (Some r) sample s
        = Some (rsp, s\<lparr>ap_points := (ap_points s)[ap_pointCount s := \<lparr>pt_ref_mv = r, pt_raw_mv = m, pt_collected = True\<rparr>],
                       ap_pointCount := ap_pointCount s + 1\<rparr>)
      \<and> ap_pointCount s < length (ap_points s) \<and> r_kind rsp = ResponseKind.Single
      \<and> k < 10 \<and> is_stable (batch sample k) \<and> (\<forall>j < k. \<not> is_stable (batch sample j))
      \<and> m = sort (batch sample k) ! 16 \<and> (\<forall>x \<in> set (batch sample k). \<bar>int (unat m) - int (unat x)\<bar> \<le> 5)
    else \<exists>msg. handleAdcCalMeasure (Some r) sample s = Some (makeErrorResponse msg, s)"
proof -
  have ok: "points_ok s" by (rule adc_reach_points_ok [OF assms])
  show ?thesis
  proof (cases "ap_pointCount s < 5 \<and> (\<exists>k < 10. is_stable (batch sample k))")
    case True
    define k where "k = (LEAST k. is_stable (batch sample k))"
    define m where "m = sort (batch sample k) ! 16"
    obtain j where "j < 10" "is_stable (batch sample j)" using True by blast
    then have k: "is_stable (batch sample k)" "k < 10"
      unfolding k_def by (auto intro: LeastI order_le_less_trans [OF Least_le])
    have first: "\<forall>j < k. \<not> is_stable (batch sample j)" unfolding k_def by (auto dest: not_less_Least)
    have "m \<in> set (batch sample k)"
      unfolding m_def by (metis batch_nonempty(2) length_sort nth_mem numeral_less_iff semiring_norm(76,78,81) set_sort)
    then have "\<forall>x \<in> set (batch sample k). \<bar>int (unat m) - int (unat x)\<bar> \<le> 5"
      using k(1) by (simp add: is_stable_iff)
    moreover have "handleAdcCalMeasure (Some r) sample s = Some
        (single_body (''{'' @ jkey ''status'' @ quoted ''ok'' @ '','' @ jkey ''point'' @
           nat_str (ap_pointCount s) @ '','' @ field_u16 ''voltage_mV'' m @ ''}''),
         s\<lparr>ap_points := (ap_points s)[ap_pointCount s := \<lparr>pt_ref_mv = r, pt_raw_mv = m, pt_collected = True\<rparr>],
           ap_pointCount := ap_pointCount s + 1\<rparr>)"
      using True by (auto simp: handleAdcCalMeasure_def ADC_CAL_MAX_POINTS_def ADC_CAL_STAB_MAX_ATTEMPTS_def
          ADC_CAL_STAB_SAMPLES_def stabilize_first Let_def k_def m_def)
    ultimately show ?thesis
      using True ok k first by (auto simp: points_ok_def single_body_def response_init_def m_def)
  next
    case False
    then show ?thesis
      by (auto simp: handleAdcCalMeasure_def ADC_CAL_MAX_POINTS_def ADC_CAL_STAB_MAX_ATTEMPTS_def stabilize_first)
  qed
qed

theorem measurement_recorded_witness:
  "\<exists>rsp. handleAdcCalMeasure (Some (f32_lit 0 0)) (\<lambda>n. if n < 32 then of_nat n else 1200) (app_init ref_store)
     = Some (rsp, (app_init ref_store)\<lparr>ap_points := (ap_points (app_init ref_store))[0 :=
          \<lparr>pt_ref_mv = f32_lit 0 0, pt_raw_mv = 1200, pt_collected = True\<rparr>], ap_pointCount := 1\<rparr>)"
proof -
  let ?f = "\<lambda>n :: nat. if n < 32 then of_nat n else 1200 :: u16"
  have b0: "batch ?f 0 = map of_nat [0 ..< 32]" and b1: "batch ?f (Suc 0) = replicate 32 1200"
    by (simp_all add: batch_def ADC_CAL_STAB_SAMPLES_def numeral_nat)
  have "(0 :: u16) \<in> set (batch ?f 0)" "(31 :: u16) \<in> set (batch ?f 0)"
    by (auto simp: b0 intro: image_eqI [of _ _ "0 :: nat"] image_eqI [of _ _ "31 :: nat"])
  then have n0: "\<not> is_stable (batch ?f 0)" by (force simp: is_stable_iff)
  have s1: "is_stable (batch ?f (Suc 0))" by (simp add: b1 is_stable_iff)
  have k: "k = Suc 0" if "is_stable (batch ?f k)" "\<forall>j < k. \<not> is_stable (batch ?f j)" for k
  proof (rule ccontr)
    assume "k \<noteq> Suc 0"
    then consider "k = 0" | "Suc 0 < k" by linarith
    then show False by cases (use that n0 s1 in auto)
  qed
  have m: "sort (batch ?f (Suc 0)) ! 16 = 1200" by (simp add: b1 sorted_sort_id)
  have c: "ap_pointCount (app_init ref_store) < 5 \<and> (\<exists>k < 10. is_stable (batch ?f k))"
    using s1 by (auto intro: exI [of _ "Suc 0"])
  obtain k m rsp where h: "handleAdcCalMeasure (Some (f32_lit 0 0)) ?f (app_init ref_store)
        = Some (rsp, (app_init ref_store)\<lparr>ap_points := (ap_points (app_init ref_store))[ap_pointCount (app_init ref_store)
            := \<lparr>pt_ref_mv = f32_lit 0 0, pt_raw_mv = m, pt_collected = True\<rparr>],
            ap_pointCount := ap_pointCount (app_init ref_store) + 1\<rparr>)"
    and ks: "is_stable (batch ?f k)" "\<forall>j < k. \<not> is_stable (batch ?f j)" and mk: "m = sort (batch ?f k) ! 16"
    using measurement_recorded [OF adc_reach.start, of ref_store ?f "f32_lit 0 0"] unfolding if_P [OF c] by blast
  have "m = 1200" using mk m k [OF ks] by simp
  with h show ?thesis by (simp add: app_init_simps(8))
qed

subsection \<open>Saving\<close>

lemma adc_save_accepted:
  assumes "handleAdcCalSave a b (adcCalibrationWrite api) s = Some (rsp, s')" and "r_kind rsp = ResponseKind.Single"
  shows "\<exists>st. adcCalibrationWrite api (case a of Some v \<Rightarrow> v | None \<Rightarrow> ap_pendingAX1000 s)
      (case b of Some v \<Rightarrow> v | None \<Rightarrow> ap_pendingB s) (ap_store s) = (Inr (), st) \<and> ap_store s' = st"
  using assms
  by (auto simp: handleAdcCalSave_def Let_def makeErrorResponse_def response_init_def split: sum.splits prod.splits)

text \<open>The fitted offset is rounded by adding a half and cutting off towards zero, which is wrong below
  zero: an offset of -10 is stored as -9.  And the calibrated value in the report of the points is not
  the one that would be published: the report rounds the product, the published value cuts it off.\<close>

lemma negative_offset_cut_off:
  "f_to_i16 (d_clamp (d_add (f_of_int f64 (- 10)) (f64_lit 5 1)) (f_of_int f64 (- 32768)) (f_of_int f64 32767))
     = Some (- 9)"
  by (simp add: fp_simps d_clamp_def d_add_def)

lemma reported_voltage_differs:
  "map_option scast (lround_i32 (f_add f32 (f_mul f32 (f_of_int f32 1001) (f_div f32 (f_of_int f32 1500) (f32_lit 10000 1)))
      (f_of_int f32 0))) = Some (1502 :: i16)"
  "calibratedFromRaw 1500 0 1001 = Some 1501"
  by (simp_all add: fp_simps calibratedFromRaw_def)

text \<open>The state of the settings at power-on.\<close>

definition power_on :: "'w \<Rightarrow> 'w store" where
  "power_on w = \<lparr>st_flash = w, gCalCache = None, gCoeffAX1000 = 1000, gCoeffB = 0\<rparr>"

lemma boot_coefficients:
  "gCoeffAX1000 (ap_store (boot_settings api s)) = gCoeffAX1000 (ap_store s)"
  "gCoeffB (ap_store (boot_settings api s)) = gCoeffB (ap_store s)"
  by (simp_all add: boot_settings_def calibrationRead_def Let_def case_prod_beta split: sum.split)

text \<open>C30.  Coefficients saved successfully are read back unchanged from every flash that follows the laws,
  and the voltage published next from a twelve-bit reading is computed with them: the reading times
  the slope in thousandths, cut off, plus the offset, limited to 0 to 32767.  But the boot does not
  load them: after a restart the published voltage is the uncalibrated reading until they are saved
  again.\<close>

theorem saved_coefficients_last_until_restart:
  assumes laws: "nvs_laws api view"
    and save: "handleAdcCalSave a b (adcCalibrationWrite api) s = Some (rsp, s')" "r_kind rsp = ResponseKind.Single"
    and "read": "read_adc api (ap_store s') = Some (slope, offset)"
    and adc: "0 \<le> sint v" "sint v \<le> 4095" "length (adc_buf d) = 64"
  shows "slope = (case a of Some x \<Rightarrow> x | None \<Rightarrow> ap_pendingAX1000 s)
    \<and> offset = (case b of Some x \<Rightarrow> x | None \<Rightarrow> ap_pendingB s)
    \<and> (\<exists>d'. publish_mv (gCoeffAX1000 (ap_store s')) (gCoeffB (ap_store s')) (Some v) (Some d) g
        = Some (Some d', g\<lparr>gLastMv := word_of_int (max 0 (min 32767 (int (unat slope) * sint v div 1000 + sint offset)))\<rparr>))
    \<and> (\<exists>d'. let st = ap_store (boot_settings api (app_init (power_on (st_flash (ap_store s')))))
           in publish_mv (gCoeffAX1000 st) (gCoeffB st) (Some v) (Some d) g
             = Some (Some d', g\<lparr>gLastMv := word_of_int (sint v)\<rparr>))"
proof -
  let ?a = "case a of Some x \<Rightarrow> x | None \<Rightarrow> ap_pendingAX1000 s"
  let ?b = "case b of Some x \<Rightarrow> x | None \<Rightarrow> ap_pendingB s"
  have w: "adcCalibrationWrite api ?a ?b (ap_store s) = (Inr (), ap_store s')"
    using adc_save_accepted [OF save] by blast
  then have r: "(slope, offset) = (?a, ?b)"
    by (intro adc_setting.get_put [OF laws _ "read", of "(?a, ?b)" "ap_store s"]) simp
  have "fst (nvs_open api NS_ADC False (st_flash (ap_store s')))"
    using "read" by (simp add: read_adc_def split: if_splits)
  with adc_setting_law [OF laws w] r
  have c: "gCoeffAX1000 (ap_store s') = slope" "gCoeffB (ap_store s') = offset" by simp_all
  have "sint v * 1000 div 1000 = sint v" by simp
  then have u: "max 0 (min 32767 (int (unat (1000 :: u16)) * sint v div 1000 + sint (0 :: i16))) = sint v"
    using adc by (simp add: mult.commute)
  show ?thesis
    using voltage_is_published [OF adc, of slope offset g] voltage_is_published [OF adc, of 1000 0 g] r
    unfolding c u boot_coefficients power_on_def Let_def app_init_simps store.simps by blast
qed

theorem saved_coefficients_last_until_restart_witness:
  "\<exists>rsp s' d'. handleAdcCalSave (Some 1500) (Some (- 10)) (adcCalibrationWrite ref_nvs) (app_init ref_store) = Some (rsp, s')
     \<and> publish_mv (gCoeffAX1000 (ap_store s')) (gCoeffB (ap_store s')) (Some 2000)
         (Some \<lparr>adc_buf = replicate 64 0, adc_count = 0\<rparr>) globals_init = Some (Some d', globals_init\<lparr>gLastMv := 2990\<rparr>)"
proof -
  let ?d = "\<lparr>adc_buf = replicate 64 0, adc_count = 0\<rparr>"
  obtain st where w: "adcCalibrationWrite ref_nvs 1500 (- 10) ref_store = (Inr (), st)"
    by (simp add: adcCalibrationWrite_def ref_open ref_set_commit setU32_def setI32_def)
  then obtain rsp s' where h: "handleAdcCalSave (Some 1500) (Some (- 10)) (adcCalibrationWrite ref_nvs) (app_init ref_store)
      = Some (rsp, s')" and k: "r_kind rsp = ResponseKind.Single" and st: "ap_store s' = st"
    by (simp add: handleAdcCalSave_def single_body_def response_init_def Let_def)
  obtain x y where "read": "read_adc ref_nvs (ap_store s') = Some (x, y)"
    by (cases "fst (adcCalibrationRead ref_nvs st)") (simp add: read_adc_def st ref_open)
  have "x = 1500 \<and> y = - 10"
    using saved_coefficients_last_until_restart [OF ref_nvs_laws h k "read", of 2000 ?d globals_init] by simp
  then show ?thesis
    using saved_coefficients_last_until_restart [OF ref_nvs_laws h k "read", of 2000 ?d globals_init] h by auto
qed

end
