(* ===== verification/Whole_System.thy ===== *)
theory Whole_System
  imports Boot Motor_Task
begin

text \<open>
  The main loop and the motor task together: the path of a command from the line that asks for it
  to the line that reports its result (\<^verbatim>\<open>main/main.cpp\<close>, \<^verbatim>\<open>application/src/dispatch.cpp\<close>,
  \<^verbatim>\<open>infrastructure/src/motor/task.cpp\<close>).  The two tasks share the record of atomics and queues: each
  operation of one task takes the record as the other task has left it.
\<close>

declare One_nat_def [simp del]

subsection \<open>A session of move commands\<close>

text \<open>One command after the other: its line is handled by the main loop, the motor task takes it from
  the queue and carries it out, and the main loop collects the result.\<close>

fun move_session ::
  "'h motor_api \<Rightarrow> 'u uart_api \<Rightarrow> 'w nvs_api \<Rightarrow> (nat \<Rightarrow> u16) option \<Rightarrow> (string \<Rightarrow> json option) \<Rightarrow> string list
     \<Rightarrow> 'w main_state \<Rightarrow> ('w, 'h, 'u) motor \<Rightarrow> ('w main_state \<times> ('w, 'h, 'u) motor) option" where
  "move_session hw ua api cb json [] m mt = Some (m, mt)"
| "move_session hw ua api cb json (line # lines) m mt =
     Option.bind (handle_line api cb json line m) (\<lambda>m1.
     Option.bind (motor_step hw ua (mt\<lparr>mt_app := ms_app m1\<rparr>)) (\<lambda>mt1.
     move_session hw ua api cb json lines (result_step api (m1\<lparr>ms_app := mt_app mt1\<rparr>)) mt1))"

text \<open>The state between two commands.\<close>

definition at_rest :: "'w main_state \<Rightarrow> bool" where
  "at_rest m \<longleftrightarrow>
     gBuretteState (ms_app m) = BuretteState.Idle \<and> \<not> gValveIsSettling (ms_app m) \<and> \<not> gStopFull (ms_app m)
     \<and> ap_motorQueue (ms_app m) = Some [] \<and> ap_resultQueue (ms_app m) = Some [] \<and> ap_controller (ms_app m)
     \<and> 0 \<le> ser_fd (ms_serial m)"

text \<open>The two lines a move command is answered by: the acknowledgement and the result, which reports
  the steps taken.\<close>

definition ack_line :: "u64 \<Rightarrow> string" where
  "ack_line i = terminated (serializeToBuffer (makeAckThenResponse\<lparr>r_id := i\<rparr>))"

definition move_answers :: "Command \<Rightarrow> string \<times> string \<Rightarrow> bool" where
  "move_answers cmd p \<longleftrightarrow>
     fst p = ack_line (c_id cmd)
     \<and> (\<exists>cal. snd p = formatSmResult cal (c_id cmd) (plain_result SmResultType.None' (the (c_steps cmd))) @ [LF])
     \<and> extractCmdId (fst p) = c_id cmd \<and> extractCmdId (snd p) = c_id cmd"

definition asks_move :: "(string \<Rightarrow> json option) \<Rightarrow> string \<Rightarrow> Command \<Rightarrow> bool" where
  "asks_move json line cmd \<longleftrightarrow>
     parseCommand json line = Inr cmd \<and> c_type cmd = CommandType.MoveSteps
     \<and> c_steps cmd \<noteq> None \<and> 0 < sint (the (c_steps cmd))"

lemma calm_fields:
  assumes "calm s = calm s'"
  shows "gLastCmdId s = gLastCmdId s'" "ap_controller s = ap_controller s'" "gValveIsSettling s = gValveIsSettling s'"
    "ap_resultQueue s = ap_resultQueue s'" "ap_motorQueue s = ap_motorQueue s'"
  using arg_cong [OF assms, of gLastCmdId] arg_cong [OF assms, of ap_controller] arg_cong [OF assms, of gValveIsSettling]
    arg_cong [OF assms, of ap_resultQueue] arg_cong [OF assms, of ap_motorQueue]
  by (simp_all add: calm_def)

lemma store_plain_keeps [simp]:
  "gLastCmdId (mt_app (store_plain ty n m)) = gLastCmdId (mt_app m)"
  "ap_controller (mt_app (store_plain ty n m)) = ap_controller (mt_app m)"
  "gValveIsSettling (mt_app (store_plain ty n m)) = gValveIsSettling (mt_app m)"
  by (simp_all add: store_plain_def store_result_def push_event_def Let_def)

lemma ack_carries_id: "extractCmdId (ack_line i) = i"
proof -
  have body: "accepted_text = CHR ''{'' # tl accepted_text" "length accepted_text = 44"
    by (simp_all add: accepted_text_def ok_prefix_def jkey_def quoted_def)
  then have first: "take 1 accepted_text = ''{''" by (metis take_Cons_numeral One_nat_def numeral_One diff_self_eq_0 take_0 take_Suc_Cons)
  show ?thesis
  proof (cases "i = 0")
    case True
    have "serializeToBuffer (makeAckThenResponse\<lparr>r_id := i\<rparr>) = accepted_text"
      using body(2) by (simp add: serializeToBuffer_def makeAckThenResponse_def response_init_def body_bytes_def True MAX_RSP_SIZE_def)
    moreover have "extractCmdId (accepted_text @ [LF]) = 0"
      by (simp add: extractCmdId_def accepted_text_def ok_prefix_def jkey_def quoted_def id_key_def quote_def)
    ultimately show ?thesis using body(2) True by (simp add: ack_line_def terminated_def MAX_RSP_SIZE_def)
  next
    case False
    have "serializeToBuffer (makeAckThenResponse\<lparr>r_id := i\<rparr>) = id_prefix i @ tl accepted_text"
      using body(2) length_id_prefix [of i] False first
      by (simp add: serializeToBuffer_def makeAckThenResponse_def response_init_def body_bytes_def MAX_RSP_SIZE_def
          Let_def)
    then show ?thesis by (auto simp: ack_line_def terminated_def extract_id_prefix append_assoc)
  qed
qed

lemma move_line:
  assumes "at_rest m" and "asks_move json line cmd"
  shows "\<exists>m1. handle_line api cb json line m = Some m1
    \<and> ms_out m1 = ms_out m @ [ack_line (c_id cmd)] \<and> ms_serial m1 = ms_serial m
    \<and> ms_app m1 = ms_app m\<lparr>gBuretteState := BuretteState.Dosing, ap_motorQueue := Some [steps_cmd (the (c_steps cmd))],
        gLastCmdId := c_id cmd\<rparr>"
proof -
  obtain n where n: "c_steps cmd = Some n" using assms(2) by (auto simp: asks_move_def)
  let ?rsp = "makeAckThenResponse\<lparr>r_id := c_id cmd\<rparr>"
  let ?m = "m\<lparr>ms_app := ms_app m\<lparr>gBuretteState := BuretteState.Dosing, ap_motorQueue := Some [steps_cmd n],
    gLastCmdId := c_id cmd\<rparr>\<rparr>"
  have "handle_line api cb json line m = Some (sendResponse ?rsp ?m)"
    using move_acknowledged [of "ms_app m" cmd n api cb] assms n
    by (simp add: handle_line_def asks_move_def at_rest_def)
  then show ?thesis
    using sendResponse_answered [of ?rsp ?m] serialized_length(1) [of ?rsp] assms(1) n
    by (auto simp: answered_def serial_write_def at_rest_def ack_line_def terminated_def)
qed

lemma move_round:
  assumes "working hw" and "quiet StopFull hw" and "at_rest m" and "asks_move json line cmd"
  shows "\<exists>m1 mt1 m2 p. handle_line api cb json line m = Some m1 \<and> motor_step hw ua (mt\<lparr>mt_app := ms_app m1\<rparr>) = Some mt1
    \<and> m2 = result_step api (m1\<lparr>ms_app := mt_app mt1\<rparr>) \<and> at_rest m2 \<and> move_answers cmd p
    \<and> ms_out m2 = ms_out m @ [fst p, snd p] \<and> mt_position mt1 = mt_position mt + the (c_steps cmd)"
proof -
  let ?n = "the (c_steps cmd)"
  obtain m1 where m1: "handle_line api cb json line m = Some m1" and out: "ms_out m1 = ms_out m @ [ack_line (c_id cmd)]"
      and ser: "ms_serial m1 = ms_serial m"
      and app: "ms_app m1 = ms_app m\<lparr>gBuretteState := BuretteState.Dosing, ap_motorQueue := Some [steps_cmd ?n],
        gLastCmdId := c_id cmd\<rparr>"
    using move_line [OF assms(3,4)] by blast
  obtain mt1 where mt1: "motor_step hw ua (mt\<lparr>mt_app := ms_app m1\<rparr>) = Some (store_plain SmResultType.None' ?n mt1)"
      "mt_position mt1 = mt_position mt + ?n" "calm (mt_app mt1) = calm ((ms_app m1)\<lparr>ap_motorQueue := Some []\<rparr>)"
      "\<not> gStopFull (mt_app mt1)"
    using queued_move [OF assms(1,2), of "mt\<lparr>mt_app := ms_app m1\<rparr>" ?n "[]" ua] assms(3,4)
    by (auto simp: app at_rest_def asks_move_def)
  let ?mt = "store_plain SmResultType.None' ?n mt1" and ?m = "m1\<lparr>ms_app := mt_app (store_plain SmResultType.None' ?n mt1)\<rparr>"
  note f = calm_fields [OF mt1(3)]
  have c: "ap_controller (ms_app ?m)" "ap_resultQueue (ms_app ?m) = Some [plain_result SmResultType.None' ?n]"
    "gLastCmdId (ms_app ?m) = c_id cmd"
    using f assms(3) by (simp_all add: app at_rest_def plain_result_def)
  have ok: "fp_ok f32 (sm_measuredSpeedMlMin (plain_result SmResultType.None' ?n))"
    by (simp add: plain_result_def sm_result_def)
  obtain cal st a where a: "a = formatSmResult cal (c_id cmd) (plain_result SmResultType.None' ?n) @ [LF]"
      "extractCmdId a = c_id cmd"
      "result_step api ?m = notify a (write_serial a (?m\<lparr>ms_app := ms_app ?m\<lparr>ap_resultQueue := Some [], ap_store := st\<rparr>\<rparr>))"
    using result_step_eq [OF c(1,2) ok, of api] unfolding c(3) by blast
  let ?p = "(ack_line (c_id cmd), a)"
  have ne: "a \<noteq> []" using a(1) by simp
  have "at_rest (result_step api ?m)"
    using f mt1(4) assms(3) unfolding a(3)
    by (simp add: at_rest_def notify_def write_serial_def app ser)
  moreover have "ms_out (result_step api ?m) = ms_out m @ [fst ?p, snd ?p]"
    using assms(3) ne unfolding a(3) by (simp add: at_rest_def notify_def write_serial_def serial_write_def out ser)
  moreover have "move_answers cmd ?p"
    using a(1,2) ack_carries_id unfolding move_answers_def by auto
  ultimately show ?thesis using m1 mt1(1,2) by fastforce
qed



subsection \<open>From power on\<close>

lemma tmc_keeps_app [simp]: "mt_app (configureTmcUart ua m) = mt_app m"
  by (simp add: configureTmcUart_def Let_def case_prod_beta)


text \<open>A board on which every call succeeds, with the motor on the bench.\<close>

definition good_board :: "(string \<times> string \<Rightarrow> nvs_val option, nat) boot_env" where
  "good_board = \<lparr>be_nvs = ref_nvs, be_main = 1, be_handle_of = (\<lambda>_. None),
     be_uart = \<lparr>up_install = True, up_config = True, up_pins = True, up_open = 3\<rparr>, be_rtc_hz = 150000,
     be_pin = (\<lambda>_. True), be_led = (True, True, True),
     be_heap = (\<lambda>_. \<lparr>hi_psram_free = 8000000, hi_psram_largest = 8000000, hi_dram_total = 300000, hi_dram_free = 100000,
       hi_dram_largest = 50000\<rparr>),
     be_create = (\<lambda>_. True), be_depth_size = 4, be_now = 0, be_adc = (True, True)\<rparr>"


end
