(* ===== verification/Lockout.thy ===== *)
theory Lockout
  imports Motor_Task
begin

text \<open>
  The burette in its error state.  The state is set by an emergency stop and by a failed homing
  (\<^verbatim>\<open>application/src/handlers/burette_ops.cpp\<close>, \<^verbatim>\<open>infrastructure/src/motor/task.cpp\<close>); what every
  operation of the tasks does in it is put together here: commands, rounds of the motor task, the
  settle timer, the collection of results, interrupts of the switches, and the publications of the
  sensors.
\<close>

declare One_nat_def [simp del]

subsection \<open>The steps of the system\<close>

text \<open>The record that the tasks share is the motor task's; the temperature task publishes its two
  values.\<close>

inductive sys_step ::
  "'h motor_api \<Rightarrow> 'u uart_api \<Rightarrow> 'w nvs_api \<Rightarrow> (nat \<Rightarrow> u16) option \<Rightarrow> ('w, 'h, 'u) motor \<Rightarrow> ('w, 'h, 'u) motor \<Rightarrow> bool"
  for hw ua api cb where
  Command: "dispatch api cb cmd (mt_app m) = Some (r, s) \<Longrightarrow> sys_step hw ua api cb m (m\<lparr>mt_app := s\<rparr>)"
| Motor: "motor_step hw ua m = Some m' \<Longrightarrow> sys_step hw ua api cb m m'"
| Settled: "sys_step hw ua api cb m (m\<lparr>mt_app := valveSettleCallback (mt_app m)\<rparr>)"
| Collect: "sys_step hw ua api cb m (m\<lparr>mt_app := snd (waitResult (mt_app m))\<rparr>)"
| Switch: "sys_step hw ua api cb m (limitswitch_isr_handler sw m)"
| Sensors: "sys_step hw ua api cb m (m\<lparr>mt_app := (mt_app m)\<lparr>gTempCX100 := t, gLastMv := v\<rparr>\<rparr>)"

inductive sys_reach ::
  "'h motor_api \<Rightarrow> 'u uart_api \<Rightarrow> 'w nvs_api \<Rightarrow> (nat \<Rightarrow> u16) option \<Rightarrow> ('w, 'h, 'u) motor \<Rightarrow> ('w, 'h, 'u) motor \<Rightarrow> bool"
  for hw ua api cb where
  Here: "sys_reach hw ua api cb m m"
| Step: "sys_reach hw ua api cb m m1 \<Longrightarrow> sys_step hw ua api cb m1 m2 \<Longrightarrow> sys_reach hw ua api cb m m2"

inductive_cases sys_stepE: "sys_step hw ua api cb m m'"

text \<open>The burette in its error state, with no motion in the queue.\<close>

definition harmless :: "MotorCommandType set" where
  "harmless = {MotorCommandType.EmergencyStop, MotorCommandType.SetStallThreshold, MotorCommandType.ReadTmcRegister,
     MotorCommandType.SetDirection, MotorCommandType.SetSpeed, MotorCommandType.SetAccel}"

definition locked :: "'w app \<Rightarrow> bool" where
  "locked s \<longleftrightarrow> gBuretteState s = BuretteState.Error \<and> mc_type ` set (motor_queue s) \<subseteq> harmless"

subsection \<open>Commands\<close>

definition stays :: "(CommandResponse \<times> 'w app) outcome \<Rightarrow> bool" where
  "stays r = (case r of None \<Rightarrow> True | Some (rsp, s) \<Rightarrow> locked s)"

lemma stays_simps [simp]:
  "stays None" "stays (Some (rsp, s)) \<longleftrightarrow> locked s" "stays (fail t s) \<longleftrightarrow> locked s"
  by (simp_all add: stays_def fail_def)

lemma locked_upd [simp]:
  "locked (s\<lparr>ap_store := st\<rparr>) = locked s" "locked (s\<lparr>ap_points := ps\<rparr>) = locked s"
  "locked (s\<lparr>ap_pointCount := n\<rparr>) = locked s" "locked (s\<lparr>ap_pendingAX1000 := a\<rparr>) = locked s"
  "locked (s\<lparr>ap_pendingB := b\<rparr>) = locked s" "locked (s\<lparr>ap_pendingCal := c\<rparr>) = locked s"
  "locked (s\<lparr>ap_valve := v\<rparr>) = locked s" "locked (s\<lparr>gValveIsSettling := x\<rparr>) = locked s"
  "locked (s\<lparr>gStopFull := x\<rparr>) = locked s" "locked (s\<lparr>gStopEmpty := x\<rparr>) = locked s"
  "locked (s\<lparr>gStallGuardThreshold := th\<rparr>) = locked s" "locked (s\<lparr>ap_wsQueue := q\<rparr>) = locked s"
  "locked (s\<lparr>ap_resultQueue := rq\<rparr>) = locked s" "locked (s\<lparr>gTempCX100 := t\<rparr>) = locked s"
  "locked (s\<lparr>gLastMv := mv\<rparr>) = locked s" "locked (s\<lparr>gDirection := d\<rparr>) = locked s"
  "locked (s\<lparr>gSpeed := sp\<rparr>) = locked s" "locked (s\<lparr>gAccel := sp\<rparr>) = locked s"
  by (simp_all add: locked_def motor_queue_def)

lemma locked_busy: "locked s \<Longrightarrow> gBuretteState s \<noteq> BuretteState.Idle"
  by (simp add: locked_def)

lemma locked_send: "locked s \<Longrightarrow> mc_type c \<in> harmless \<Longrightarrow> locked (snd (sendMotorCommand c s))"
  by (auto simp: locked_def sendMotorCommand_def xQueueSend_def motor_queue_def case_prod_beta split: option.splits)

lemma locked_claim: "locked s \<Longrightarrow> claim_burette d s = (False, s)"
  by (simp add: claim_burette_def locked_def)

lemma stays_claim: "locked s \<Longrightarrow> stays (claim d k s)" "locked s \<Longrightarrow> stays (when_idle k' s)"
  by (simp_all add: claim_def when_idle_def locked_claim locked_busy)

lemma stays_bind: "(\<And>x. stays (f x)) \<Longrightarrow> stays (Option.bind v f)"
  by (cases v) simp_all

lemma stays_map: "(\<And>b. locked (g b)) \<Longrightarrow> stays (map_option (\<lambda>b. (f b, g b)) x)"
  by (cases x) simp_all

lemma stays_structure:
  "(b \<Longrightarrow> stays x) \<Longrightarrow> (\<not> b \<Longrightarrow> stays y) \<Longrightarrow> stays (if b then x else y)"
  "stays x \<Longrightarrow> (\<And>v. stays (f v)) \<Longrightarrow> stays (case c of None \<Rightarrow> x | Some v \<Rightarrow> f v)"
  "(\<And>e. stays (g e)) \<Longrightarrow> (\<And>v. stays (f' v)) \<Longrightarrow> stays (case d of Inl e \<Rightarrow> g e | Inr v \<Rightarrow> f' v)"
  "(\<And>u v. stays (h u v)) \<Longrightarrow> stays (case pr of (u, v) \<Rightarrow> h u v)"
  by (simp_all split: option.split sum.split prod.split)

lemma stays_motion:
  assumes "locked s"
  shows "stays (handleFill s)" "stays (handleEmpty s)" "stays (handleDoseVolume v sp s)"
    "stays (handleRinse n s)" "stays (handleMoveSteps k s)" "stays (handleMoveContinuous d f s)"
    "stays (handleRunCalibration fs v' s)" "stays (handleStop s)"
    "stays (handleSetDirection d s)" "stays (handleSetSpeed u s)" "stays (handleSetAccel u s)"
  unfolding handleFill_def handleEmpty_def handleDoseVolume_def handleRinse_def handleMoveSteps_def
    handleMoveContinuous_def handleRunCalibration_def handleStop_def handleSetDirection_def handleSetSpeed_def
    handleSetAccel_def
  by (simp_all add: assms locked_claim stays_claim split: option.split)

lemma stays_cal_run: "locked s \<Longrightarrow> stays (handleCalRun m f v s)"
  by (auto simp: handleCalRun_def with_cal_def locked_busy planCalRun_defined dest: planCalRun_busy split: option.splits)

lemma stays_emergency: "locked s \<Longrightarrow> stays (handleEmergencyStop s)"
  using locked_send [of "s\<lparr>ap_valve := cancelValveSettleTimer (ap_valve s), gValveIsSettling := False, gStopFull := True\<rparr>"
      "motor_cmd_init\<lparr>mc_type := MotorCommandType.EmergencyStop\<rparr>"]
  by (simp add: handleEmergencyStop_def Let_def case_prod_beta locked_claim harmless_def)

lemma stays_calibration:
  assumes "locked s"
  shows "stays (handleGetCalibration rd s)" "stays (handleCalcVolume m t p rd s)"
    "stays (handleCalcSpeed ms rd s)" "stays (handleSaveCalibration a b wr s)"
    "stays (handleResetCalibration wr s)" "stays (handleGetCalResult s)"
  unfolding handleGetCalibration_def handleCalcVolume_def handleCalcSpeed_def handleSaveCalibration_def
    handleResetCalibration_def handleGetCalResult_def Let_def
  by (intro stays_structure stays_map; simp add: assms)+

lemma locked_register: "locked s \<Longrightarrow> locked (snd (readTmcRegister reg s))"
  by (simp add: readTmcRegister_def locked_send harmless_def)

lemma stays_sensors:
  assumes "locked s"
  shows "stays (handleReadTemperature t s)" "stays (handleAdcCalSave a b wr s)"
    "stays (handleAdcCalMeasure r sm s)" "stays (handleAdcCalReset wr s)"
    "stays (handleStallGuardGet s)" "stays (handleStallGuardSetThreshold api th s)"
    "stays (handleAdcCalGet rd s)" "stays (handleAdcCalCompute s)"
  unfolding handleReadTemperature_def handleAdcCalSave_def handleAdcCalMeasure_def handleAdcCalReset_def
    handleStallGuardGet_def handleStallGuardSetThreshold_def handleAdcCalGet_def handleAdcCalCompute_def Let_def
  by (auto simp: assms locked_register locked_send harmless_def intro!: stays_structure stays_map
      split: prod.splits sum.splits option.splits)

lemma stays_others:
  assumes "locked s"
  shows "stays (handleSetPosition p s)" "stays (handleGetState q s)" "stays (handleGetFormattedLogs s)"
    "stays (handleReadLog s)" "stays (handleFirmwareVersion v s)" "stays (handlePing s)"
    "stays (handleGetStatus st vol s)"
  unfolding handleSetPosition_def handleGetState_def handleGetFormattedLogs_def handleReadLog_def
    handleFirmwareVersion_def handlePing_def handleGetStatus_def Let_def
  by (auto simp: assms locked_busy intro!: stays_structure stays_map split: prod.splits sum.splits option.splits)

lemma stays_dispatch: "locked s \<Longrightarrow> stays (dispatch_handler api cb cmd s)"
  by (cases "c_type cmd")
    (simp_all add: dispatch_handler_def stays_bind stays_motion stays_cal_run stays_emergency
      stays_calibration stays_sensors stays_others)

lemma locked_dispatch: "locked s \<Longrightarrow> dispatch api cb cmd s = Some (r, s') \<Longrightarrow> locked s'"
  using stays_dispatch [of s api cb cmd] by (auto simp: dispatch_def withId_def stays_def split: option.splits)

subsection \<open>The motor task\<close>

lemma locked_calm: "calm s = calm s' \<Longrightarrow> locked s = locked s'"
  using calm_keeps [of s s'] by (simp add: locked_def motor_queue_def)

lemma locked_look [simp]: "locked (mt_app (look api m)) = locked (mt_app m)"
  by (rule locked_calm) simp

lemma locked_delay [simp]: "locked (mt_app (delay api k m)) = locked (mt_app m)" "mt_position (delay api k m) = mt_position m"
  by (simp_all add: delay_def)

lemma locked_flag [simp]: "locked (mt_app (store_flag fl b m)) = locked (mt_app m)"
  by (rule locked_calm) simp

lemma locked_take:
  assumes "locked s" and "ap_motorQueue s = Some (c # q)"
  shows "mc_type c \<in> harmless" and "locked (s\<lparr>ap_motorQueue := Some q\<rparr>)"
  using assms by (auto simp: locked_def motor_queue_def)

lemma locked_error: "mc_type ` set (motor_queue s) \<subseteq> harmless \<Longrightarrow> locked (s\<lparr>gBuretteState := BuretteState.Error\<rparr>)"
  by (simp add: locked_def)

lemma locked_run:
  assumes "locked (mt_app m)" and "mc_type cmd \<in> harmless" and "run_command hw ua cmd m = Some m'"
  shows "locked (mt_app m') \<and> mt_position m' = mt_position m"
proof -
  have q: "mc_type ` set (motor_queue (mt_app m)) \<subseteq> harmless" using assms(1) by (simp add: locked_def)
  have e: "locked (mt_app (task_emergencyStop hw m)) \<and> mt_position (task_emergencyStop hw m) = mt_position m"
    using q by (simp add: task_emergencyStop_def Let_def trace_def set_state_def store_flag_def) (simp add: locked_def motor_queue_def)
  have r: "locked (mt_app (task_readTmcRegister ua cmd m)) \<and> mt_position (task_readTmcRegister ua cmd m) = mt_position m"
    using assms(1) by (simp add: task_readTmcRegister_def Let_def case_prod_beta push_event_def split: option.split)
  show ?thesis using assms e r
    by (auto simp: harmless_def run_command_def task_setDirection_def task_setSpeed_def task_setAccel_def
        task_setStallThreshold_def split: if_splits)
qed

lemma locked_step:
  assumes "sys_step hw ua api cb m m'" and "locked (mt_app m)"
  shows "locked (mt_app m') \<and> mt_position m' = mt_position m"
  using assms(1)
proof (rule sys_stepE)
  assume s: "motor_step hw ua m = Some m'"
  show ?thesis
  proof (cases "ap_motorQueue (mt_app m)")
    case None
    then have "locked ((mt_app m)\<lparr>ap_motorQueue := None\<rparr>)" using assms(2) by (simp add: locked_def motor_queue_def)
    then show ?thesis using s assms(2) None by (auto simp: motor_step_def xQueueReceive_def)
  next
    case (Some q)
    then show ?thesis
    proof (cases q)
      case Nil
      then have "locked ((mt_app m)\<lparr>ap_motorQueue := Some []\<rparr>)" using assms(2) by (simp add: locked_def motor_queue_def)
      with Nil show ?thesis using s Some assms(2) by (auto simp: motor_step_def xQueueReceive_def)
    next
      case (Cons c cs)
      then show ?thesis
        using locked_take [OF assms(2), of c cs] locked_run [of "m\<lparr>mt_app := (mt_app m)\<lparr>ap_motorQueue := Some cs\<rparr>\<rparr>" c hw ua m'] s Some
        by (simp add: motor_step_def xQueueReceive_def)
    qed
  qed
qed (use assms(2) locked_dispatch [OF assms(2)] in
    \<open>auto simp: valveSettleCallback_def Let_def waitResult_def case_prod_beta limitswitch_isr_handler_def store_flag_def
      split: option.split stop_flag.split\<close>)

lemma locked_reach:
  assumes "sys_reach hw ua api cb m m'" and "locked (mt_app m)"
  shows "locked (mt_app m') \<and> mt_position m' = mt_position m"
  using assms by (induction rule: sys_reach.induct) (auto dest: locked_step)

text \<open>C10.  The error state is final.  Once the burette is in its error state with no motion waiting in the
  queue, as after an emergency stop of an idle burette, no sequence of commands, rounds of the
  motor task, settle timeouts, collections of results, interrupts and publications ever makes it
  leave the state or move the motor by a step, and every command that moves, stops or sets the
  motor or the valve is refused: only a restart ends it.  The reset of the domain's state machine is
  connected to no command.\<close>

theorem error_state_is_final:
  assumes "gBuretteState (mt_app m) = BuretteState.Error" and "mc_type ` set (motor_queue (mt_app m)) \<subseteq> harmless"
    and "sys_reach hw ua api cb m m'" and "c_type cmd \<in> motion_commands" and "convertible cmd"
  shows "gBuretteState (mt_app m') = BuretteState.Error \<and> mt_position m' = mt_position m
    \<and> (\<exists>rsp. dispatch api' cb' cmd (mt_app m') = Some (Inr rsp, mt_app m') \<and> r_kind rsp = ResponseKind.Error)"
proof -
  have l: "locked (mt_app m')" "mt_position m' = mt_position m"
    using locked_reach [OF assms(3)] assms(1,2) by (simp_all add: locked_def)
  then have "refused (mt_app m') (dispatch_handler api' cb' cmd (mt_app m'))"
    using assms(4,5) by (intro refused_dispatch) (simp_all add: busy_def locked_busy)
  then show ?thesis using l refused_withId [of "mt_app m'" _ "c_id cmd"] by (fastforce simp: dispatch_def locked_def)
qed

text \<open>An emergency stop of an idle burette, carried out by the motor task: the following stop command is
  refused.\<close>

theorem error_state_is_final_witness:
  "\<exists>r s m'. dispatch ref_nvs None (command_init CommandType.EmergencyStop) (app_init ref_store) = Some (r, s)
     \<and> motor_step plant silent_uart (motor_init s (500, True) ()) = Some m'
     \<and> gBuretteState (mt_app m') = BuretteState.Error
     \<and> (\<exists>rsp. dispatch ref_nvs None (command_init CommandType.Stop) (mt_app m') = Some (Inr rsp, mt_app m')
           \<and> r_kind rsp = ResponseKind.Error)"
proof -
  let ?c = "motor_cmd_init\<lparr>mc_type := MotorCommandType.EmergencyStop\<rparr>"
  let ?s = "(app_init ref_store)\<lparr>ap_valve := cancelValveSettleTimer valve_init, gValveIsSettling := False,
    gBuretteState := BuretteState.Error, gStopFull := True, ap_motorQueue := Some [?c]\<rparr>"
  let ?m = "motor_init ?s (500, True) ()"
  have d: "dispatch ref_nvs None (command_init CommandType.EmergencyStop) (app_init ref_store)
      = Some (Inr ((makeSingleResponse (status_text ''emergency_stopped''))\<lparr>r_id := 0\<rparr>), ?s)"
    by (simp add: dispatch_def withId_def dispatch_handler_def command_init_def handleEmergencyStop_def Let_def
        claim_burette_def sendMotorCommand_def xQueueSend_def MOTOR_CMD_QUEUE_LEN_def)
  obtain m' where m': "motor_step plant silent_uart ?m = Some m'"
    by (simp add: motor_step_def xQueueReceive_def motor_init_def run_command_def)
  have "sys_reach plant silent_uart ref_nvs None ?m m'"
    using m' by (intro sys_reach.Step [OF sys_reach.Here] sys_step.Motor)
  then have "gBuretteState (mt_app m') = BuretteState.Error
      \<and> (\<exists>rsp. dispatch ref_nvs None (command_init CommandType.Stop) (mt_app m') = Some (Inr rsp, mt_app m')
           \<and> r_kind rsp = ResponseKind.Error)"
    using error_state_is_final [of ?m plant silent_uart ref_nvs None m' "command_init CommandType.Stop" ref_nvs None]
    by (simp add: motor_init_def motor_queue_def harmless_def motion_commands_def convertible_def command_init_def)
  then show ?thesis using d m' by blast
qed

end
