(* ===== verification/Spec2Isabelle.thy ===== *)
theory Spec2Isabelle
  imports Burette Volume_Tracking Cycle_SMs Dns Response Diagnostics Dispatch Ownership Boot Motor_Task
    Serial_Reader Broadcast Ble Temperature Rgb_Led Main_Loop Net_Owner Crash_Report
    Adc_Session Whole_System Lockout
begin

text \<open>
  This development models the firmware of a laboratory burette on an ESP32-S3: a C++ program of
  several FreeRTOS tasks that fills and empties a syringe with a stepper motor, switches a valve,
  measures temperature and a voltage, and is operated over a serial line, BLE and HTTP.  The paths
  below are relative to \<^verbatim>\<open>src/components\<close> or, for \<^verbatim>\<open>main/...\<close>, to \<^verbatim>\<open>src\<close>.

  \<^bold>\<open>How the program works.\<close>  The main loop (core 0, one round in 10 ms) advances the tick
  counter, sends the status broadcast, takes command lines from the serial port and BLE, parses and
  dispatches them, and writes the responses and the motor's results.  The network task owns WiFi,
  the HTTP server with its WebSocket sessions, and BLE's start.  The motor task takes motor commands
  from a queue and carries each out to its end; the temperature task publishes the sensors' values.
  The tasks share a record of atomics and a few bounded queues.  A handler of a motion command
  claims the burette by a compare-and-swap of its state, from idle to working, and queues one motor
  command; the motor task's result sets the burette idle again.

  \<^bold>\<open>Layout.\<close>  One theory per component, in the order of the imports:

  \<^item> \<^verbatim>\<open>Prelude\<close>, \<^verbatim>\<open>Floats\<close>, \<^verbatim>\<open>Float_Bounds\<close>: fixed-width words, decimal printing, option results; the
    binary32 and binary64 arithmetic of the target, computed with integers and rounded once, and
    the rules that bound rounded results.
  \<^item> \<^verbatim>\<open>Domain_Types\<close>, \<^verbatim>\<open>Burette\<close>, \<^verbatim>\<open>Calibration\<close>, \<^verbatim>\<open>Volume_Tracking\<close>, \<^verbatim>\<open>Cycle_SMs\<close>: the domain layer
    (\<^verbatim>\<open>domain/include/domain/*.hpp\<close>, \<^verbatim>\<open>domain/src/burette.cpp\<close>): shared enumerations and the record
    of atomics, the burette's state machine with the transition relation it refines, the
    application's state machine and watchdog, calibration, dose planning, volume tracking, and the
    four cycle machines.
  \<^item> \<^verbatim>\<open>Dns\<close>, \<^verbatim>\<open>Json_Text\<close>, \<^verbatim>\<open>Response\<close>, \<^verbatim>\<open>Command_Parser\<close>: texts and packets: the captive portal's DNS
    answer, the hand-written JSON scanners, responses and their text, command lines.
  \<^item> \<^verbatim>\<open>Ring_Buffers\<close>, \<^verbatim>\<open>Logs\<close>, \<^verbatim>\<open>Diagnostics\<close>, \<^verbatim>\<open>Crash_Report\<close>: the black box and its recorders, the log
    buffer with its worker, the stack registry, the hardware watchdog and the panic report
    (\<^verbatim>\<open>diag/src/*.cpp\<close>, \<^verbatim>\<open>domain/src/log_buffer.cpp\<close>, \<^verbatim>\<open>main/log_capture.cpp\<close>).
  \<^item> \<^verbatim>\<open>Nvs_Store\<close>, \<^verbatim>\<open>App_State\<close>, \<^verbatim>\<open>Burette_Handlers\<close>, \<^verbatim>\<open>Calibration_Handlers\<close>, \<^verbatim>\<open>Sensor_Handlers\<close>,
    \<^verbatim>\<open>Dispatch\<close>: the application layer: settings in flash (\<^verbatim>\<open>infrastructure/src/storage/nvs.cpp\<close>), the
    state the handlers share with the valve driver and the motor queues, every handler of
    \<^verbatim>\<open>application/src/handlers/*.cpp\<close>, and \<^verbatim>\<open>application/src/dispatch.cpp\<close>.
  \<^item> \<^verbatim>\<open>Settings\<close>, \<^verbatim>\<open>Adc_Session\<close>: the contract of the stored settings as a locale with its four
    instances, and the calibration of the analogue input as a session of commands.
  \<^item> \<^verbatim>\<open>Tmc_Uart\<close>, \<^verbatim>\<open>Motor_Driver\<close>, \<^verbatim>\<open>Motion\<close>, \<^verbatim>\<open>Motor_Task\<close>: the motor: the TMC2209 register protocol, the
    pulses and the limit switches, motions and homing, and the task with its cycle runners
    (\<^verbatim>\<open>infrastructure/src/drivers/*.cpp\<close>, \<^verbatim>\<open>infrastructure/src/motor/*.cpp\<close>).
  \<^item> \<^verbatim>\<open>Serial_Reader\<close>, \<^verbatim>\<open>Ble\<close>, \<^verbatim>\<open>Temperature\<close>, \<^verbatim>\<open>Rgb_Led\<close>, \<^verbatim>\<open>Broadcast\<close>, \<^verbatim>\<open>Main_Loop\<close>: the serial reader, the
    BLE link, the sensors, the status light, the broadcast texts, and \<^verbatim>\<open>main/main.cpp\<close>.
  \<^item> \<^verbatim>\<open>Ownership\<close>: the classes that own a handle of a library (channels and encoders of the pulse
    peripheral, a settings namespace, a block of external memory, the status light, the motor and
    the analogue input), with their constructors, destructors and moves.
  \<^item> \<^verbatim>\<open>Boot\<close>, \<^verbatim>\<open>Whole_System\<close>, \<^verbatim>\<open>Lockout\<close>: the pins (\<^verbatim>\<open>main/gpio_config.cpp\<close>), the memory checks
    (\<^verbatim>\<open>diag/src/heap_snapshot.cpp\<close>, \<^verbatim>\<open>diag/include/diag/heap_monitor.hpp\<close>) and the boot sequence of
    \<^verbatim>\<open>main/main.cpp\<close>; the main loop and the motor task together, from a command line to the line that
    reports its result; every operation of the tasks as one step relation, in the error state.
  \<^item> \<^verbatim>\<open>Wifi_Credentials\<close>, \<^verbatim>\<open>Wifi\<close>, \<^verbatim>\<open>Rest_Api\<close>, \<^verbatim>\<open>Http_Server\<close>, \<^verbatim>\<open>Net_Owner\<close>: the saved networks, the
    WiFi manager (\<^verbatim>\<open>infrastructure/network/src/wifi.cpp\<close>), the REST handlers
    (\<^verbatim>\<open>interface/src/rest_api.cpp\<close>), the HTTP server and the network task (\<^verbatim>\<open>main/net_owner.cpp\<close>).

  \<^bold>\<open>Conventions.\<close>  A C++ class or struct is a record with the source's member names, prefixed; an
  enumeration is a datatype; machine integers are words of their width; \<^verbatim>\<open>std::expected\<close> is a sum with
  the error on the left.  A result of type option in the operations of the program is \<^verbatim>\<open>None\<close> where
  the source has undefined behaviour (a conversion that does not fit, a write behind an array, a
  null handle that is used) or a loop that does not end, so that a theorem that an operation has a
  value states both its safety and its termination.  A queue is absent (a null handle) or the list
  of its items, oldest first, within its bound.  A character buffer is the list of its characters
  before the terminator, cut to its size as \<^verbatim>\<open>snprintf\<close> does.

  \<^bold>\<open>Parameters.\<close>  Code outside the repository is an argument: the flash library (\<^verbatim>\<open>nvs_api\<close>, whose
  documented behaviour is \<^verbatim>\<open>nvs_laws\<close>; \<^verbatim>\<open>flash_works\<close> says that its calls also succeed), the UART
  library (\<^verbatim>\<open>uart_api\<close>), the pulse peripheral with the plant behind it and the interrupts that become
  visible at each look at an atomic (\<^verbatim>\<open>motor_api\<close>; \<^verbatim>\<open>working\<close>: pulses are accepted and finish,
  \<^verbatim>\<open>quiet\<close>: a stop flag is not raised, \<^verbatim>\<open>approaches\<close>: the switch is reached in a bounded number of pulses,
  \<^verbatim>\<open>ticking\<close>: the clock advances), the WiFi driver and its events (\<^verbatim>\<open>wifi_env\<close>; \<^verbatim>\<open>driver_works\<close>,
  \<^verbatim>\<open>associates\<close>), the sockets of the server library (\<^verbatim>\<open>ws_env\<close>; \<^verbatim>\<open>ws_open\<close>), the JSON parser (an argument
  \<^verbatim>\<open>parse\<close>; \<^verbatim>\<open>parses_commands\<close>), the one-wire bus and the converter, and the contents of the embedded
  web pages, the handles a library call creates (\<^verbatim>\<open>alloc\<close>; \<^verbatim>\<open>fresh_handles\<close>) and the outcomes of the
  calls of the boot (\<^verbatim>\<open>boot_env\<close>).  Every property that assumes something of a parameter has a witness on a concrete one.

  \<^bold>\<open>What is shown.\<close>  The domain layer: the controllers refine their transition relation, pending
  operations complete once, conversions are defined for every input within the stated limits, dose
  planning is total, the tracked volume keeps its bounds with rounding included, and the cycle
  machines issue the stated sequences.  Texts: layouts and round trips of DNS answers, responses,
  register frames and JSON fields; the line reader delivers exactly the lines however the stream is
  cut; the parser returns well-formed commands only.  Stores: the black box and the log keep and
  report exactly the last entries, through one locale of ring buffers interpreted on both; the
  scanners share a locale of key scanners, the stored settings one of values that are read as they
  were written, and the owning classes one of handles that are held exactly once, with four
  instances.  The application: every command is answered under its id,
  an acknowledgement means one queued motor command of an idle burette, a busy burette refuses, and
  saved calibrations are read back and used.  The motor: commanded steps are moved, homing ends
  whatever the switches do, flags block moves, rinsing completes.  The whole: the boot stops only where a checked call fails
  and otherwise establishes what the tasks start from, the start of the motor task leaves the
  system at rest, and any session of move commands is then answered and carried out line by line.  The links: every queued command
  is answered in order by the main loop, events reach every tracked session, sessions and networks
  keep their bounds, and a network posted to the portal is in the flash at the restart.  Several
  properties state behaviour the program does not mean to have (a start that fails keeps the
  burette claimed, a rinse of 255 cycles does not end, an emergency stop is ignored while emptying,
  the error state after an emergency stop lasts until a restart,
  a log request of more than 50 entries leaves its array); the text before each says so.

  \<^bold>\<open>Loops and bounds.\<close>  Loops whose end depends on the hardware (waiting for pulses, moving to a
  switch, homing, the cycle runners) are \<^verbatim>\<open>partial_function\<close> definitions, with separate theorems that
  they end under the hypotheses named above.  The other loops are structural or have a measure; no
  definition has a fuel argument whose end is taken for a result.  Tick counters and lengths are
  kept at their machine width, so the wrap of the 32-bit clock and of the 8-bit counters is visible.

  \<^bold>\<open>Concurrency.\<close>  An operation of a task is one step.  Other tasks and interrupts act between
  steps; inside the motor task, whose motions are long, they act at every look at an atomic flag or
  at the clock.  Reorderings of the memory model inside a step are not modelled.

  \<^bold>\<open>Not modelled.\<close>  The vendored JSON library (a parameter); the allocator resource that places
  the log in external memory (where bytes live has no effect on them); build glue; the host tests
  and stubs; log lines, except where they are the point of a component; the contents of the WebUI
  pages (data for the server); a number scanner of the motor controller that nothing calls; and
  the UART to which the crash report is written.
\<close>

end
